(* ===== verification/Prelude.thy ===== *)
theory Prelude
  imports Main "HOL-Library.Word" "HOL-Library.Sublist"
begin

text \<open>
  Shared vocabulary of the development. Python code that mutates an object and may raise
  is modelled as a state transformer with exceptions: a function from the state to a
  result (\<open>Inl\<close> an exception, \<open>Inr\<close> a value) and the state after the call. Python does
  not roll back on an exception, so the state is returned in both cases. The collection
  \<open>run_simps\<close> holds the equations that execute such programs step by step; the
  component theories add their own operations to it.
\<close>

named_theorems run_simps "equations that execute the exception-state programs"

type_synonym byte = "8 word"

type_synonym ('s, 'e, 'a) exn_st = "'s \<Rightarrow> ('e + 'a) \<times> 's"

definition ret :: "'a \<Rightarrow> ('s, 'e, 'a) exn_st" where
  "ret a s = (Inr a, s)"

definition throw :: "'e \<Rightarrow> ('s, 'e, 'a) exn_st" where
  "throw e s = (Inl e, s)"

definition bindE :: "('s, 'e, 'a) exn_st \<Rightarrow> ('a \<Rightarrow> ('s, 'e, 'b) exn_st) \<Rightarrow> ('s, 'e, 'b) exn_st" where
  "bindE m f s = (case m s of (Inl e, s') \<Rightarrow> (Inl e, s') | (Inr a, s') \<Rightarrow> f a s')"

definition thenE :: "('s, 'e, 'a) exn_st \<Rightarrow> ('s, 'e, 'b) exn_st \<Rightarrow> ('s, 'e, 'b) exn_st" where
  "thenE m n = bindE m (\<lambda>_. n)"

text \<open>\<open>try: m except e: h e\<close>: the handler sees the state the failing code left.\<close>

definition catchE :: "('s, 'e, 'a) exn_st \<Rightarrow> ('e \<Rightarrow> ('s, 'e, 'a) exn_st) \<Rightarrow> ('s, 'e, 'a) exn_st" where
  "catchE m h s = (case m s of (Inl e, s') \<Rightarrow> h e s' | (Inr a, s') \<Rightarrow> (Inr a, s'))"

definition getsE :: "('s \<Rightarrow> 'a) \<Rightarrow> ('s, 'e, 'a) exn_st" where
  "getsE f s = (Inr (f s), s)"

definition modifyE :: "('s \<Rightarrow> 's) \<Rightarrow> ('s, 'e, unit) exn_st" where
  "modifyE f s = (Inr (), f s)"

subsection \<open>Executing programs\<close>

lemma ret_run [run_simps]: "ret a s = (Inr a, s)"
  and throw_run [run_simps]: "throw e s = (Inl e, s)"
  and getsE_run [run_simps]: "getsE f s = (Inr (f s), s)"
  and modifyE_run [run_simps]: "modifyE f s = (Inr (), f s)"
  by (simp_all add: ret_def throw_def getsE_def modifyE_def)

lemma bindE_Inl [run_simps]: "m s = (Inl e, s') \<Longrightarrow> bindE m f s = (Inl e, s')"
  and bindE_Inr [run_simps]: "m s = (Inr a, s') \<Longrightarrow> bindE m f s = f a s'"
  by (simp_all add: bindE_def)

lemma thenE_Inl [run_simps]: "m s = (Inl e, s') \<Longrightarrow> thenE m n s = (Inl e, s')"
  and thenE_Inr [run_simps]: "m s = (Inr a, s') \<Longrightarrow> thenE m n s = n s'"
  by (simp_all add: thenE_def bindE_def)

lemma catchE_Inl [run_simps]: "m s = (Inl e, s') \<Longrightarrow> catchE m h s = h e s'"
  and catchE_Inr [run_simps]: "m s = (Inr a, s') \<Longrightarrow> catchE m h s = (Inr a, s')"
  by (simp_all add: catchE_def)

lemma bindE_ret [simp]: "bindE (ret a) f = f a"
  and bindE_throw [simp]: "bindE (throw e) f = throw e"
  and bindE_ret_right [simp]: "bindE m ret = m"
  by (auto simp: fun_eq_iff bindE_def ret_def throw_def split: prod.splits sum.splits)

lemma bindE_assoc: "bindE (bindE m f) g = bindE m (\<lambda>a. bindE (f a) g)"
  by (auto simp: fun_eq_iff bindE_def split: prod.splits sum.splits)

lemma thenE_assoc: "thenE (thenE m n) k = thenE m (thenE n k)"
  by (simp add: thenE_def bindE_assoc)

lemma bindE_cases:
  obtains (exc) e s' where "m s = (Inl e, s')" "bindE m f s = (Inl e, s')"
  | (val) a s' where "m s = (Inr a, s')" "bindE m f s = f a s'"
  by (cases "m s" rule: prod.exhaust; cases "fst (m s)")
     (auto simp: bindE_def split: sum.splits)

subsection \<open>Invariants of programs\<close>

text \<open>
  \<open>preserves P m\<close>: from every state satisfying \<open>P\<close>, \<open>m\<close> ends in a state satisfying
  \<open>P\<close>, whether it returns or raises. The composition lemmas let the invariant of a
  compound operation follow from those of its steps.
\<close>

definition preserves :: "('s \<Rightarrow> bool) \<Rightarrow> ('s, 'e, 'a) exn_st \<Rightarrow> bool" where
  "preserves P m \<longleftrightarrow> (\<forall>s. P s \<longrightarrow> P (snd (m s)))"

lemma preserves_ret [intro]: "preserves P (ret a)"
  and preserves_throw [intro]: "preserves P (throw e)"
  and preserves_getsE [intro]: "preserves P (getsE f)"
  by (simp_all add: preserves_def ret_def throw_def getsE_def)

lemma preserves_bindE [intro]:
  "preserves P m \<Longrightarrow> (\<And>a. preserves P (f a)) \<Longrightarrow> preserves P (bindE m f)"
  by (auto simp: preserves_def bindE_def split: prod.splits sum.splits)

lemma preserves_thenE [intro]:
  "preserves P m \<Longrightarrow> preserves P n \<Longrightarrow> preserves P (thenE m n)"
  by (auto simp: thenE_def)

lemma preserves_catchE [intro]:
  "preserves P m \<Longrightarrow> (\<And>e. preserves P (h e)) \<Longrightarrow> preserves P (catchE m h)"
  by (auto simp: preserves_def catchE_def split: prod.splits sum.splits)

lemma preserves_modifyE [intro]:
  "(\<And>s. P s \<Longrightarrow> P (f s)) \<Longrightarrow> preserves P (modifyE f)"
  by (simp add: preserves_def modifyE_def)

subsection \<open>Call logs\<close>

text \<open>
  \<open>emits log cs m s\<close>: run from \<open>s\<close>, \<open>m\<close> appends to the log \<open>log s\<close> a prefix
  of \<open>cs\<close>, and all of \<open>cs\<close> when it returns normally. The bind rule composes the
  sequences of a straight-line program.
\<close>

definition emits :: "('s \<Rightarrow> 'c list) \<Rightarrow> 'c list \<Rightarrow> ('s, 'e, 'a) exn_st \<Rightarrow> 's \<Rightarrow> bool" where
  "emits log cs m s \<longleftrightarrow>
     (\<exists>calls. log (snd (m s)) = log s @ calls \<and> prefix calls cs \<and>
              (\<forall>a. fst (m s) = Inr a \<longrightarrow> calls = cs))"

lemma emits_bindE:
  assumes m: "emits log cs1 m s"
    and f: "\<And>a s'. m s = (Inr a, s') \<Longrightarrow> emits log cs2 (f a) s'"
  shows "emits log (cs1 @ cs2) (bindE m f) s"
proof (cases "m s")
  case (Pair r s')
  show ?thesis
  proof (cases r)
    case (Inl e)
    with m Pair show ?thesis
      by (auto simp: emits_def bindE_def)
  next
    case (Inr a)
    with m Pair have l: "log s' = log s @ cs1"
      by (auto simp: emits_def)
    from f [OF Pair [unfolded Inr]] obtain calls where
      "log (snd (f a s')) = log s' @ calls" "prefix calls cs2"
      "\<forall>b. fst (f a s') = Inr b \<longrightarrow> calls = cs2"
      by (auto simp: emits_def)
    with l Pair Inr show ?thesis
      by (auto simp: emits_def bindE_def)
  qed
qed

lemma emits_thenE:
  "emits log cs1 m s \<Longrightarrow> (\<And>a s'. m s = (Inr a, s') \<Longrightarrow> emits log cs2 n s') \<Longrightarrow>
   emits log (cs1 @ cs2) (thenE m n) s"
  unfolding thenE_def by (rule emits_bindE)

lemma emits_silent:
  "log (snd (m s)) = log s \<Longrightarrow> emits log [] m s"
  by (simp add: emits_def)

lemma emits_Nil_thenE:
  "emits log [] m s \<Longrightarrow> (\<And>a s'. m s = (Inr a, s') \<Longrightarrow> emits log cs n s') \<Longrightarrow>
   emits log cs (thenE m n) s"
  using emits_thenE [of log "[]" m s cs n] by simp

lemma emits_Nil_bindE:
  "emits log [] m s \<Longrightarrow> (\<And>a s'. m s = (Inr a, s') \<Longrightarrow> emits log cs (f a) s') \<Longrightarrow>
   emits log cs (bindE m f) s"
  using emits_bindE [of log "[]" m s cs f] by simp

end
