(* ===== verification/Python.thy ===== *)
theory Python
  imports Prelude
begin

text \<open>
  The parts of Python and of pylink that \<open>src/rtt_console/jlink_dongle.py\<close> relies on:
  the exceptions it raises or lets through, \<open>str()\<close> of a non-negative \<open>int\<close>,
  \<open>int.from_bytes(_, 'big')\<close> and the \<open>:.3f\<close> rendering of a frequency in MHz.
  Messages and console lines are Isabelle strings: every message the module builds is
  ASCII apart from what pylink or the caller supplies.
\<close>

subsection \<open>Exceptions\<close>

text \<open>
  \<open>JLinkException\<close> stands for pylink's exception and all its subclasses (the module
  only tests \<open>isinstance\<close> against the base class); its argument is \<open>str(e)\<close>.
  \<open>JLinkDongleException\<close> is the module's own class (lines 9--13), whose only state
  is its message. \<open>AttributeError\<close> is raised by a read of the unassigned slot
  \<open>jlink\<close>; the two codec errors carry the index where encoding or decoding failed.
\<close>

datatype pyexc =
    JLinkException string
  | JLinkDongleException string
  | AttributeError string
  | UnicodeDecodeError nat
  | UnicodeEncodeError nat

fun is_jlink_exception :: "pyexc \<Rightarrow> bool" where
  "is_jlink_exception (JLinkException _) = True"
| "is_jlink_exception _ = False"

subsection \<open>\<open>str()\<close> of a non-negative integer\<close>

definition digit_char :: "nat \<Rightarrow> char" where
  "digit_char d = ''0123456789'' ! d"

fun show_nat :: "nat \<Rightarrow> string" where
  "show_nat n = (if n < 10 then [digit_char n] else show_nat (n div 10) @ [digit_char (n mod 10)])"

declare show_nat.simps [simp del]

text \<open>\<open>int(s)\<close> restricted to strings of decimal digits, the inverse of \<open>str\<close>.\<close>

definition is_digit :: "char \<Rightarrow> bool" where
  "is_digit c \<longleftrightarrow> 48 \<le> (of_char c :: nat) \<and> (of_char c :: nat) < 58"

subsection \<open>\<open>int.from_bytes(bs, 'big')\<close>\<close>

definition int_from_bytes_big :: "byte list \<Rightarrow> nat" where
  "int_from_bytes_big bs = foldl (\<lambda>acc b. 256 * acc + unat b) 0 bs"

subsection \<open>\<open>f"{hz / 1e6:.3f}"\<close>\<close>

text \<open>
  The frequency in MHz with three decimals, i.e. the frequency rounded to whole kHz,
  written as an integer part, a point and three digits. Halves are rounded up; CPython
  rounds the binary double nearest to \<open>hz / 10^6\<close>, which may differ from this when
  \<open>hz mod 1000 = 500\<close>.
\<close>

definition pad3 :: "nat \<Rightarrow> string" where
  "pad3 n = (let s = show_nat n in replicate (3 - length s) (CHR ''0'') @ s)"

definition fmt_mhz :: "nat \<Rightarrow> string" where
  "fmt_mhz hz = (let khz = (hz + 500) div 1000 in show_nat (khz div 1000) @ ''.'' @ pad3 (khz mod 1000))"

subsection \<open>Properties\<close>

lemma of_char_digit_char: "d < 10 \<Longrightarrow> of_char (digit_char d) = (48 + d :: nat)"
  by (auto simp: digit_char_def less_Suc_eq numeral_eq_Suc)

lemma digit_char_is_digit: "d < 10 \<Longrightarrow> is_digit (digit_char d)"
  by (simp add: is_digit_def of_char_digit_char)

lemma show_nat_ne [simp]: "show_nat n \<noteq> []"
  by (subst show_nat.simps) simp

lemma show_nat_digits: "list_all is_digit (show_nat n)"
proof (induction n rule: show_nat.induct)
  case (1 n)
  then show ?case
    by (subst show_nat.simps) (simp add: digit_char_is_digit)
qed

lemma show_nat_value: "foldl (\<lambda>acc c. 10 * acc + (of_char c - 48)) 0 (show_nat n) = n"
proof (induction n rule: show_nat.induct)
  case (1 n)
  then show ?case
    by (subst show_nat.simps) (simp add: of_char_digit_char)
qed

lemma int_from_bytes_big_snoc [simp]:
  "int_from_bytes_big (bs @ [b]) = 256 * int_from_bytes_big bs + unat b"
  by (simp add: int_from_bytes_big_def)

lemma int_from_bytes_big_bound: "int_from_bytes_big bs < 256 ^ length bs"
proof (induction bs rule: rev_induct)
  case Nil
  then show ?case by (simp add: int_from_bytes_big_def)
next
  case (snoc b bs)
  have "unat b < 256"
    using unsigned_less [of b, where ?'a = nat] by simp
  with snoc.IH show ?case by simp
qed

end
