(* ===== verification/Check_Exception.thy ===== *)
theory Check_Exception
  imports Python "HOL-Library.Sublist"
begin

text \<open>
  The decorator \<open>JLinkDongle.check_exception\<close> (\<open>src/rtt_console/jlink_dongle.py\<close>,
  lines 22--33) and the colorama escape codes its messages use. A decorated method is a
  program of the exception-state monad; the decorator catches a pylink exception that
  the method lets escape and raises a \<open>JLinkDongleException\<close> in its place. The state
  the method left behind is kept: Python rolls nothing back.
\<close>

subsection \<open>colorama's \<open>Fore\<close> codes\<close>

definition ansi_esc :: "string \<Rightarrow> string" where
  "ansi_esc code = CHR 0x1B # CHR ''['' # code @ ''m''"

definition Clr_RED :: string where
  "Clr_RED = ansi_esc ''31''"

definition Clr_YELLOW :: string where
  "Clr_YELLOW = ansi_esc ''33''"

definition Clr_RESET :: string where
  "Clr_RESET = ansi_esc ''39''"

subsection \<open>The decorator\<close>

text \<open>
  \<open>rtt_names\<close> is the set \<open>{self.read_rtt.__name__, self.write_rtt.__name__}\<close>:
  \<open>functools.wraps\<close> copies the wrapped function's name to the wrapper, so both are the
  plain method names.
\<close>

definition rtt_names :: "string set" where
  "rtt_names = {''read_rtt'', ''write_rtt''}"

definition dongle_error_message :: "string \<Rightarrow> string \<Rightarrow> string" where
  "dongle_error_message name e =
     (if name \<in> rtt_names then ''Do not read/write from RTT Terminal''
      else Clr_RED @ ''ERROR:'' @ Clr_RESET @ '' method name: '' @ Clr_YELLOW @ name @ Clr_RESET
           @ '' : '' @ e)"

fun relabel :: "string \<Rightarrow> pyexc \<Rightarrow> ('s, pyexc, 'a) exn_st" where
  "relabel name (JLinkException e) = throw (JLinkDongleException (dongle_error_message name e))"
| "relabel name exc = throw exc"

definition check_exception :: "string \<Rightarrow> ('s, pyexc, 'a) exn_st \<Rightarrow> ('s, pyexc, 'a) exn_st" where
  "check_exception name func = catchE func (relabel name)"

subsection \<open>Behaviour\<close>

lemma check_exception_run:
  "check_exception name func s =
     (case func s of
        (Inl (JLinkException e), s') \<Rightarrow> (Inl (JLinkDongleException (dongle_error_message name e)), s')
      | r \<Rightarrow> r)"
proof (cases "func s")
  case (Pair r s')
  then show ?thesis
    by (cases r rule: sum.exhaust; cases "projl r")
       (auto simp: check_exception_def catchE_def throw_def split: sum.splits)
qed

lemma check_exception_Inr [run_simps]:
  "func s = (Inr a, s') \<Longrightarrow> check_exception name func s = (Inr a, s')"
  and check_exception_JLink [run_simps]:
  "func s = (Inl (JLinkException e), s') \<Longrightarrow>
     check_exception name func s = (Inl (JLinkDongleException (dongle_error_message name e)), s')"
  and check_exception_other [run_simps]:
  "func s = (Inl x, s') \<Longrightarrow> \<not> is_jlink_exception x \<Longrightarrow> check_exception name func s = (Inl x, s')"
  by (cases x; simp add: check_exception_run)+

lemma check_exception_state: "snd (check_exception name func s) = snd (func s)"
  by (simp add: check_exception_run split: prod.splits sum.splits pyexc.splits)

lemma check_exception_no_jlink: "fst (check_exception name func s) \<noteq> Inl (JLinkException e)"
  by (simp add: check_exception_run split: prod.splits sum.splits pyexc.splits)

lemma preserves_check_exception [intro]:
  "preserves P func \<Longrightarrow> preserves P (check_exception name func)"
  by (simp add: preserves_def check_exception_state)

subsection \<open>The decorator's contract\<close>

text \<open>
  C1. A decorated method never lets a pylink exception escape and leaves the object in
  the state the method left it. A pylink exception \<open>e\<close> becomes a
  \<open>JLinkDongleException\<close>: for \<open>read_rtt\<close> and \<open>write_rtt\<close> with the fixed
  message ``Do not read/write from RTT Terminal'', for every other method with a message
  that ends with the method's name and \<open>str(e)\<close>. Any other exception, and a normal
  return, pass through unchanged.
\<close>

theorem check_exception_relabels:
  "snd (check_exception name func s) = snd (func s) \<and>
   (\<forall>e. fst (check_exception name func s) \<noteq> Inl (JLinkException e)) \<and>
   (fst (func s) = Inl (JLinkException e) \<longrightarrow>
      (\<exists>m. fst (check_exception name func s) = Inl (JLinkDongleException m) \<and>
           (name \<in> {''read_rtt'', ''write_rtt''} \<longrightarrow> m = ''Do not read/write from RTT Terminal'') \<and>
           (name \<notin> {''read_rtt'', ''write_rtt''} \<longrightarrow>
              suffix (Clr_YELLOW @ name @ Clr_RESET @ '' : '' @ e) m))) \<and>
   ((\<forall>e. fst (func s) \<noteq> Inl (JLinkException e)) \<longrightarrow> fst (check_exception name func s) = fst (func s))"
  by (auto simp: check_exception_state check_exception_no_jlink check_exception_run dongle_error_message_def
                 rtt_names_def suffix_def split: prod.splits sum.splits pyexc.splits)

end
