(* ===== verification/JLink_API.thy ===== *)
theory JLink_API
  imports Python
begin

text \<open>
  The interface between \<open>JLinkDongle\<close> and pylink. The module calls a fixed set of
  methods of a \<open>pylink.JLink\<close> object; this theory names them as fields of a record
  \<open>jlink_api\<close>, so that the dongle's operations are defined, and their lemmas proved, for
  every library that offers these methods. A method takes the handle object
  (type \<open>'h\<close>, the state of one \<open>JLink\<close> instance) and the rest of the world (type
  \<open>'w\<close>: the probe, the target and its memory) and returns its result or an exception,
  the handle and the world after the call. \<open>jl_new\<close> is the constructor \<open>JLink()\<close> and
  \<open>jl_finalize\<close> is what CPython runs (\<open>JLink.__del__\<close>) when the last reference to
  an instance is dropped.

  The datatype \<open>call\<close> and the wrapper \<open>traced\<close> log every call into the world;
  they are the instrumented library (a mock with a call log) used to state in which
  order the dongle calls pylink.
\<close>

datatype jlink_interface = JTAG | SWD | FINE | ICSP | SPI | C2

text \<open>The \<open>speed\<close> field is \<open>str | int\<close>: the string \<open>'auto'\<close> or a speed in kHz.\<close>

datatype speed = Auto | KHz nat

type_synonym ('h, 'w, 'a) meth = "'h \<Rightarrow> 'w \<Rightarrow> (pyexc + 'a) \<times> 'h \<times> 'w"

record ('h, 'w) jlink_api =
  jl_new :: "'w \<Rightarrow> (pyexc + 'h) \<times> 'w"
  jl_finalize :: "'h \<Rightarrow> 'w \<Rightarrow> 'w"
  jl_disable_dialog_boxes :: "('h, 'w, unit) meth"
  jl_open :: "('h, 'w, unit) meth"
  jl_rtt_stop :: "('h, 'w, unit) meth"
  jl_set_tif :: "jlink_interface \<Rightarrow> ('h, 'w, unit) meth"
  jl_connect :: "string \<Rightarrow> speed \<Rightarrow> bool \<Rightarrow> ('h, 'w, unit) meth"
  jl_rtt_start :: "('h, 'w, unit) meth"
  jl_endian_mode :: "('h, 'w, byte list) meth"
  jl_speed :: "('h, 'w, nat) meth"
  jl_core_name :: "('h, 'w, string) meth"
  jl_cpu_speed :: "('h, 'w, nat) meth"
  jl_rtt_read :: "nat \<Rightarrow> nat \<Rightarrow> ('h, 'w, byte list) meth"
  jl_rtt_write :: "nat \<Rightarrow> byte list \<Rightarrow> ('h, 'w, nat) meth"
  jl_close :: "('h, 'w, unit) meth"
  jl_MAX_BUF_SIZE :: nat

subsection \<open>The instrumented library\<close>

datatype call =
    CNew | CFinalize | CDisableDialogs | COpen | CRttStop | CSetTif jlink_interface
  | CConnect string speed bool | CRttStart | CEndian | CSpeed | CCoreName | CCpuSpeed
  | CRttRead nat nat | CRttWrite nat "byte list" | CClose

definition logged :: "call \<Rightarrow> ('h, 'w, 'a) meth \<Rightarrow> ('h, 'w \<times> call list, 'a) meth" where
  "logged c m h wl = (case m h (fst wl) of (r, h', w') \<Rightarrow> (r, h', (w', snd wl @ [c])))"

definition traced :: "('h, 'w) jlink_api \<Rightarrow> ('h, 'w \<times> call list) jlink_api" where
  "traced api =
     \<lparr>jl_new = (\<lambda>wl. case jl_new api (fst wl) of (r, w') \<Rightarrow> (r, (w', snd wl @ [CNew]))),
      jl_finalize = (\<lambda>h wl. (jl_finalize api h (fst wl), snd wl @ [CFinalize])),
      jl_disable_dialog_boxes = logged CDisableDialogs (jl_disable_dialog_boxes api),
      jl_open = logged COpen (jl_open api),
      jl_rtt_stop = logged CRttStop (jl_rtt_stop api),
      jl_set_tif = (\<lambda>i. logged (CSetTif i) (jl_set_tif api i)),
      jl_connect = (\<lambda>c s v. logged (CConnect c s v) (jl_connect api c s v)),
      jl_rtt_start = logged CRttStart (jl_rtt_start api),
      jl_endian_mode = logged CEndian (jl_endian_mode api),
      jl_speed = logged CSpeed (jl_speed api),
      jl_core_name = logged CCoreName (jl_core_name api),
      jl_cpu_speed = logged CCpuSpeed (jl_cpu_speed api),
      jl_rtt_read = (\<lambda>n k. logged (CRttRead n k) (jl_rtt_read api n k)),
      jl_rtt_write = (\<lambda>n d. logged (CRttWrite n d) (jl_rtt_write api n d)),
      jl_close = logged CClose (jl_close api),
      jl_MAX_BUF_SIZE = jl_MAX_BUF_SIZE api\<rparr>"

lemma logged_log: "snd (snd (snd (logged c m h wl))) = snd wl @ [c]"
  by (simp add: logged_def split: prod.splits)

lemma logged_result:
  "m h w = (r, h', w') \<Longrightarrow> logged c m h (w, log) = (r, h', (w', log @ [c]))"
  by (simp add: logged_def)

lemma traced_fields [simp]:
  "jl_new (traced api) wl = (case jl_new api (fst wl) of (r, w') \<Rightarrow> (r, (w', snd wl @ [CNew])))"
  "jl_finalize (traced api) h wl = (jl_finalize api h (fst wl), snd wl @ [CFinalize])"
  "jl_disable_dialog_boxes (traced api) = logged CDisableDialogs (jl_disable_dialog_boxes api)"
  "jl_open (traced api) = logged COpen (jl_open api)"
  "jl_rtt_stop (traced api) = logged CRttStop (jl_rtt_stop api)"
  "jl_set_tif (traced api) i = logged (CSetTif i) (jl_set_tif api i)"
  "jl_connect (traced api) c sp v = logged (CConnect c sp v) (jl_connect api c sp v)"
  "jl_rtt_start (traced api) = logged CRttStart (jl_rtt_start api)"
  "jl_endian_mode (traced api) = logged CEndian (jl_endian_mode api)"
  "jl_speed (traced api) = logged CSpeed (jl_speed api)"
  "jl_core_name (traced api) = logged CCoreName (jl_core_name api)"
  "jl_cpu_speed (traced api) = logged CCpuSpeed (jl_cpu_speed api)"
  "jl_rtt_read (traced api) n k = logged (CRttRead n k) (jl_rtt_read api n k)"
  "jl_rtt_write (traced api) n d = logged (CRttWrite n d) (jl_rtt_write api n d)"
  "jl_close (traced api) = logged CClose (jl_close api)"
  "jl_MAX_BUF_SIZE (traced api) = jl_MAX_BUF_SIZE api"
  by (simp_all add: traced_def)

end
