(* ===== verification/Utf8.thy ===== *)
theory Utf8
  imports Python
begin

text \<open>
  Python's strict \<open>'utf-8'\<close> codec, as used by \<open>read_rtt_string\<close> (line 63,
  \<open>bytes(data).decode('utf-8')\<close>) and \<open>write_rtt_sring\<close> (line 67,
  \<open>str.encode(data, 'utf-8')\<close>). A Python \<open>str\<close> is a sequence of code points
  (\<open>pystr\<close>, each below \<open>0x110000\<close>); it may hold lone surrogates, which the
  encoder rejects. The decoder accepts exactly the well-formed sequences of the Unicode
  standard (Table 3-7): \<open>seq_len\<close> gives a sequence's length from its first byte,
  \<open>second_lo\<close>/\<open>second_hi\<close> the range of its second byte, \<open>is_cont\<close> the range
  of the others. An error is the index at which the offending code point or byte
  sequence starts, the \<open>start\<close> attribute of Python's exception.
\<close>

type_synonym pystr = "nat list"

definition is_scalar :: "nat \<Rightarrow> bool" where
  "is_scalar c \<longleftrightarrow> c < 0x110000 \<and> \<not> (0xD800 \<le> c \<and> c < 0xE000)"

definition enc_cp :: "nat \<Rightarrow> nat list" where
  "enc_cp c =
     (if c < 0x80 then [c]
      else if c < 0x800 then [0xC0 + c div 64, 0x80 + c mod 64]
      else if c < 0x10000 then [0xE0 + c div 64 div 64, 0x80 + c div 64 mod 64, 0x80 + c mod 64]
      else [0xF0 + c div 64 div 64 div 64, 0x80 + c div 64 div 64 mod 64,
            0x80 + c div 64 mod 64, 0x80 + c mod 64])"

fun utf8_encode_from :: "nat \<Rightarrow> pystr \<Rightarrow> nat + byte list" where
  "utf8_encode_from i [] = Inr []"
| "utf8_encode_from i (c # cs) =
     (if \<not> is_scalar c then Inl i
      else case utf8_encode_from (Suc i) cs of
             Inl j \<Rightarrow> Inl j
           | Inr bs \<Rightarrow> Inr (map of_nat (enc_cp c) @ bs))"

definition utf8_encode :: "pystr \<Rightarrow> nat + byte list" where
  "utf8_encode s = utf8_encode_from 0 s"

definition seq_len :: "nat \<Rightarrow> nat" where
  "seq_len b =
     (if b < 0x80 then 1
      else if 0xC2 \<le> b \<and> b \<le> 0xDF then 2
      else if 0xE0 \<le> b \<and> b \<le> 0xEF then 3
      else if 0xF0 \<le> b \<and> b \<le> 0xF4 then 4
      else 0)"

definition lead_bits :: "nat \<Rightarrow> nat" where
  "lead_bits b =
     (if b < 0x80 then b else if b \<le> 0xDF then b - 0xC0 else if b \<le> 0xEF then b - 0xE0 else b - 0xF0)"

definition second_lo :: "nat \<Rightarrow> nat" where
  "second_lo b = (if b = 0xE0 then 0xA0 else if b = 0xF0 then 0x90 else 0x80)"

definition second_hi :: "nat \<Rightarrow> nat" where
  "second_hi b = (if b = 0xED then 0x9F else if b = 0xF4 then 0x8F else 0xBF)"

definition is_cont :: "nat \<Rightarrow> bool" where
  "is_cont b \<longleftrightarrow> 0x80 \<le> b \<and> b \<le> 0xBF"

definition seq_ok :: "nat \<Rightarrow> nat list \<Rightarrow> bool" where
  "seq_ok b cs \<longleftrightarrow> length cs = seq_len b - 1 \<and>
     (case cs of [] \<Rightarrow> True | c # cs' \<Rightarrow> second_lo b \<le> c \<and> c \<le> second_hi b \<and> list_all is_cont cs')"

definition seq_val :: "nat \<Rightarrow> nat list \<Rightarrow> nat" where
  "seq_val b cs = foldl (\<lambda>acc c. acc * 64 + (c - 0x80)) (lead_bits b) cs"

function utf8_decode_from :: "nat \<Rightarrow> byte list \<Rightarrow> nat + pystr" where
  "utf8_decode_from i [] = Inr []"
| "utf8_decode_from i (b # bs) =
     (let n = seq_len (unat b); cs = map unat (take (n - 1) bs) in
      if n = 0 \<or> \<not> seq_ok (unat b) cs then Inl i
      else case utf8_decode_from (i + n) (drop (n - 1) bs) of
             Inl j \<Rightarrow> Inl j
           | Inr s \<Rightarrow> Inr (seq_val (unat b) cs # s))"
  by pat_completeness auto
termination
  by (relation "measure (\<lambda>(i, bs). length bs)") auto

definition utf8_decode :: "byte list \<Rightarrow> nat + pystr" where
  "utf8_decode bs = utf8_decode_from 0 bs"

subsection \<open>One code point\<close>

lemma div64_digit: "r < 64 \<Longrightarrow> (q * 64 + r) div 64 = (q::nat)"
  and mod64_digit: "r < 64 \<Longrightarrow> (q * 64 + r) mod 64 = (r::nat)"
  by simp_all

lemma enc_cp_2: "r < 64 \<Longrightarrow> 2 \<le> q \<Longrightarrow> q < 32 \<Longrightarrow> enc_cp (q * 64 + r) = [0xC0 + q, 0x80 + r]"
  by (simp add: enc_cp_def)

lemma enc_cp_3:
  assumes "r < 64" "r2 < 64" "0 < q2 \<or> 32 \<le> r2" "q2 < 16"
  shows "enc_cp ((q2 * 64 + r2) * 64 + r) = [0xE0 + q2, 0x80 + r2, 0x80 + r]"
proof -
  have "((q2 * 64 + r2) * 64 + r) div 64 div 64 = q2"
    and "((q2 * 64 + r2) * 64 + r) div 64 mod 64 = r2"
    and "((q2 * 64 + r2) * 64 + r) mod 64 = r"
    using assms by (simp_all only: div64_digit mod64_digit)
  moreover have "0x800 \<le> (q2 * 64 + r2) * 64 + r" "(q2 * 64 + r2) * 64 + r < 0x10000"
    using assms by auto
  ultimately show ?thesis by (simp add: enc_cp_def)
qed

lemma enc_cp_4:
  assumes "r < 64" "r2 < 64" "r3 < 64" "0 < q3 \<or> 16 \<le> r3" "q3 < 8"
  shows "enc_cp (((q3 * 64 + r3) * 64 + r2) * 64 + r) = [0xF0 + q3, 0x80 + r3, 0x80 + r2, 0x80 + r]"
proof -
  let ?c = "((q3 * 64 + r3) * 64 + r2) * 64 + r"
  have "?c div 64 div 64 div 64 = q3"
    and "?c div 64 div 64 mod 64 = r3"
    and "?c div 64 mod 64 = r2"
    and "?c mod 64 = r"
    using assms by (simp_all only: div64_digit mod64_digit)
  moreover have "0x10000 \<le> ?c"
    using assms by auto
  ultimately show ?thesis by (simp add: enc_cp_def)
qed

lemma digits64: obtains q r where "c = q * 64 + r" "r < (64::nat)"
  using div_mult_mod_eq [of c 64] by (metis mod_less_divisor zero_less_numeral)

lemmas seq_defs = seq_ok_def seq_val_def seq_len_def lead_bits_def second_lo_def second_hi_def is_cont_def

lemma enc_cp_seq:
  assumes "is_scalar c"
  shows "\<exists>b cs. enc_cp c = b # cs \<and> seq_len b = Suc (length cs) \<and> seq_ok b cs \<and> seq_val b cs = c"
proof -
  consider (one) "c < 0x80" | (two) "0x80 \<le> c" "c < 0x800" | (three) "0x800 \<le> c" "c < 0x10000"
    | (four) "0x10000 \<le> c"
    by linarith
  then show ?thesis
  proof cases
    case one
    then show ?thesis by (simp add: enc_cp_def seq_defs)
  next
    case two
    obtain q r where c: "c = q * 64 + r" "r < 64" by (rule digits64)
    with two have b: "2 \<le> q" "q < 32" by linarith+
    have e: "enc_cp c = [0xC0 + q, 0x80 + r]"
      unfolding c(1) using c(2) b by (rule enc_cp_2)
    have v: "seq_val (0xC0 + q) [0x80 + r] = c"
      using c b by (simp add: seq_defs)
    show ?thesis using e v b c(2) by (simp add: seq_defs)
  next
    case three
    obtain q r where c: "c = q * 64 + r" "r < 64" by (rule digits64)
    obtain q2 r2 where q: "q = q2 * 64 + r2" "r2 < 64" by (rule digits64)
    from three c q have b: "0 < q2 \<or> 32 \<le> r2" "q2 < 16" by linarith+
    from assms c q have s: "q2 = 13 \<longrightarrow> r2 < 32" by (auto simp: is_scalar_def)
    have e: "enc_cp c = [0xE0 + q2, 0x80 + r2, 0x80 + r]"
      unfolding c(1) q(1) using c(2) q(2) b by (rule enc_cp_3)
    have v: "seq_val (0xE0 + q2) [0x80 + r2, 0x80 + r] = c"
      using c q b by (simp add: seq_defs)
    show ?thesis using e v b s c(2) q(2) by (auto simp add: seq_defs)
  next
    case four
    obtain q r where c: "c = q * 64 + r" "r < 64" by (rule digits64)
    obtain q2 r2 where q: "q = q2 * 64 + r2" "r2 < 64" by (rule digits64)
    obtain q3 r3 where q2: "q2 = q3 * 64 + r3" "r3 < 64" by (rule digits64)
    from four c q q2 have b: "0 < q3 \<or> 16 \<le> r3" by linarith
    from assms c q q2 have b2: "q3 < 4 \<or> (q3 = 4 \<and> r3 < 16)" by (auto simp: is_scalar_def)
    have e: "enc_cp c = [0xF0 + q3, 0x80 + r3, 0x80 + r2, 0x80 + r]"
      unfolding c(1) q(1) q2(1) using c(2) q(2) q2(2) b b2 by (intro enc_cp_4) auto
    have v: "seq_val (0xF0 + q3) [0x80 + r3, 0x80 + r2, 0x80 + r] = c"
      using c q q2 b2 by (simp add: seq_defs)
    show ?thesis using e v b b2 c(2) q(2) q2(2) by (auto simp add: seq_defs)
  qed
qed

lemma seq_ok_bytes:
  "seq_ok b cs \<Longrightarrow> seq_len b \<noteq> 0 \<Longrightarrow> b < 256 \<and> list_all (\<lambda>x. x < 256) cs"
  by (cases cs) (auto simp: seq_defs list_all_iff split: if_splits)

lemma unat_of_nat_byte: "x < 256 \<Longrightarrow> unat (of_nat x :: byte) = x"
  by (simp add: unat_of_nat)

lemma map_unat_of_nat_bytes: "list_all (\<lambda>x. x < 256) xs \<Longrightarrow> map (unat \<circ> (of_nat :: nat \<Rightarrow> byte)) xs = xs"
  by (induction xs) (simp_all add: unat_of_nat_byte)

lemma utf8_decode_from_seq:
  "seq_len (unat b) = Suc (length cs) \<Longrightarrow> seq_ok (unat b) (map unat cs) \<Longrightarrow>
   utf8_decode_from i (b # cs @ bs) =
     (case utf8_decode_from (i + Suc (length cs)) bs of
        Inl j \<Rightarrow> Inl j | Inr s \<Rightarrow> Inr (seq_val (unat b) (map unat cs) # s))"
  by (simp add: Let_def split: sum.split)

lemma utf8_decode_from_enc_cp:
  assumes "is_scalar c"
  shows "utf8_decode_from i (map of_nat (enc_cp c) @ bs) =
           (case utf8_decode_from (i + length (enc_cp c)) bs of Inl j \<Rightarrow> Inl j | Inr s \<Rightarrow> Inr (c # s))"
proof -
  obtain b cs where e: "enc_cp c = b # cs" and l: "seq_len b = Suc (length cs)"
    and ok: "seq_ok b cs" and v: "seq_val b cs = c"
    using enc_cp_seq [OF assms] by blast
  from ok l have bytes: "b < 256" "list_all (\<lambda>x. x < 256) cs"
    using seq_ok_bytes by auto
  have u: "unat (of_nat b :: byte) = b"
    using bytes by (simp add: unat_of_nat_byte)
  have t: "map unat (map of_nat cs :: byte list) = cs"
    using bytes by (simp add: map_unat_of_nat_bytes)
  have "utf8_decode_from i ((of_nat b :: byte) # map of_nat cs @ bs) =
          (case utf8_decode_from (i + Suc (length cs)) bs of
             Inl j \<Rightarrow> Inl j | Inr s \<Rightarrow> Inr (seq_val b cs # s))"
    by (rule utf8_decode_from_seq [of "of_nat b" "map of_nat cs" i bs, unfolded u t length_map, OF l ok])
  then show ?thesis
    by (simp only: e v list.map append_Cons length_Cons)
qed

lemma utf8_roundtrip_from:
  "utf8_encode_from i s = Inr bs \<Longrightarrow> utf8_decode_from j bs = Inr s"
proof (induction s arbitrary: i j bs)
  case Nil
  then show ?case by simp
next
  case (Cons c s)
  then obtain bs' where sc: "is_scalar c" and r: "utf8_encode_from (Suc i) s = Inr bs'"
    and bs: "bs = map of_nat (enc_cp c) @ bs'"
    by (auto split: if_splits sum.splits)
  from Cons.IH [OF r] show ?case
    by (simp add: bs utf8_decode_from_enc_cp [OF sc])
qed

lemma seq_val_enc_cp:
  assumes "seq_len b \<noteq> 0" "seq_ok b cs"
  shows "enc_cp (seq_val b cs) = b # cs \<and> is_scalar (seq_val b cs)"
proof -
  consider (one) "seq_len b = 1" | (two) "seq_len b = 2" | (three) "seq_len b = 3" | (four) "seq_len b = 4"
    using assms(1) by (auto simp: seq_len_def split: if_splits)
  then show ?thesis
  proof cases
    case one
    with assms show ?thesis
      by (auto simp: seq_defs enc_cp_def is_scalar_def split: if_splits)
  next
    case two
    from assms two have "length cs = 1" by (simp add: seq_ok_def)
    then obtain x where cs: "cs = [x]" by (auto simp: length_Suc_conv)
    from two have b: "0xC2 \<le> b" "b \<le> 0xDF" by (auto simp: seq_len_def split: if_splits)
    from assms(2) cs two have x: "0x80 \<le> x" "x \<le> 0xBF"
      by (simp_all add: seq_ok_def second_lo_def second_hi_def split: if_splits)
    have "seq_val b cs = (b - 0xC0) * 64 + (x - 0x80)"
      using cs b by (simp add: seq_defs)
    moreover have "enc_cp ((b - 0xC0) * 64 + (x - 0x80)) = [0xC0 + (b - 0xC0), 0x80 + (x - 0x80)]"
      using b x by (intro enc_cp_2) auto
    ultimately show ?thesis
      using cs b x by (auto simp: is_scalar_def)
  next
    case three
    from assms three have "length cs = 2" by (simp add: seq_ok_def)
    then obtain x y where cs: "cs = [x, y]" by (auto simp: length_Suc_conv numeral_2_eq_2)
    from three have b: "0xE0 \<le> b" "b \<le> 0xEF" by (auto simp: seq_len_def split: if_splits)
    from assms(2) cs have x: "second_lo b \<le> x" "x \<le> second_hi b" and y: "0x80 \<le> y" "y \<le> 0xBF"
      by (simp_all add: seq_ok_def is_cont_def)
    have x0: "0x80 \<le> x" using x b by (auto simp: second_lo_def split: if_splits)
    obtain q2 r2 r where d: "b = 0xE0 + q2" "x = 0x80 + r2" "y = 0x80 + r"
      using b(1) x0 y(1) by (metis le_Suc_ex)
    have q: "q2 < 16" "r2 < 64" "r < 64" "q2 = 0 \<longrightarrow> 32 \<le> r2" "q2 = 13 \<longrightarrow> r2 < 32"
      using b(2) x(2) y(2) x(1) unfolding d second_lo_def second_hi_def by (simp_all split: if_splits)
    have v: "seq_val b cs = (q2 * 64 + r2) * 64 + r" using q(1)
      by (simp add: cs d seq_defs)
    have e: "enc_cp ((q2 * 64 + r2) * 64 + r) = [b, x, y]"
      unfolding d using q by (intro enc_cp_3) auto
    have "q2 \<le> 12 \<or> q2 = 13 \<or> 14 \<le> q2" by linarith
    then have "is_scalar ((q2 * 64 + r2) * 64 + r)"
      using q by (auto simp: is_scalar_def)
    with v e cs show ?thesis by simp
  next
    case four
    from assms four have "length cs = 3" by (simp add: seq_ok_def)
    then obtain x y z where cs: "cs = [x, y, z]" by (auto simp: length_Suc_conv numeral_3_eq_3)
    from four have b: "0xF0 \<le> b" "b \<le> 0xF4" by (auto simp: seq_len_def split: if_splits)
    from assms(2) cs have x: "second_lo b \<le> x" "x \<le> second_hi b" and y: "0x80 \<le> y" "y \<le> 0xBF"
      and z: "0x80 \<le> z" "z \<le> 0xBF"
      by (simp_all add: seq_ok_def is_cont_def)
    have x0: "0x80 \<le> x" using x b by (auto simp: second_lo_def split: if_splits)
    obtain q3 r3 r2 r where d: "b = 0xF0 + q3" "x = 0x80 + r3" "y = 0x80 + r2" "z = 0x80 + r"
      using b(1) x0 y(1) z(1) by (metis le_Suc_ex)
    have q: "q3 \<le> 4" "r3 < 64" "r2 < 64" "r < 64" "q3 = 0 \<longrightarrow> 16 \<le> r3" "q3 = 4 \<longrightarrow> r3 < 16"
      using b(2) x(2) y(2) z(2) x(1) unfolding d second_lo_def second_hi_def by (simp_all split: if_splits)
    have v: "seq_val b cs = ((q3 * 64 + r3) * 64 + r2) * 64 + r" using q(1)
      by (simp add: cs d seq_defs)
    have e: "enc_cp (((q3 * 64 + r3) * 64 + r2) * 64 + r) = [b, x, y, z]"
      unfolding d using q by (intro enc_cp_4) auto
    have "q3 \<le> 3 \<or> q3 = 4" using q by linarith
    then have "is_scalar (((q3 * 64 + r3) * 64 + r2) * 64 + r)"
      using q by (auto simp: is_scalar_def)
    with v e cs show ?thesis by simp
  qed
qed

lemma map_of_nat_unat_bytes: "map (of_nat \<circ> unat) bs = (bs :: byte list)"
  by (induction bs) simp_all

lemma utf8_canonical_from:
  "utf8_decode_from i bs = Inr s \<Longrightarrow> utf8_encode_from j s = Inr bs"
proof (induction i bs arbitrary: j s rule: utf8_decode_from.induct)
  case (1 i)
  then show ?case by simp
next
  case (2 i b bs)
  let ?n = "seq_len (unat b)"
  let ?cs = "map unat (take (?n - 1) bs)"
  from "2.prems" obtain s' where ok: "?n \<noteq> 0" "seq_ok (unat b) ?cs"
    and r: "utf8_decode_from (i + ?n) (drop (?n - 1) bs) = Inr s'"
    and s: "s = seq_val (unat b) ?cs # s'"
    by (auto simp: Let_def split: if_splits sum.splits)
  have enc: "utf8_encode_from (Suc j) s' = Inr (drop (?n - 1) bs)"
    using "2.IH" [OF refl refl _ r] ok by simp
  from seq_val_enc_cp [OF ok] have e: "enc_cp (seq_val (unat b) ?cs) = unat b # ?cs"
    and sc: "is_scalar (seq_val (unat b) ?cs)" by auto
  have "map of_nat (unat b # ?cs) @ drop (?n - 1) bs = b # bs"
    by (simp add: map_of_nat_unat_bytes)
  with e sc enc s show ?case by simp
qed

lemma utf8_decode_from_truncated:
  assumes "is_scalar c" "0 < k" "k < length (enc_cp c)"
  shows "utf8_decode_from i (take k (map of_nat (enc_cp c))) = Inl i"
proof -
  obtain b cs where e: "enc_cp c = b # cs" and l: "seq_len b = Suc (length cs)"
    and ok: "seq_ok b cs"
    using enc_cp_seq [OF assms(1)] by blast
  from ok l have bytes: "b < 256"
    using seq_ok_bytes by auto
  have u: "unat (of_nat b :: byte) = b"
    using bytes by (simp add: unat_of_nat_byte)
  obtain k' where k: "k = Suc k'" using assms(2) by (cases k) auto
  from assms(3) e k have "k' < length cs" by simp
  then have "\<not> seq_ok b (map unat (take (seq_len b - 1) (take k' (map of_nat cs :: byte list))))"
    using l by (simp add: seq_ok_def)
  then show ?thesis
    using e k l by (simp add: u Let_def)
qed

subsection \<open>Whole strings\<close>

lemma utf8_encode_from_Inl:
  "utf8_encode_from i s = Inl j \<longleftrightarrow>
     i \<le> j \<and> j - i < length s \<and> \<not> is_scalar (s ! (j - i)) \<and> (\<forall>k < j - i. is_scalar (s ! k))"
proof (induction s arbitrary: i)
  case Nil
  then show ?case by simp
next
  case (Cons c s)
  show ?case
  proof (cases "is_scalar c")
    case False
    then show ?thesis
      by auto (metis nth_Cons_0 zero_less_diff le_neq_implies_less)
  next
    case True
    have "utf8_encode_from i (c # s) = Inl j \<longleftrightarrow> utf8_encode_from (Suc i) s = Inl j"
      using True by (simp split: sum.splits)
    also have "\<dots> \<longleftrightarrow> Suc i \<le> j \<and> j - Suc i < length s \<and> \<not> is_scalar (s ! (j - Suc i)) \<and>
                        (\<forall>k < j - Suc i. is_scalar (s ! k))"
      by (rule Cons.IH)
    also have "\<dots> \<longleftrightarrow> i \<le> j \<and> j - i < length (c # s) \<and> \<not> is_scalar ((c # s) ! (j - i)) \<and>
                        (\<forall>k < j - i. is_scalar ((c # s) ! k))"
    proof
      assume a: "Suc i \<le> j \<and> j - Suc i < length s \<and> \<not> is_scalar (s ! (j - Suc i)) \<and>
                 (\<forall>k < j - Suc i. is_scalar (s ! k))"
      then have "j - i = Suc (j - Suc i)" by arith
      with a True show "i \<le> j \<and> j - i < length (c # s) \<and> \<not> is_scalar ((c # s) ! (j - i)) \<and>
                        (\<forall>k < j - i. is_scalar ((c # s) ! k))"
        by (auto simp: less_Suc_eq_0_disj)
    next
      assume a: "i \<le> j \<and> j - i < length (c # s) \<and> \<not> is_scalar ((c # s) ! (j - i)) \<and>
                 (\<forall>k < j - i. is_scalar ((c # s) ! k))"
      with True have "j \<noteq> i" by auto
      with a have j: "j - i = Suc (j - Suc i)" "Suc i \<le> j" by auto
      show "Suc i \<le> j \<and> j - Suc i < length s \<and> \<not> is_scalar (s ! (j - Suc i)) \<and>
            (\<forall>k < j - Suc i. is_scalar (s ! k))"
      proof (intro conjI allI impI)
        show "Suc i \<le> j" by (fact j(2))
        show "j - Suc i < length s" using a j by simp
        show "\<not> is_scalar (s ! (j - Suc i))" using a j by simp
        fix k assume "k < j - Suc i"
        then show "is_scalar (s ! k)" using a j by (metis Suc_less_eq nth_Cons_Suc)
      qed
    qed
    finally show ?thesis .
  qed
qed

text \<open>
  Round trip: whatever \<open>str.encode('utf-8')\<close> produces, \<open>bytes.decode('utf-8')\<close>
  turns back into the same string.
\<close>

lemma utf8_decode_encode: "utf8_encode s = Inr bs \<Longrightarrow> utf8_decode bs = Inr s"
  unfolding utf8_encode_def utf8_decode_def by (rule utf8_roundtrip_from)

text \<open>
  The decoder accepts only canonical input: a byte string it decodes is exactly the
  encoding of the result (no overlong forms, no surrogates, nothing past U+10FFFF).
\<close>

lemma utf8_encode_decode: "utf8_decode bs = Inr s \<Longrightarrow> utf8_encode s = Inr bs"
  unfolding utf8_encode_def utf8_decode_def by (rule utf8_canonical_from)

text \<open>
  The encoder fails exactly when the string holds a code point that is not a Unicode
  scalar value (a lone surrogate), and it reports the index of the first such one.
\<close>

lemma utf8_encode_error_index:
  "utf8_encode s = Inl j \<longleftrightarrow> j < length s \<and> \<not> is_scalar (s ! j) \<and> (\<forall>k < j. is_scalar (s ! k))"
  by (simp add: utf8_encode_def utf8_encode_from_Inl)

end
