(* ===== verification/Dongle.thy ===== *)
theory Dongle
  imports Check_Exception JLink_API Utf8 "HOL-Library.Sublist"
begin

text \<open>
  The class \<open>JLinkDongle\<close> of \<open>src/rtt_console/jlink_dongle.py\<close>. Its fields are a
  record; the program state \<open>pstate\<close> extends it with the world the pylink methods act
  on and the lines printed to stdout. The slot \<open>jlink\<close> is declared with
  \<open>field(init=False)\<close> and no default in a \<open>slots=True\<close> dataclass, so it is
  unassigned (\<open>None\<close> here) until \<open>connect\<close> assigns it, and reading it before
  raises \<open>AttributeError\<close>. Every operation is defined over an arbitrary library
  \<open>api\<close> (theory \<open>JLink_API\<close>).
\<close>

record 'h jlink_dongle =
  interface :: jlink_interface
  speed :: speed
  chip_name :: string
  jlink :: "'h option"

record ('h, 'w) pstate = "'h jlink_dongle" +
  world :: 'w
  stdout :: "string list"

type_synonym ('h, 'w, 'a) prog = "(('h, 'w) pstate, pyexc, 'a) exn_st"

definition CHIP_NAME_DEFAULT :: string where
  "CHIP_NAME_DEFAULT = ''STM32F407VE''"

text \<open>The generated \<open>__init__\<close>: the three init fields, \<open>jlink\<close> left unassigned.\<close>

definition JLinkDongle_init :: "jlink_interface \<Rightarrow> speed \<Rightarrow> string \<Rightarrow> 'w \<Rightarrow> ('h, 'w) pstate" where
  "JLinkDongle_init i sp chip w =
     \<lparr>interface = i, speed = sp, chip_name = chip, jlink = None, world = w, stdout = []\<rparr>"

definition jlink_unset :: pyexc where
  "jlink_unset = AttributeError ''JLinkDongle object has no attribute jlink''"

text \<open>\<open>self.jlink.m(...)\<close>: read the slot, then run the method on the object it holds.\<close>

definition jcall :: "('h, 'w, 'a) meth \<Rightarrow> ('h, 'w, 'a) prog" where
  "jcall m s =
     (case jlink s of
        None \<Rightarrow> (Inl jlink_unset, s)
      | Some h \<Rightarrow> (case m h (world s) of (r, h', w') \<Rightarrow> (r, s\<lparr>jlink := Some h', world := w'\<rparr>)))"

definition print_line :: "string \<Rightarrow> ('h, 'w, unit) prog" where
  "print_line line = modifyE (\<lambda>s. s\<lparr>stdout := stdout s @ [line]\<rparr>)"

text \<open>
  \<open>self.jlink = JLink()\<close>: the constructor runs first; if it raises, the slot keeps
  its old value. Otherwise the slot is rebound and the instance it held, now
  unreferenced, is finalized by CPython.
\<close>

definition new_jlink :: "('h, 'w) jlink_api \<Rightarrow> ('h, 'w, unit) prog" where
  "new_jlink api s =
     (case jl_new api (world s) of
        (Inl e, w) \<Rightarrow> (Inl e, s\<lparr>world := w\<rparr>)
      | (Inr h, w) \<Rightarrow>
          (Inr (), s\<lparr>jlink := Some h,
                     world := (case jlink s of None \<Rightarrow> w | Some old \<Rightarrow> jl_finalize api old w)\<rparr>))"

definition endian_name :: "nat \<Rightarrow> string" where
  "endian_name e = (if e = 0 then ''Little'' else if e = 1 then ''Big'' else ''Unknown ('' @ show_nat e @ '')'')"

subsection \<open>\<open>connect\<close> (lines 35--50)\<close>

text \<open>Lines 37--41: a fresh probe handle, opened, RTT stopped, target interface SWD.\<close>

definition connect_open :: "('h, 'w) jlink_api \<Rightarrow> ('h, 'w, unit) prog" where
  "connect_open api =
     thenE (new_jlink api)
    (thenE (jcall (jl_disable_dialog_boxes api))
    (thenE (jcall (jl_open api))
    (thenE (jcall (jl_rtt_stop api))
           (jcall (jl_set_tif api SWD)))))"

text \<open>Lines 42--43: connect to the chip with the configured name and speed, start RTT.\<close>

definition connect_target :: "('h, 'w) jlink_api \<Rightarrow> ('h, 'w, unit) prog" where
  "connect_target api =
     bindE (getsE chip_name) (\<lambda>chip.
     bindE (getsE speed) (\<lambda>sp.
     thenE (jcall (jl_connect api chip sp True))
           (jcall (jl_rtt_start api))))"

text \<open>Lines 44--50: read the endianness and report the connection on stdout.\<close>

definition connect_report :: "('h, 'w) jlink_api \<Rightarrow> ('h, 'w, unit) prog" where
  "connect_report api =
     bindE (jcall (jl_endian_mode api)) (\<lambda>em.
     let endian = endian_name (int_from_bytes_big em) in
     thenE (print_line '''')
    (bindE (getsE chip_name) (\<lambda>chip.
     thenE (print_line (''Connected to: '' @ chip))
    (bindE (jcall (jl_speed api)) (\<lambda>khz.
     thenE (print_line (''RTT RX buffers at '' @ show_nat khz @ '' kHz''))
    (bindE (jcall (jl_core_name api)) (\<lambda>core.
     thenE (print_line (''connected to '' @ endian @ ''-Endian '' @ core))
    (bindE (jcall (jl_cpu_speed api)) (\<lambda>hz.
     print_line (''running at '' @ fmt_mhz hz @ '' MHz''))))))))))"

definition connect :: "('h, 'w) jlink_api \<Rightarrow> ('h, 'w, unit) prog" where
  "connect api =
     check_exception ''connect''
       (thenE (connect_open api) (thenE (connect_target api) (connect_report api)))"

subsection \<open>RTT input and output (lines 52--67)\<close>

definition read_rtt :: "('h, 'w) jlink_api \<Rightarrow> nat \<Rightarrow> ('h, 'w, byte list) prog" where
  "read_rtt api terminal_number =
     check_exception ''read_rtt'' (jcall (jl_rtt_read api terminal_number (jl_MAX_BUF_SIZE api)))"

definition write_rtt :: "('h, 'w) jlink_api \<Rightarrow> byte list \<Rightarrow> nat \<Rightarrow> ('h, 'w, unit) prog" where
  "write_rtt api data terminal_number =
     check_exception ''write_rtt'' (thenE (jcall (jl_rtt_write api terminal_number data)) (ret ()))"

definition read_rtt_string :: "('h, 'w) jlink_api \<Rightarrow> nat \<Rightarrow> ('h, 'w, pystr) prog" where
  "read_rtt_string api terminal_number =
     bindE (read_rtt api terminal_number) (\<lambda>data.
       if data \<noteq> [] then
         (case utf8_decode data of Inl i \<Rightarrow> throw (UnicodeDecodeError i) | Inr s \<Rightarrow> ret s)
       else ret [])"

definition write_rtt_sring :: "('h, 'w) jlink_api \<Rightarrow> pystr \<Rightarrow> nat \<Rightarrow> ('h, 'w, unit) prog" where
  "write_rtt_sring api data terminal_number =
     (case utf8_encode data of
        Inl i \<Rightarrow> throw (UnicodeEncodeError i)
      | Inr bs \<Rightarrow> write_rtt api bs terminal_number)"

subsection \<open>\<open>reconnect\<close> (lines 69--73)\<close>

definition reconnect :: "('h, 'w) jlink_api \<Rightarrow> ('h, 'w, unit) prog" where
  "reconnect api = check_exception ''reconnect'' (thenE (jcall (jl_close api)) (connect api))"

subsection \<open>Verification vocabulary\<close>

text \<open>
  \<open>connect_calls\<close> is the sequence of pylink calls \<open>connect\<close> is meant to make,
  \<open>call_log\<close> reads the log of the instrumented library, \<open>cfg\<close> the three init
  fields, and \<open>iface_blind m\<close> says that \<open>m\<close> neither reads nor writes the field
  \<open>interface\<close>.
\<close>

definition connect_calls :: "bool \<Rightarrow> string \<Rightarrow> speed \<Rightarrow> call list" where
  "connect_calls had_handle chip sp =
     (CNew # (if had_handle then [CFinalize] else [])) @
     [CDisableDialogs, COpen, CRttStop, CSetTif SWD, CConnect chip sp True, CRttStart,
      CEndian, CSpeed, CCoreName, CCpuSpeed]"

abbreviation call_log :: "('h, 'w \<times> call list) pstate \<Rightarrow> call list" where
  "call_log s \<equiv> snd (world s)"

definition cfg :: "('h, 'w, 'x) pstate_scheme \<Rightarrow> jlink_interface \<times> speed \<times> string" where
  "cfg s = (interface s, speed s, chip_name s)"

definition iface_blind :: "('h, 'w, 'a) prog \<Rightarrow> bool" where
  "iface_blind m \<longleftrightarrow> (\<forall>s i. m (s\<lparr>interface := i\<rparr>) = (fst (m s), (snd (m s))\<lparr>interface := i\<rparr>))"

subsection \<open>Frame and call-log lemmas\<close>

lemma jcall_cfg [simp]: "cfg (snd (jcall m s)) = cfg s"
  by (simp add: jcall_def cfg_def split: option.splits prod.splits)

lemma new_jlink_cfg [simp]: "cfg (snd (new_jlink api s)) = cfg s"
  by (simp add: new_jlink_def cfg_def split: option.splits prod.splits sum.splits)

lemma print_line_cfg [simp]: "cfg (snd (print_line l s)) = cfg s"
  by (simp add: print_line_def modifyE_def cfg_def)

lemma preserves_cfg_jcall [intro]: "preserves (\<lambda>s. cfg s = c) (jcall m)"
  and preserves_cfg_new_jlink [intro]: "preserves (\<lambda>s. cfg s = c) (new_jlink api)"
  and preserves_cfg_print_line [intro]: "preserves (\<lambda>s. cfg s = c) (print_line l)"
  by (simp_all add: preserves_def)

lemma connect_open_cfg: "preserves (\<lambda>s. cfg s = c) (connect_open api)"
  unfolding connect_open_def by blast

lemma preserves_run: "preserves P m \<Longrightarrow> P s \<Longrightarrow> m s = (r, s') \<Longrightarrow> P s'"
  by (metis preserves_def snd_conv)

lemma jcall_unset: "jlink s = None \<Longrightarrow> jcall m s = (Inl jlink_unset, s)"
  by (simp add: jcall_def)

lemma jcall_set:
  "jlink s = Some h \<Longrightarrow> m h (world s) = (r, h', w') \<Longrightarrow> jcall m s = (r, s\<lparr>jlink := Some h', world := w'\<rparr>)"
  by (simp add: jcall_def)

lemma jlink_unset_not_jlink [simp]: "\<not> is_jlink_exception jlink_unset"
  by (simp add: jlink_unset_def)

lemma preserves_jlink_assigned [intro]:
  "preserves (\<lambda>s. jlink s \<noteq> None) (jcall m)"
  "preserves (\<lambda>s. jlink s \<noteq> None) (print_line l)"
  "preserves (\<lambda>s. jlink s \<noteq> None) (new_jlink api)"
  by (auto simp: preserves_def jcall_def print_line_def modifyE_def new_jlink_def split: option.splits prod.splits sum.splits)

lemma connect_no_jlink_exception: "fst (connect api s) \<noteq> Inl (JLinkException e)"
  unfolding connect_def by (rule check_exception_no_jlink)

lemma jcall_logged_emits: "emits call_log [c] (jcall (logged c m)) s"
  by (auto simp: emits_def jcall_def logged_def split: option.splits prod.splits)

lemma new_jlink_traced_emits:
  "emits call_log (CNew # (if jlink s \<noteq> None then [CFinalize] else [])) (new_jlink (traced api)) s"
  by (auto simp: emits_def new_jlink_def split: option.splits prod.splits sum.splits)

lemma print_line_emits: "emits call_log [] (print_line l) s"
  and getsE_emits: "emits call_log [] (getsE f) s"
  by (simp_all add: emits_def print_line_def modifyE_def getsE_def)

lemma emits_check_exception: "emits log cs (check_exception n m) s = emits log cs m s"
  by (simp add: emits_def check_exception_state check_exception_run split: prod.splits sum.splits pyexc.splits)

lemma emits_jcall_thenE:
  "(\<And>a s'. jcall (logged c m) s = (Inr a, s') \<Longrightarrow> emits call_log cs n s') \<Longrightarrow>
   emits call_log (c # cs) (thenE (jcall (logged c m)) n) s"
  using emits_thenE [OF jcall_logged_emits, of c m s cs n] by simp

lemma emits_jcall_bindE:
  "(\<And>a s'. jcall (logged c m) s = (Inr a, s') \<Longrightarrow> emits call_log cs (f a) s') \<Longrightarrow>
   emits call_log (c # cs) (bindE (jcall (logged c m)) f) s"
  using emits_bindE [OF jcall_logged_emits, of c m s cs f] by simp

lemma emits_print_thenE:
  "emits call_log cs n (snd (print_line l s)) \<Longrightarrow> emits call_log cs (thenE (print_line l) n) s"
  by (rule emits_Nil_thenE [OF print_line_emits]) (simp add: print_line_def modifyE_def)

lemma emits_getsE_bindE:
  "emits call_log cs (f (g s)) s \<Longrightarrow> emits call_log cs (bindE (getsE g) f) s"
  by (rule emits_Nil_bindE [OF getsE_emits]) (simp add: getsE_def)

lemmas emits_rules = emits_jcall_thenE emits_jcall_bindE emits_print_thenE emits_getsE_bindE
  jcall_logged_emits print_line_emits

lemma connect_open_emits:
  "emits call_log ((CNew # (if jlink s \<noteq> None then [CFinalize] else [])) @
                   [CDisableDialogs, COpen, CRttStop, CSetTif SWD])
     (connect_open (traced api)) s"
  unfolding connect_open_def traced_fields
  by (rule emits_thenE [OF new_jlink_traced_emits]) (intro emits_rules)

lemma connect_target_emits:
  "emits call_log [CConnect (chip_name s) (speed s) True, CRttStart] (connect_target (traced api)) s"
  unfolding connect_target_def traced_fields
  by (intro emits_rules)

lemma connect_report_emits:
  "emits call_log [CEndian, CSpeed, CCoreName, CCpuSpeed] (connect_report (traced api)) s"
  unfolding connect_report_def Let_def traced_fields
  by (intro emits_rules)

lemma connect_emits:
  "emits call_log (connect_calls (jlink s \<noteq> None) (chip_name s) (speed s)) (connect (traced api)) s"
proof -
  have "emits call_log
          (((CNew # (if jlink s \<noteq> None then [CFinalize] else [])) @
            [CDisableDialogs, COpen, CRttStop, CSetTif SWD]) @
           [CConnect (chip_name s) (speed s) True, CRttStart] @ [CEndian, CSpeed, CCoreName, CCpuSpeed])
          (thenE (connect_open (traced api)) (thenE (connect_target (traced api)) (connect_report (traced api)))) s"
  proof (rule emits_thenE [OF connect_open_emits])
    fix a s'
    assume "connect_open (traced api) s = (Inr a, s')"
    then have "cfg s' = cfg s"
      using preserves_run [OF connect_open_cfg] by blast
    then show "emits call_log ([CConnect (chip_name s) (speed s) True, CRttStart] @ [CEndian, CSpeed, CCoreName, CCpuSpeed])
                 (thenE (connect_target (traced api)) (connect_report (traced api))) s'"
      using emits_thenE [OF connect_target_emits connect_report_emits, of s' api]
      by (simp add: cfg_def)
  qed
  then show ?thesis
    by (simp add: connect_def emits_check_exception connect_calls_def)
qed

lemma iface_blind_bindE [intro]:
  "iface_blind m \<Longrightarrow> (\<And>a. iface_blind (f a)) \<Longrightarrow> iface_blind (bindE m f)"
  by (simp add: iface_blind_def bindE_def split: prod.splits sum.splits)

lemma iface_blind_thenE [intro]:
  "iface_blind m \<Longrightarrow> iface_blind n \<Longrightarrow> iface_blind (thenE m n)"
  unfolding thenE_def by blast

lemma iface_blind_check_exception [intro]:
  "iface_blind m \<Longrightarrow> iface_blind (check_exception n m)"
  by (simp add: iface_blind_def check_exception_run split: prod.splits sum.splits pyexc.splits)

lemma iface_blind_steps [intro]:
  "iface_blind (jcall m)" "iface_blind (new_jlink api)" "iface_blind (print_line l)"
  "iface_blind (getsE chip_name)" "iface_blind (getsE speed)" "iface_blind (ret x)"
  by (auto simp: iface_blind_def jcall_def new_jlink_def print_line_def modifyE_def getsE_def ret_def
           split: option.splits prod.splits sum.splits)

lemma connect_iface_blind: "iface_blind (connect api)"
  unfolding connect_def connect_open_def connect_target_def connect_report_def Let_def by blast

subsection \<open>Properties of the dongle\<close>

text \<open>
  C2. \<open>connect\<close> makes exactly these pylink calls, in this order: \<open>JLink()\<close>, the
  finalizer of the handle it replaces (if there was one), \<open>disable_dialog_boxes\<close>,
  \<open>open\<close>, \<open>rtt_stop\<close>, \<open>set_tif(SWD)\<close>, \<open>connect(chip_name, speed, verbose=True)\<close>,
  \<open>rtt_start\<close>, then the reads of the endianness, the speed, the core name and the CPU
  speed. When it raises, the calls made are a prefix of that sequence.
\<close>

theorem connect_call_sequence:
  "\<exists>calls. call_log (snd (connect (traced api) s)) = call_log s @ calls \<and>
     prefix calls (connect_calls (jlink s \<noteq> None) (chip_name s) (speed s)) \<and>
     (fst (connect (traced api) s) = Inr () \<longrightarrow> calls = connect_calls (jlink s \<noteq> None) (chip_name s) (speed s))"
  using connect_emits [of s api] by (simp add: emits_def)

text \<open>
  C3. \<open>connect\<close> never reads the \<open>interface\<close> field: changing it before the call
  changes nothing in the result or in the effect, beyond the field itself. Line 41
  passes the constant \<open>JLinkInterfaces.SWD\<close> to \<open>set_tif\<close>.
\<close>

theorem connect_ignores_interface:
  "connect api (s\<lparr>interface := i\<rparr>) = (fst (connect api s), (snd (connect api s))\<lparr>interface := i\<rparr>)"
  using connect_iface_blind [of api] unfolding iface_blind_def by blast

text \<open>
  C4. Before the first \<open>connect\<close> the slot \<open>jlink\<close> is unassigned: \<open>read_rtt\<close>,
  \<open>write_rtt\<close> and \<open>reconnect\<close> raise \<open>AttributeError\<close>, which the decorator does not
  translate, and they change nothing (no pylink call is made).
\<close>

theorem unassigned_raises_attribute_error:
  assumes "jlink s = None"
  shows "read_rtt api n s = (Inl jlink_unset, s) \<and> write_rtt api d n s = (Inl jlink_unset, s)
         \<and> reconnect api s = (Inl jlink_unset, s)"
  using assms
  by (simp add: read_rtt_def write_rtt_def reconnect_def jcall_unset thenE_Inl check_exception_other)

text \<open>
  C5. \<open>reconnect\<close> is \<open>close()\<close> followed by \<open>connect()\<close>: a pylink failure of
  \<open>close\<close> is reported under the name \<open>reconnect\<close>; otherwise the outcome is exactly
  that of \<open>connect\<close> from the state after \<open>close\<close>, whose own failures keep the name
  \<open>connect\<close> (the outer decorator does not wrap them again).
\<close>

theorem reconnect_close_then_connect:
  "(jcall (jl_close api) s = (Inl (JLinkException e), s') \<longrightarrow>
      reconnect api s = (Inl (JLinkDongleException (dongle_error_message ''reconnect'' e)), s')) \<and>
   (jcall (jl_close api) s = (Inr (), s') \<longrightarrow> reconnect api s = connect api s')"
proof (intro conjI impI)
  assume "jcall (jl_close api) s = (Inl (JLinkException e), s')"
  then show "reconnect api s = (Inl (JLinkDongleException (dongle_error_message ''reconnect'' e)), s')"
    by (simp add: reconnect_def thenE_Inl check_exception_JLink)
next
  assume c: "jcall (jl_close api) s = (Inr (), s')"
  show "reconnect api s = connect api s'"
  proof (cases "connect api s'")
    case (Pair r s'')
    with connect_no_jlink_exception [of api s'] show ?thesis
      by (cases r rule: sum.exhaust; cases "projl r")
         (auto simp: reconnect_def thenE_Inr [where m = "jcall (jl_close api)" and s = s, OF c] check_exception_run)
  qed
qed

text \<open>
  C7. A character whose UTF-8 encoding is split between two RTT reads is lost with an
  error: if \<open>rtt_read\<close> returns a proper, non-empty prefix of the encoding of a single
  code point, \<open>read_rtt_string\<close> raises \<open>UnicodeDecodeError\<close>, although the bytes of
  the stream decode correctly as a whole.
\<close>

theorem read_rtt_string_split_char:
  assumes "utf8_encode [c] = Inr bs" "0 < k" "k < length bs"
    and "read_rtt api n s = (Inr (take k bs), s')"
  shows "utf8_decode bs = Inr [c] \<and> read_rtt_string api n s = (Inl (UnicodeDecodeError 0), s')"
proof -
  from assms(1) have sc: "is_scalar c" and bs: "bs = map of_nat (enc_cp c)"
    by (auto simp: utf8_encode_def split: if_splits)
  have "utf8_decode bs = Inr [c]"
    using utf8_roundtrip_from [of 0 "[c]" bs 0] assms(1) by (simp add: utf8_encode_def utf8_decode_def)
  moreover have "utf8_decode (take k bs) = Inl 0"
    using utf8_decode_from_truncated [OF sc assms(2)] assms(3) bs by (simp add: utf8_decode_def)
  moreover have "take k bs \<noteq> []"
    using assms(2,3) by (cases bs) simp_all
  ultimately show ?thesis
    using assms(4) by (simp add: read_rtt_string_def bindE_Inr throw_def)
qed

text \<open>
  C8. A failed \<open>connect\<close> does not roll back: once \<open>JLink()\<close> has succeeded, the slot
  holds the new handle whatever later step raises (open, connect, RTT start, ...).
\<close>

theorem connect_failure_keeps_new_handle:
  assumes "jl_new api (world s) = (Inr h, w)"
  shows "jlink (snd (connect api s)) \<noteq> None"
proof -
  have n: "new_jlink api s = (Inr (), snd (new_jlink api s))" and a: "jlink (snd (new_jlink api s)) \<noteq> None"
    using assms by (simp_all add: new_jlink_def)
  have "preserves (\<lambda>s. jlink s \<noteq> None)
          (thenE (jcall (jl_disable_dialog_boxes api)) (thenE (jcall (jl_open api))
          (thenE (jcall (jl_rtt_stop api)) (thenE (jcall (jl_set_tif api SWD))
          (thenE (connect_target api) (connect_report api))))))" (is "preserves _ ?X")
    unfolding connect_target_def connect_report_def Let_def
    by (intro preserves_thenE preserves_bindE preserves_getsE preserves_jlink_assigned)
  moreover have "thenE (connect_open api) (thenE (connect_target api) (connect_report api)) s =
                 ?X (snd (new_jlink api s))"
    unfolding connect_open_def thenE_assoc by (rule thenE_Inr [where m = "new_jlink api" and s = s, OF n])
  ultimately show ?thesis
    using a by (simp add: connect_def check_exception_state preserves_def)
qed

text \<open>
  C9. A pylink failure of \<open>rtt_read\<close> is reported with the fixed message ``Do not
  read/write from RTT Terminal'': the cause \<open>str(e)\<close> is discarded.
\<close>

theorem read_rtt_error_drops_cause:
  assumes "jlink s = Some h"
    and "jl_rtt_read api n (jl_MAX_BUF_SIZE api) h (world s) = (Inl (JLinkException e), h', w')"
  shows "read_rtt api n s =
           (Inl (JLinkDongleException ''Do not read/write from RTT Terminal''), s\<lparr>jlink := Some h', world := w'\<rparr>)"
  using assms
  by (simp add: read_rtt_def jcall_set check_exception_JLink dongle_error_message_def rtt_names_def)

text \<open>
  C10. \<open>write_rtt\<close> discards the count returned by pylink's \<open>rtt_write\<close>: a short
  write (fewer bytes accepted than given) returns normally, indistinguishable from a
  complete one.
\<close>

theorem write_rtt_ignores_count:
  assumes "jlink s = Some h" "jl_rtt_write api n d h (world s) = (Inr k, h', w')"
  shows "write_rtt api d n s = (Inr (), s\<lparr>jlink := Some h', world := w'\<rparr>)"
  using assms by (simp add: write_rtt_def jcall_set thenE_Inr check_exception_Inr ret_def)

text \<open>
  C11. \<open>write_rtt_sring\<close> encodes before it touches the probe: a string holding a lone
  surrogate raises \<open>UnicodeEncodeError\<close> at its index and changes nothing.
\<close>

theorem write_rtt_sring_encode_error:
  "utf8_encode str = Inl i \<Longrightarrow> write_rtt_sring api str n s = (Inl (UnicodeEncodeError i), s)"
  by (simp add: write_rtt_sring_def throw_def)

end
