(* ===== verification/Mock_JLink.thy ===== *)
theory Mock_JLink
  imports Dongle
begin

text \<open>
  A concrete pylink double, used to run the dongle's operations on concrete inputs. The
  handle counts the calls made on it; the world is trivial. \<open>fail_open\<close> makes
  \<open>open()\<close> raise, \<open>fail_rtt\<close> makes \<open>rtt_read\<close> and \<open>rtt_write\<close> raise,
  \<open>rx\<close> is what \<open>rtt_read\<close> returns (cut to the requested size) and \<open>cap\<close> is how
  many bytes \<open>rtt_write\<close> accepts. \<open>MAX_BUF_SIZE\<close> is pylink's value, 336.
\<close>

definition mock_ok :: "'a \<Rightarrow> (nat, 'w, 'a) meth" where
  "mock_ok v h w = (Inr v, Suc h, w)"

definition mock_fail :: "string \<Rightarrow> (nat, 'w, 'a) meth" where
  "mock_fail msg h w = (Inl (JLinkException msg), Suc h, w)"

definition mock_api :: "bool \<Rightarrow> bool \<Rightarrow> byte list \<Rightarrow> nat \<Rightarrow> (nat, 'w) jlink_api" where
  "mock_api fail_open fail_rtt rx cap =
     \<lparr>jl_new = (\<lambda>w. (Inr 0, w)),
      jl_finalize = (\<lambda>h w. w),
      jl_disable_dialog_boxes = mock_ok (),
      jl_open = (if fail_open then mock_fail ''Could not open J-Link.'' else mock_ok ()),
      jl_rtt_stop = mock_ok (),
      jl_set_tif = (\<lambda>i. mock_ok ()),
      jl_connect = (\<lambda>c sp v. mock_ok ()),
      jl_rtt_start = mock_ok (),
      jl_endian_mode = mock_ok [0],
      jl_speed = mock_ok 4000,
      jl_core_name = mock_ok ''Cortex-M4'',
      jl_cpu_speed = mock_ok 168000000,
      jl_rtt_read = (\<lambda>n k. if fail_rtt then mock_fail ''RTT read failed'' else mock_ok (take k rx)),
      jl_rtt_write = (\<lambda>n d. if fail_rtt then mock_fail ''RTT write failed'' else mock_ok (min cap (length d))),
      jl_close = mock_ok (),
      jl_MAX_BUF_SIZE = 336\<rparr>"

definition mock_init :: "'w \<Rightarrow> (nat, 'w) pstate" where
  "mock_init w = JLinkDongle_init SWD Auto CHIP_NAME_DEFAULT w"

lemma mock_api_fields [simp]:
  "jl_new (mock_api fo fr rx cap) w = (Inr 0, w)"
  "jl_finalize (mock_api fo fr rx cap) h w = w"
  "jl_disable_dialog_boxes (mock_api fo fr rx cap) = mock_ok ()"
  "jl_open (mock_api fo fr rx cap) = (if fo then mock_fail ''Could not open J-Link.'' else mock_ok ())"
  "jl_rtt_stop (mock_api fo fr rx cap) = mock_ok ()"
  "jl_set_tif (mock_api fo fr rx cap) i = mock_ok ()"
  "jl_connect (mock_api fo fr rx cap) c sp v = mock_ok ()"
  "jl_rtt_start (mock_api fo fr rx cap) = mock_ok ()"
  "jl_endian_mode (mock_api fo fr rx cap) = mock_ok [0]"
  "jl_speed (mock_api fo fr rx cap) = mock_ok 4000"
  "jl_core_name (mock_api fo fr rx cap) = mock_ok ''Cortex-M4''"
  "jl_cpu_speed (mock_api fo fr rx cap) = mock_ok 168000000"
  "jl_rtt_read (mock_api fo fr rx cap) n k =
     (if fr then mock_fail ''RTT read failed'' else mock_ok (take k rx))"
  "jl_rtt_write (mock_api fo fr rx cap) n d =
     (if fr then mock_fail ''RTT write failed'' else mock_ok (min cap (length d)))"
  "jl_close (mock_api fo fr rx cap) = mock_ok ()"
  "jl_MAX_BUF_SIZE (mock_api fo fr rx cap) = 336"
  by (simp_all add: mock_api_def)

lemmas mock_run = mock_ok_def mock_fail_def mock_init_def JLinkDongle_init_def jcall_def new_jlink_def
  print_line_def modifyE_def getsE_def ret_def throw_def

end
