(* ===== verification/World_Invariant.thy ===== *)
theory World_Invariant
  imports Dongle
begin

text \<open>
  The interface contract between the dongle and a pylink implementation for
  invariants of the world: \<open>api_keeps Q api\<close> says that every pylink method the
  module calls keeps \<open>Q\<close> of the world (the probe and target). Under it every method
  of \<open>JLinkDongle\<close> keeps \<open>Q\<close>, whatever it returns or raises. The simulated probe of
  \<open>JLink_Sim\<close> discharges the contract for the RTT buffer invariant.
\<close>

definition meth_keeps :: "('w \<Rightarrow> bool) \<Rightarrow> ('h, 'w, 'a) meth \<Rightarrow> bool" where
  "meth_keeps Q m \<longleftrightarrow> (\<forall>h w. Q w \<longrightarrow> Q (snd (snd (m h w))))"

definition api_keeps :: "('w \<Rightarrow> bool) \<Rightarrow> ('h, 'w) jlink_api \<Rightarrow> bool" where
  "api_keeps Q api \<longleftrightarrow>
     (\<forall>w. Q w \<longrightarrow> Q (snd (jl_new api w))) \<and> (\<forall>h w. Q w \<longrightarrow> Q (jl_finalize api h w)) \<and>
     meth_keeps Q (jl_disable_dialog_boxes api) \<and> meth_keeps Q (jl_open api) \<and>
     meth_keeps Q (jl_rtt_stop api) \<and> (\<forall>i. meth_keeps Q (jl_set_tif api i)) \<and>
     (\<forall>c sp v. meth_keeps Q (jl_connect api c sp v)) \<and> meth_keeps Q (jl_rtt_start api) \<and>
     meth_keeps Q (jl_endian_mode api) \<and> meth_keeps Q (jl_speed api) \<and>
     meth_keeps Q (jl_core_name api) \<and> meth_keeps Q (jl_cpu_speed api) \<and>
     (\<forall>n k. meth_keeps Q (jl_rtt_read api n k)) \<and> (\<forall>n d. meth_keeps Q (jl_rtt_write api n d)) \<and>
     meth_keeps Q (jl_close api)"

subsection \<open>Every dongle method keeps an invariant the library keeps\<close>

lemma preserves_world_jcall [intro]:
  "meth_keeps Q m \<Longrightarrow> preserves (\<lambda>s. Q (world s)) (jcall m)"
  by (simp add: preserves_def meth_keeps_def jcall_def case_prod_unfold split: option.splits)

lemma preserves_world_print_line [intro]: "preserves (\<lambda>s. Q (world s)) (print_line l)"
  by (simp add: preserves_def print_line_def modifyE_def)

lemma preserves_world_new_jlink [intro]:
  "api_keeps Q api \<Longrightarrow> preserves (\<lambda>s. Q (world s)) (new_jlink api)"
  by (auto simp: preserves_def api_keeps_def new_jlink_def split: option.splits prod.splits sum.splits
           dest: spec [where x = "world _"])

lemma api_keeps_jcalls [intro]:
  assumes "api_keeps Q api"
  shows "preserves (\<lambda>s. Q (world s)) (jcall (jl_disable_dialog_boxes api))"
    "preserves (\<lambda>s. Q (world s)) (jcall (jl_open api))"
    "preserves (\<lambda>s. Q (world s)) (jcall (jl_rtt_stop api))"
    "preserves (\<lambda>s. Q (world s)) (jcall (jl_set_tif api i))"
    "preserves (\<lambda>s. Q (world s)) (jcall (jl_connect api c sp v))"
    "preserves (\<lambda>s. Q (world s)) (jcall (jl_rtt_start api))"
    "preserves (\<lambda>s. Q (world s)) (jcall (jl_endian_mode api))"
    "preserves (\<lambda>s. Q (world s)) (jcall (jl_speed api))"
    "preserves (\<lambda>s. Q (world s)) (jcall (jl_core_name api))"
    "preserves (\<lambda>s. Q (world s)) (jcall (jl_cpu_speed api))"
    "preserves (\<lambda>s. Q (world s)) (jcall (jl_rtt_read api n k))"
    "preserves (\<lambda>s. Q (world s)) (jcall (jl_rtt_write api n d))"
    "preserves (\<lambda>s. Q (world s)) (jcall (jl_close api))"
  using assms unfolding api_keeps_def by (simp_all add: preserves_world_jcall)

lemma connect_keeps:
  "api_keeps Q api \<Longrightarrow> preserves (\<lambda>s. Q (world s)) (connect api)"
  unfolding connect_def connect_open_def connect_target_def connect_report_def Let_def
  by (intro preserves_check_exception preserves_thenE preserves_bindE preserves_getsE
            preserves_world_print_line preserves_world_new_jlink api_keeps_jcalls)

lemma dongle_ops_keep:
  assumes "api_keeps Q api"
  shows "preserves (\<lambda>s. Q (world s)) (read_rtt api n)"
    "preserves (\<lambda>s. Q (world s)) (write_rtt api d n)"
    "preserves (\<lambda>s. Q (world s)) (reconnect api)"
    "preserves (\<lambda>s. Q (world s)) (read_rtt_string api n)"
    "preserves (\<lambda>s. Q (world s)) (write_rtt_sring api t n)"
proof -
  show r: "preserves (\<lambda>s. Q (world s)) (read_rtt api n)"
    unfolding read_rtt_def using assms by (intro preserves_check_exception api_keeps_jcalls)
  show w: "preserves (\<lambda>s. Q (world s)) (write_rtt api d n)" for d
    unfolding write_rtt_def using assms
    by (intro preserves_check_exception preserves_thenE preserves_ret api_keeps_jcalls)
  show "preserves (\<lambda>s. Q (world s)) (reconnect api)"
    unfolding reconnect_def using assms
    by (intro preserves_check_exception preserves_thenE connect_keeps api_keeps_jcalls)
  show "preserves (\<lambda>s. Q (world s)) (read_rtt_string api n)"
    unfolding read_rtt_string_def
    by (intro preserves_bindE r) (simp add: preserves_def ret_def throw_def split: sum.splits)
  show "preserves (\<lambda>s. Q (world s)) (write_rtt_sring api t n)"
    unfolding write_rtt_sring_def using w by (simp add: preserves_def throw_def split: sum.splits)
qed

end
