(* ===== verification/RTT_Buffer.thy ===== *)
theory RTT_Buffer
  imports Prelude
begin

text \<open>
  The target side of RTT, which \<open>jlink_dongle.py\<close> reaches only through pylink's
  \<open>rtt_read\<close> and \<open>rtt_write\<close>: one channel's circular buffer in target memory
  (SEGGER RTT, spec sections 3 and 4.3). A buffer is its size, read offset \<open>RdOff\<close>,
  write offset \<open>WrOff\<close>, memory and mode. \<open>RdOff = WrOff\<close> means empty, so at most
  \<open>size - 1\<close> bytes are pending. The producer copies data in with at most two
  \<open>memcpy\<close>s (up to the end of the buffer, then from its start) and then moves
  \<open>WrOff\<close>; the consumer snapshots \<open>WrOff\<close>, copies out with at most two
  \<open>memcpy\<close>s and then moves \<open>RdOff\<close>. The abstract view of a buffer is the FIFO
  queue of its pending bytes, \<open>rb_content\<close>.
\<close>

subsection \<open>Buffers and their operations\<close>

text \<open>
  The two channel policies of spec section 4.3. \<open>Blocking\<close> never overwrites unread
  data and takes what fits, as SEGGER RTT's \<open>SEGGER_RTT_MODE_NO_BLOCK_TRIM\<close> does.
  \<open>Overwrite\<close> is the spec's overwrite policy: the writer discards the oldest unread
  bytes by advancing \<open>RdOff\<close>. SEGGER RTT has no such mode (its
  \<open>NO_BLOCK_SKIP\<close> drops the new data instead), so this mode is modelled from the
  spec alone.
\<close>

datatype rtt_mode = Blocking | Overwrite

record rtt_buffer =
  rb_size :: nat
  rb_rd :: nat
  rb_wr :: nat
  rb_mem :: "byte list"
  rb_mode :: rtt_mode

definition rb_inv :: "rtt_buffer \<Rightarrow> bool" where
  "rb_inv rb \<longleftrightarrow> 0 < rb_size rb \<and> rb_rd rb < rb_size rb \<and> rb_wr rb < rb_size rb \<and>
                 length (rb_mem rb) = rb_size rb"

definition rb_used :: "rtt_buffer \<Rightarrow> nat" where
  "rb_used rb = (rb_wr rb + rb_size rb - rb_rd rb) mod rb_size rb"

definition rb_free :: "rtt_buffer \<Rightarrow> nat" where
  "rb_free rb = rb_size rb - 1 - rb_used rb"

definition rb_content :: "rtt_buffer \<Rightarrow> byte list" where
  "rb_content rb = take (rb_used rb) (rotate (rb_rd rb) (rb_mem rb))"

definition rb_new :: "nat \<Rightarrow> rtt_mode \<Rightarrow> rtt_buffer" where
  "rb_new n mode = \<lparr>rb_size = n, rb_rd = 0, rb_wr = 0, rb_mem = replicate n 0, rb_mode = mode\<rparr>"

text \<open>The reference write: the cell at distance \<open>k\<close> after \<open>start\<close> receives byte \<open>k\<close>.\<close>

definition ring_put :: "byte list \<Rightarrow> nat \<Rightarrow> byte list \<Rightarrow> byte list" where
  "ring_put mem start xs =
     map (\<lambda>j. let k = (j + length mem - start) mod length mem in if k < length xs then xs ! k else mem ! j)
         [0..<length mem]"

definition write_at :: "'a list \<Rightarrow> nat \<Rightarrow> 'a list \<Rightarrow> 'a list" where
  "write_at xs i ys = take i xs @ ys @ drop (i + length ys) xs"

text \<open>The two-\<open>memcpy\<close> write and read of the RTT implementation.\<close>

definition rb_copy_in :: "byte list \<Rightarrow> nat \<Rightarrow> byte list \<Rightarrow> byte list" where
  "rb_copy_in mem wr xs =
     (let c1 = min (length xs) (length mem - wr) in write_at (write_at mem wr (take c1 xs)) 0 (drop c1 xs))"

definition rb_copy_out :: "byte list \<Rightarrow> nat \<Rightarrow> nat \<Rightarrow> byte list" where
  "rb_copy_out mem rd k = (let c1 = min k (length mem - rd) in take c1 (drop rd mem) @ take (k - c1) mem)"

definition rb_put :: "rtt_buffer \<Rightarrow> byte list \<Rightarrow> rtt_buffer" where
  "rb_put rb xs = rb\<lparr>rb_mem := rb_copy_in (rb_mem rb) (rb_wr rb) xs,
                     rb_wr := (rb_wr rb + length xs) mod rb_size rb\<rparr>"

definition rb_skip :: "rtt_buffer \<Rightarrow> nat \<Rightarrow> rtt_buffer" where
  "rb_skip rb m = rb\<lparr>rb_rd := (rb_rd rb + m) mod rb_size rb\<rparr>"

definition rb_read :: "rtt_buffer \<Rightarrow> nat \<Rightarrow> byte list \<times> rtt_buffer" where
  "rb_read rb k = (let m = min k (rb_used rb) in (rb_copy_out (rb_mem rb) (rb_rd rb) m, rb_skip rb m))"

definition rb_write :: "rtt_buffer \<Rightarrow> byte list \<Rightarrow> rtt_buffer \<times> nat" where
  "rb_write rb d =
     (case rb_mode rb of
        Blocking \<Rightarrow> let m = min (length d) (rb_free rb) in (rb_put rb (take m d), m)
      | Overwrite \<Rightarrow>
          let d' = drop (length d - (rb_size rb - 1)) d;
              lost = length d' - min (length d') (rb_free rb)
          in (rb_put (rb_skip rb lost) d', length d))"

text \<open>
  A host read of a buffer that the target fills at the same time: the host reads
  \<open>RdOff\<close> and \<open>WrOff\<close> (fixing the amount \<open>m\<close> it will take), the target then writes
  \<open>d\<close>, and the host copies \<open>m\<close> bytes from its \<open>RdOff\<close> and stores the advanced
  \<open>RdOff\<close>.
\<close>

definition rb_read_interleaved :: "rtt_buffer \<Rightarrow> nat \<Rightarrow> byte list \<Rightarrow> byte list \<times> rtt_buffer" where
  "rb_read_interleaved rb k d =
     (let m = min k (rb_used rb); rd = rb_rd rb; rb1 = fst (rb_write rb d)
      in (rb_copy_out (rb_mem rb1) rd m, rb1\<lparr>rb_rd := (rd + m) mod rb_size rb\<rparr>))"

subsection \<open>The FIFO contract of a channel (spec section 4.3)\<close>

definition fifo_read :: "'a list \<Rightarrow> nat \<Rightarrow> 'a list \<times> 'a list" where
  "fifo_read q k = (take k q, drop k q)"

definition fifo_write :: "rtt_mode \<Rightarrow> nat \<Rightarrow> 'a list \<Rightarrow> 'a list \<Rightarrow> 'a list \<times> nat" where
  "fifo_write mode cap q d =
     (case mode of
        Blocking \<Rightarrow> let m = min (length d) (cap - length q) in (q @ take m d, m)
      | Overwrite \<Rightarrow> let q' = q @ d in (drop (length q' - cap) q', length d))"

subsection \<open>Offset arithmetic\<close>

lemma mod_plus_self_lt: "x < (n::nat) \<Longrightarrow> (x + n) mod n = x"
  by simp

lemma mod_wrap_once: "(n::nat) \<le> x \<Longrightarrow> x < n + n \<Longrightarrow> x mod n = x - n"
  by (simp add: le_mod_geq)

lemma ring_gap_le:
  assumes "r \<le> w" "w < (n::nat)"
  shows "(w + n - r) mod n = w - r"
proof -
  have "w + n - r = (w - r) + n" using assms by simp
  moreover have "w - r < n" using assms by simp
  ultimately show ?thesis by (metis mod_plus_self_lt)
qed

lemma ring_advance:
  assumes "m \<le> (u::nat)"
  shows "((a + m) mod n + (u - m)) mod n = (a + u) mod n"
proof -
  have "(a + m) + (u - m) = a + u" using assms by simp
  then show ?thesis by (metis mod_add_left_eq)
qed

lemma ring_offset:
  assumes "start < (n::nat)" "k < n"
  shows "((start + k) mod n + n - start) mod n = k"
proof (cases "start + k < n")
  case True
  then have "(start + k) mod n + n - start = k + n" by simp
  then show ?thesis using assms by simp
next
  case False
  with assms have "(start + k) mod n = start + k - n"
    by (simp add: mod_wrap_once)
  with False assms show ?thesis by simp
qed

lemma ring_put_at:
  assumes "start < length mem" "k < length mem"
  shows "ring_put mem start xs ! ((start + k) mod length mem) =
           (if k < length xs then xs ! k else mem ! ((start + k) mod length mem))"
proof -
  have "mem \<noteq> []" using assms by (cases mem) auto
  moreover then have "(start + k) mod length mem < length mem" by simp
  ultimately show ?thesis using assms by (simp add: ring_put_def ring_offset)
qed

lemma length_ring_put [simp]: "length (ring_put mem start xs) = length mem"
  by (simp add: ring_put_def)

lemma nth_write_at:
  "i + length ys \<le> length xs \<Longrightarrow> j < length xs \<Longrightarrow>
   write_at xs i ys ! j = (if i \<le> j \<and> j < i + length ys then ys ! (j - i) else xs ! j)"
  by (auto simp: write_at_def nth_append min_def)

lemma length_write_at [simp]: "i + length ys \<le> length xs \<Longrightarrow> length (write_at xs i ys) = length xs"
  by (simp add: write_at_def)

lemma rb_copy_in_ring_put:
  assumes "wr < length mem" "length xs \<le> length mem"
  shows "rb_copy_in mem wr xs = ring_put mem wr xs"
proof (rule nth_equalityI)
  let ?n = "length mem"
  let ?c1 = "min (length xs) (?n - wr)"
  have l1: "wr + length (take ?c1 xs) \<le> ?n" using assms by simp
  have l2: "0 + length (drop ?c1 xs) \<le> ?n" using assms by simp
  show "length (rb_copy_in mem wr xs) = length (ring_put mem wr xs)"
    using l1 l2 by (simp add: rb_copy_in_def Let_def)
  fix j assume "j < length (rb_copy_in mem wr xs)"
  then have j: "j < ?n" using l1 l2 by (simp add: rb_copy_in_def Let_def)
  show "rb_copy_in mem wr xs ! j = ring_put mem wr xs ! j"
  proof (cases "wr \<le> j")
    case True
    then have "j + ?n - wr = (j - wr) + ?n" using j by simp
    then have k: "(j + ?n - wr) mod ?n = j - wr" using j by (simp only: mod_plus_self_lt)
    show ?thesis
      using True j assms k l1 l2
      by (auto simp: rb_copy_in_def Let_def ring_put_def nth_write_at min_def)
  next
    case False
    then have k: "(j + ?n - wr) mod ?n = ?n - wr + j" using j assms by (simp add: mod_wrap_once)
    show ?thesis
      using False j assms k l1 l2
      by (auto simp: rb_copy_in_def Let_def ring_put_def nth_write_at min_def)
  qed
qed

lemma rotate_ring_put:
  assumes "start < length mem" "length xs \<le> length mem"
  shows "rotate start (ring_put mem start xs) = xs @ drop (length xs) (rotate start mem)"
proof (rule nth_equalityI)
  show "length (rotate start (ring_put mem start xs)) = length (xs @ drop (length xs) (rotate start mem))"
    using assms by simp
  fix k assume "k < length (rotate start (ring_put mem start xs))"
  then have k: "k < length mem" by simp
  then show "rotate start (ring_put mem start xs) ! k = (xs @ drop (length xs) (rotate start mem)) ! k"
    using assms by (simp add: nth_rotate ring_put_at nth_append)
qed

lemma rb_copy_out_rotate:
  assumes "rd < length mem" "k \<le> length mem"
  shows "rb_copy_out mem rd k = take k (rotate rd mem)"
  using assms by (auto simp add: rb_copy_out_def Let_def rotate_drop_take min_def)

lemma rotate_append_le:
  "m \<le> length c \<Longrightarrow> m < length (c @ r) \<Longrightarrow> rotate m (c @ r) = drop m c @ r @ take m c"
  by (simp add: rotate_drop_take)

subsection \<open>Occupancy and the abstract queue\<close>

lemma rb_used_lt:
  assumes "rb_inv rb" shows "rb_used rb < rb_size rb"
  using assms by (simp add: rb_inv_def rb_used_def)

lemma rb_wr_eq:
  assumes "rb_inv rb" shows "rb_wr rb = (rb_rd rb + rb_used rb) mod rb_size rb"
proof (cases "rb_rd rb \<le> rb_wr rb")
  case True
  then have "rb_used rb = rb_wr rb - rb_rd rb"
    using assms by (simp add: rb_used_def rb_inv_def ring_gap_le)
  then show ?thesis using assms True by (simp add: rb_inv_def)
next
  case False
  then have "rb_wr rb + rb_size rb - rb_rd rb < rb_size rb"
    using assms unfolding rb_inv_def by linarith
  then have "rb_used rb = rb_wr rb + rb_size rb - rb_rd rb"
    by (simp add: rb_used_def)
  moreover have "rb_rd rb + (rb_wr rb + rb_size rb - rb_rd rb) = rb_wr rb + rb_size rb"
    using False assms by (simp add: rb_inv_def)
  ultimately show ?thesis using assms by (simp add: rb_inv_def)
qed

lemma rb_used_at:
  assumes "rb_inv rb" "u < rb_size rb" "rb_wr rb = (rb_rd rb + u) mod rb_size rb"
  shows "rb_used rb = u"
  using assms by (simp add: rb_used_def rb_inv_def ring_offset)

lemma rb_content_length [simp]: "rb_inv rb \<Longrightarrow> length (rb_content rb) = rb_used rb"
  using rb_used_lt by (simp add: rb_content_def rb_inv_def)

lemma rotate_rb_wr:
  assumes "rb_inv rb"
  shows "rotate (rb_wr rb) (rb_mem rb) = drop (rb_used rb) (rotate (rb_rd rb) (rb_mem rb)) @ rb_content rb"
proof -
  have len: "length (rb_mem rb) = rb_size rb" using assms by (simp add: rb_inv_def)
  have "rotate (rb_wr rb) (rb_mem rb) = rotate ((rb_rd rb + rb_used rb) mod length (rb_mem rb)) (rb_mem rb)"
    using rb_wr_eq [OF assms] len by simp
  also have "\<dots> = rotate (rb_rd rb + rb_used rb) (rb_mem rb)"
    by (rule rotate_conv_mod [symmetric])
  also have "\<dots> = rotate (rb_used rb) (rotate (rb_rd rb) (rb_mem rb))"
    by (simp add: rotate_rotate add.commute)
  also have "\<dots> = drop (rb_used rb) (rotate (rb_rd rb) (rb_mem rb)) @ rb_content rb"
    using assms rb_used_lt [OF assms] by (simp add: rotate_drop_take rb_content_def rb_inv_def)
  finally show ?thesis .
qed

lemma rotate_mod_add: "rotate ((a + b) mod length xs) xs = rotate b (rotate a xs)"
  by (simp add: rotate_rotate add.commute flip: rotate_conv_mod)

lemma rotate_back:
  assumes "rotate u ys = as @ bs" "u \<le> length ys" "length as = length ys - u"
  shows "ys = bs @ as"
proof -
  have "ys = rotate (length ys - u) (rotate u ys)"
    using assms(2) by (simp add: rotate_rotate)
  then show ?thesis using assms(1,3) by (metis rotate_append)
qed

lemma rb_skip_inv: "rb_inv rb \<Longrightarrow> rb_inv (rb_skip rb m)"
  by (simp add: rb_inv_def rb_skip_def)

lemma rb_skip_content:
  assumes "rb_inv rb" "m \<le> rb_used rb"
  shows "rb_content (rb_skip rb m) = drop m (rb_content rb)"
proof -
  let ?n = "rb_size rb" and ?u = "rb_used rb" and ?r = "rotate (rb_rd rb) (rb_mem rb)"
  have n: "length (rb_mem rb) = ?n" "0 < ?n" using assms by (simp_all add: rb_inv_def)
  have u: "?u < ?n" using rb_used_lt [OF assms(1)] .
  have "rb_wr rb = ((rb_rd rb + m) mod ?n + (?u - m)) mod ?n"
    using rb_wr_eq [OF assms(1)] ring_advance [OF assms(2)] by simp
  then have used: "rb_used (rb_skip rb m) = ?u - m"
    using rb_skip_inv [OF assms(1)] u by (intro rb_used_at) (simp_all add: rb_skip_def)
  have "rotate (rb_rd (rb_skip rb m)) (rb_mem rb) = rotate m ?r"
    using n by (metis rb_skip_def rtt_buffer.select_convs(2) rtt_buffer.surjective rtt_buffer.update_convs(2)
                      rotate_conv_mod rotate_rotate add.commute)
  also have "\<dots> = rotate m (take ?u ?r @ drop ?u ?r)" by simp
  also have "\<dots> = drop m (take ?u ?r) @ drop ?u ?r @ take m (take ?u ?r)"
    using assms(2) u n by (intro rotate_append_le) simp_all
  finally show ?thesis
    using used assms(2) u n by (simp add: rb_content_def rb_skip_def)
qed

lemma rb_put_inv: "rb_inv rb \<Longrightarrow> length xs \<le> rb_size rb \<Longrightarrow> rb_inv (rb_put rb xs)"
  by (simp add: rb_inv_def rb_put_def rb_copy_in_ring_put)

lemma rb_free_used:
  assumes "rb_inv rb" shows "rb_free rb + rb_used rb = rb_size rb - 1"
  using rb_used_lt [OF assms] by (simp add: rb_free_def)

lemma rb_put_content:
  assumes "rb_inv rb" "length xs \<le> rb_free rb"
  shows "rb_content (rb_put rb xs) = rb_content rb @ xs"
proof -
  let ?n = "rb_size rb" and ?u = "rb_used rb" and ?l = "length xs"
  let ?m = "rb_copy_in (rb_mem rb) (rb_wr rb) xs"
  have n: "length (rb_mem rb) = ?n" "rb_wr rb < ?n" "rb_rd rb < ?n" using assms by (simp_all add: rb_inv_def)
  have ul: "?u + ?l < ?n" using assms(2) rb_free_used [OF assms(1)] rb_used_lt [OF assms(1)] by simp
  have inv': "rb_inv (rb_put rb xs)" using rb_put_inv [OF assms(1)] ul by simp
  have "rb_wr (rb_put rb xs) = (rb_rd (rb_put rb xs) + (?u + ?l)) mod rb_size (rb_put rb xs)"
    using rb_wr_eq [OF assms(1)] by (simp add: rb_put_def mod_add_left_eq add.assoc)
  then have used: "rb_used (rb_put rb xs) = ?u + ?l"
    using ul by (intro rb_used_at [OF inv']) (simp_all add: rb_put_def)
  have m: "?m = ring_put (rb_mem rb) (rb_wr rb) xs" "length ?m = ?n"
    using n ul by (simp_all add: rb_copy_in_ring_put)
  have "rotate ?u (rotate (rb_rd rb) ?m) = rotate ((rb_rd rb + ?u) mod length ?m) ?m"
    by (rule rotate_mod_add [symmetric])
  also have "\<dots> = rotate (rb_wr rb) ?m"
    by (simp only: m(2) rb_wr_eq [OF assms(1), symmetric])
  also have "\<dots> = xs @ drop ?l (rotate (rb_wr rb) (rb_mem rb))"
    using m n ul by (simp add: rotate_ring_put)
  also have "\<dots> = (xs @ drop ?l (drop ?u (rotate (rb_rd rb) (rb_mem rb)))) @ rb_content rb"
    using rotate_rb_wr [OF assms(1)] ul n by simp
  finally have "rotate (rb_rd rb) ?m = rb_content rb @ xs @ drop ?l (drop ?u (rotate (rb_rd rb) (rb_mem rb)))"
    by (rule rotate_back) (insert ul, simp_all add: m(2) n)
  then show ?thesis using used rb_content_length [OF assms(1)] by (simp add: rb_content_def rb_put_def)
qed

subsection \<open>Refinement of the buffer operations to the FIFO contract\<close>

lemma rb_read_refines:
  assumes "rb_inv rb"
  shows "apsnd rb_content (rb_read rb k) = fifo_read (rb_content rb) k \<and> rb_inv (snd (rb_read rb k))"
proof -
  let ?m = "min k (rb_used rb)"
  have "rb_copy_out (rb_mem rb) (rb_rd rb) ?m = take ?m (rotate (rb_rd rb) (rb_mem rb))"
    using assms rb_used_lt [OF assms] by (intro rb_copy_out_rotate) (simp_all add: rb_inv_def)
  moreover have "rb_content (rb_skip rb ?m) = drop ?m (rb_content rb)"
    using assms by (simp add: rb_skip_content)
  moreover have "drop ?m (rb_content rb) = drop k (rb_content rb)"
    using assms by (simp add: min_def)
  moreover have "take ?m (rotate (rb_rd rb) (rb_mem rb)) = take k (rb_content rb)"
    by (simp add: rb_content_def min.commute)
  ultimately show ?thesis
    using assms by (simp add: rb_read_def fifo_read_def Let_def rb_skip_inv)
qed

lemma rb_write_blocking:
  assumes "rb_inv rb" "rb_mode rb = Blocking"
  shows "apfst rb_content (rb_write rb d) = fifo_write Blocking (rb_size rb - 1) (rb_content rb) d \<and>
         rb_inv (fst (rb_write rb d))"
proof -
  let ?m = "min (length d) (rb_free rb)"
  have "rb_content (rb_put rb (take ?m d)) = rb_content rb @ take ?m d"
    using assms by (simp add: rb_put_content)
  moreover have "rb_inv (rb_put rb (take ?m d))"
    using assms rb_free_used [OF assms(1)] by (simp add: rb_put_inv)
  moreover have "rb_free rb = rb_size rb - 1 - length (rb_content rb)"
    using assms by (simp add: rb_free_def)
  ultimately show ?thesis
    using assms by (simp add: rb_write_def fifo_write_def Let_def)
qed

lemma rb_write_overwrite:
  assumes "rb_inv rb" "rb_mode rb = Overwrite"
  shows "apfst rb_content (rb_write rb d) = fifo_write Overwrite (rb_size rb - 1) (rb_content rb) d \<and>
         rb_inv (fst (rb_write rb d))"
proof -
  define c where "c = rb_size rb - 1"
  define u where "u = rb_used rb"
  define f where "f = rb_free rb"
  define d' where "d' = drop (length d - c) d"
  define lost where "lost = length d' - min (length d') f"
  define rb1 where "rb1 = rb_skip rb lost"
  have w: "rb_write rb d = (rb_put rb1 d', length d)"
    using assms(2) by (simp add: rb_write_def Let_def rb1_def lost_def d'_def f_def c_def)
  have fu: "f + u = c" unfolding f_def u_def c_def by (rule rb_free_used [OF assms(1)])
  have dc: "length d' \<le> c" by (simp add: d'_def)
  have lost: "lost \<le> u" using fu dc by (simp add: lost_def)
  have inv1: "rb_inv rb1" unfolding rb1_def using assms(1) by (rule rb_skip_inv)
  have c1: "rb_content rb1 = drop lost (rb_content rb)"
    unfolding rb1_def using assms(1) lost by (simp add: u_def rb_skip_content)
  have u1: "rb_used rb1 = u - lost"
    using c1 rb_content_length [OF inv1] rb_content_length [OF assms(1)] by (simp add: u_def)
  have c1': "rb_size rb1 - 1 = c" by (simp add: rb1_def rb_skip_def c_def)
  have "length d' \<le> rb_free rb1"
    using rb_free_used [OF inv1] u1 fu lost dc c1' unfolding lost_def by linarith
  then have "rb_content (rb_put rb1 d') = drop lost (rb_content rb) @ d'" "rb_inv (rb_put rb1 d')"
    using rb_put_content [OF inv1] rb_put_inv [OF inv1] c1 dc c1' by simp_all
  moreover have "drop lost (rb_content rb) @ d' = drop (length (rb_content rb @ d) - c) (rb_content rb @ d)"
  proof (cases "length d \<le> c")
    case True
    then have "lost = u + length d - c" using fu by (simp add: lost_def d'_def min_def) arith
    then show ?thesis using True rb_content_length [OF assms(1)] by (simp add: d'_def u_def)
  next
    case False
    then have "lost = u" using fu by (simp add: lost_def d'_def min_def) arith
    then show ?thesis using False rb_content_length [OF assms(1)] by (simp add: d'_def u_def)
  qed
  ultimately show ?thesis
    by (simp add: w fifo_write_def c_def)
qed
lemma rb_write_refines:
  assumes "rb_inv rb"
  shows "apfst rb_content (rb_write rb d) = fifo_write (rb_mode rb) (rb_size rb - 1) (rb_content rb) d \<and>
         rb_inv (fst (rb_write rb d))"
  using rb_write_blocking [OF assms] rb_write_overwrite [OF assms] by (cases "rb_mode rb") simp_all

lemma take_rotate_ring:
  assumes "rd < length mem" "k \<le> length mem"
  shows "take k (rotate rd mem) = map (\<lambda>i. mem ! ((rd + i) mod length mem)) [0..<k]"
  using assms by (intro nth_equalityI) (simp_all add: nth_rotate)

lemma rb_mode_ops [simp]:
  "rb_mode (fst (rb_write b d)) = rb_mode b" "rb_mode (snd (rb_read b k)) = rb_mode b"
  by (simp_all add: rb_write_def rb_read_def Let_def rb_put_def rb_skip_def split: rtt_mode.split)

lemma rb_inv_ops:
  "rb_inv b \<Longrightarrow> rb_inv (snd (rb_read b k))"
  "rb_inv b \<Longrightarrow> rb_inv (fst (rb_write b d))"
  using rb_read_refines rb_write_refines by blast+

lemma rb_read_take_drop:
  assumes "rb_inv b"
  shows "fst (rb_read b k) = take k (rb_content b)" "rb_content (snd (rb_read b k)) = drop k (rb_content b)"
  using rb_read_refines [OF assms, of k] by (simp_all add: fifo_read_def apsnd_def map_prod_def split: prod.splits)

lemma rb_read_all:
  assumes "rb_inv b" "length (rb_content b) \<le> k"
  shows "fst (rb_read b k) = rb_content b \<and> rb_content (snd (rb_read b k)) = [] \<and> rb_inv (snd (rb_read b k))"
  using rb_read_take_drop [OF assms(1), of k] rb_inv_ops(1) [OF assms(1)] assms(2) by simp

lemma rb_write_fits:
  assumes "rb_inv b" "rb_mode b = Blocking" "length (rb_content b) + length d < rb_size b"
  shows "rb_content (fst (rb_write b d)) = rb_content b @ d \<and> rb_inv (fst (rb_write b d))"
  using rb_write_refines [OF assms(1), of d] assms(2,3)
  by (simp add: fifo_write_def apfst_def map_prod_def split: prod.splits)

lemma take_min_length [simp]: "take (min (length xs) n) xs = take n xs"
  by (simp add: min_def)

lemma rb_write_blocking_content:
  assumes "rb_inv b" "rb_mode b = Blocking"
  shows "rb_content (fst (rb_write b d)) = rb_content b @ take (rb_free b) d"
  using rb_write_refines [OF assms(1), of d] assms(2) rb_free_used [OF assms(1)] rb_content_length [OF assms(1)]
  by (simp add: fifo_write_def apfst_def map_prod_def Let_def rb_free_def split: prod.splits)

lemma rb_write_accepted:
  assumes "rb_inv b"
  shows "rb_mode b = Blocking \<Longrightarrow> rb_content (fst (rb_write b d)) = rb_content b @ take (snd (rb_write b d)) d"
    and "rb_mode b = Overwrite \<Longrightarrow> snd (rb_write b d) = length d \<and>
           rb_content (fst (rb_write b d)) =
             drop (length (rb_content b @ d) - (rb_size b - 1)) (rb_content b @ d)"
  using rb_write_refines [OF assms, of d] rb_free_used [OF assms] rb_content_length [OF assms]
  by (simp_all add: fifo_write_def apfst_def map_prod_def Let_def rb_free_def split: prod.splits)

lemma rb_size_write [simp]: "rb_size (fst (rb_write b d)) = rb_size b"
  by (simp add: rb_write_def Let_def rb_put_def rb_skip_def split: rtt_mode.split)

lemma rb_mode_interleaved [simp]: "rb_mode (snd (rb_read_interleaved b k d)) = rb_mode b"
  by (simp add: rb_read_interleaved_def Let_def)

lemma rb_read_interleaved_inv:
  assumes "rb_inv b"
  shows "rb_inv (snd (rb_read_interleaved b k d))"
proof -
  have "rb_inv (fst (rb_write b d))" using assms by (rule rb_inv_ops(2))
  then show ?thesis using assms by (simp add: rb_read_interleaved_def Let_def rb_inv_def)
qed

subsection \<open>Properties of a channel buffer\<close>

text \<open>
  A channel buffer implements the FIFO contract of spec section 4.3: on a
  well-formed buffer, a read of at most \<open>k\<close> bytes returns the oldest \<open>k\<close> pending bytes
  and leaves the rest; a write appends what fits (blocking mode) or appends everything
  and drops the oldest bytes beyond the capacity \<open>size - 1\<close> (overwrite mode); both keep
  the buffer well formed.
\<close>

theorem rb_refines_fifo:
  assumes "rb_inv rb"
  shows "apsnd rb_content (rb_read rb k) = fifo_read (rb_content rb) k \<and>
         apfst rb_content (rb_write rb d) = fifo_write (rb_mode rb) (rb_size rb - 1) (rb_content rb) d \<and>
         rb_inv (snd (rb_read rb k)) \<and> rb_inv (fst (rb_write rb d))"
  using rb_read_refines [OF assms] rb_write_refines [OF assms] by simp

text \<open>
  The two-\<open>memcpy\<close> copies equal the cell-by-cell definitions: writing \<open>xs\<close> at
  \<open>WrOff\<close> puts byte \<open>k\<close> into cell \<open>(WrOff + k) mod size\<close> and leaves every other cell,
  and reading \<open>k\<close> bytes at \<open>RdOff\<close> returns cells \<open>(RdOff + i) mod size\<close>, \<open>i < k\<close>.
\<close>

theorem rb_copy_two_chunks:
  assumes "wr < length mem" "length xs \<le> length mem" "rd < length mem" "k \<le> length mem"
  shows "rb_copy_in mem wr xs = ring_put mem wr xs \<and>
         rb_copy_out mem rd k = map (\<lambda>i. mem ! ((rd + i) mod length mem)) [0..<k]"
  using assms by (simp add: rb_copy_in_ring_put rb_copy_out_rotate take_rotate_ring)

text \<open>
  A well-formed buffer never holds more than \<open>size - 1\<close> bytes. In overwrite mode a
  write reports the full length of its data, while the buffer keeps
  \<open>min (pending + length data) (size - 1)\<close> bytes: writing 1100 bytes into a 1024-byte
  channel keeps the last 1023, not 1024.
\<close>

theorem rb_capacity:
  assumes "rb_inv rb"
  shows "length (rb_content rb) \<le> rb_size rb - 1 \<and>
         (rb_mode rb = Overwrite \<longrightarrow> snd (rb_write rb d) = length d \<and>
            length (rb_content (fst (rb_write rb d))) = min (length (rb_content rb) + length d) (rb_size rb - 1))"
proof -
  have "length (rb_content rb) \<le> rb_size rb - 1"
    using rb_used_lt [OF assms] assms by simp
  moreover have "rb_mode rb = Overwrite \<Longrightarrow> snd (rb_write rb d) = length d \<and>
          length (rb_content (fst (rb_write rb d))) = min (length (rb_content rb) + length d) (rb_size rb - 1)"
    using rb_write_overwrite [OF assms, of d]
    by (simp add: fifo_write_def rb_write_def Let_def apfst_def map_prod_def split: prod.splits)
  ultimately show ?thesis by blast
qed

text \<open>
  The host's read is safe against a target write between its snapshot of
  \<open>WrOff\<close> and its copy (spec section 5): on a blocking buffer the host still gets the
  oldest \<open>k\<close> bytes that were pending at the snapshot, and afterwards the buffer holds the
  rest of them followed by what the target wrote.
\<close>

theorem rb_read_interleaved_fifo:
  assumes "rb_inv rb" "rb_mode rb = Blocking"
  shows "fst (rb_read_interleaved rb k d) = take k (rb_content rb) \<and>
         rb_content (snd (rb_read_interleaved rb k d)) =
           drop k (rb_content rb) @ take (min (length d) (rb_free rb)) d \<and>
         rb_inv (snd (rb_read_interleaved rb k d))"
proof -
  let ?m = "min k (rb_used rb)" and ?x = "take (min (length d) (rb_free rb)) d"
  let ?rb1 = "rb_put rb ?x"
  have w: "fst (rb_write rb d) = ?rb1" using assms(2) by (simp add: rb_write_def Let_def)
  have r: "rb_read_interleaved rb k d = (rb_copy_out (rb_mem ?rb1) (rb_rd ?rb1) ?m, rb_skip ?rb1 ?m)"
    by (simp add: rb_read_interleaved_def w Let_def rb_skip_def rb_put_def)
  have x: "length ?x \<le> rb_free rb" by simp
  have c1: "rb_content ?rb1 = rb_content rb @ ?x" using rb_put_content [OF assms(1) x] .
  have inv1: "rb_inv ?rb1" using rb_put_inv [OF assms(1)] x rb_free_used [OF assms(1)] by simp
  have m1: "?m \<le> rb_used ?rb1" using c1 rb_content_length [OF inv1] rb_content_length [OF assms(1)] by simp
  have "rb_copy_out (rb_mem ?rb1) (rb_rd ?rb1) ?m = take ?m (rb_content ?rb1)"
    using inv1 m1 rb_used_lt [OF inv1]
    by (simp add: rb_copy_out_rotate rb_content_def rb_inv_def min_def)
  moreover have "rb_content (rb_skip ?rb1 ?m) = drop ?m (rb_content ?rb1)"
    using inv1 m1 by (rule rb_skip_content)
  ultimately show ?thesis
    using c1 rb_content_length [OF assms(1)] rb_skip_inv [OF inv1]
    by (simp add: r min_def)
qed

text \<open>
  In overwrite mode the same interleaving tears the read: the target moves
  \<open>RdOff\<close> past bytes it overwrites, the host copies from the \<open>RdOff\<close> it read before,
  and gets a newly written byte followed by an old one, which was never a prefix of the
  channel's data. With 2 bytes pending in a 4-byte buffer and a 3-byte target write,
  the host reads \<open>[9, 1]\<close> where the pending bytes were \<open>[4, 1]\<close>.
\<close>

theorem rb_overwrite_read_torn:
  "rb_content \<lparr>rb_size = 4, rb_rd = 3, rb_wr = 1, rb_mem = [1, 2, 3, 4], rb_mode = Overwrite\<rparr> = [4, 1] \<and>
   fst (rb_read_interleaved \<lparr>rb_size = 4, rb_rd = 3, rb_wr = 1, rb_mem = [1, 2, 3, 4], rb_mode = Overwrite\<rparr>
          2 [7, 8, 9]) = [9, 1]"
  by (simp add: rb_content_def rb_used_def rotate_drop_take rb_read_interleaved_def rb_write_def rb_free_def
                rb_put_def rb_skip_def rb_copy_in_def rb_copy_out_def write_at_def)

end
