(* ===== verification/JLink_Sim.thy ===== *)
theory JLink_Sim
  imports World_Invariant RTT_Buffer
begin

text \<open>
  A simulated J-Link probe and target, the second implementation of \<open>jlink_api\<close>
  (modelled from the spec: pylink and the J-Link firmware are not code of this
  repository). The world records whether the DLL connection is open, whether the target
  is connected, whether RTT is running, and the target's up (target to host) and down
  (host to target) channel buffers (\<open>RTT_Buffer\<close>). The handle is whether this
  \<open>JLink\<close> instance holds the open connection. Methods that pylink marks
  \<open>@open_required\<close> raise \<open>JLinkException\<close> on a closed handle; \<open>rtt_read\<close> and
  \<open>rtt_write\<close> raise unless RTT runs and the channel exists; \<open>close\<close> and the
  finalizer of an open handle close the connection but leave target memory alone. The
  firmware's side is \<open>target_write\<close>, \<open>target_read\<close> and the echo loop
  \<open>target_echo\<close>.
\<close>

subsection \<open>The simulated library\<close>

record sim_world =
  sw_open :: bool
  sw_connected :: bool
  sw_rtt :: bool
  sw_up :: "rtt_buffer list"
  sw_down :: "rtt_buffer list"

definition sim_ok :: "'a \<Rightarrow> (bool, sim_world, 'a) meth" where
  "sim_ok v h w = (Inr v, h, w)"

definition sim_opened :: "(bool, sim_world, 'a) meth \<Rightarrow> (bool, sim_world, 'a) meth" where
  "sim_opened m h w = (if h \<and> sw_open w then m h w else (Inl (JLinkException ''J-Link DLL is not open.''), h, w))"

definition sim_target :: "(bool, sim_world, 'a) meth \<Rightarrow> (bool, sim_world, 'a) meth" where
  "sim_target m = sim_opened (\<lambda>h w. if sw_connected w then m h w
                                   else (Inl (JLinkException ''Target is not connected.''), h, w))"

definition sim_close_world :: "sim_world \<Rightarrow> sim_world" where
  "sim_close_world w = w\<lparr>sw_open := False, sw_connected := False, sw_rtt := False\<rparr>"

definition sim_rtt_read :: "nat \<Rightarrow> nat \<Rightarrow> (bool, sim_world, byte list) meth" where
  "sim_rtt_read n k h w =
     (if sw_rtt w \<and> n < length (sw_up w)
      then (case rb_read (sw_up w ! n) k of (data, b) \<Rightarrow> (Inr data, h, w\<lparr>sw_up := (sw_up w)[n := b]\<rparr>))
      else (Inl (JLinkException ''RTT read failed''), h, w))"

definition sim_rtt_write :: "nat \<Rightarrow> byte list \<Rightarrow> (bool, sim_world, nat) meth" where
  "sim_rtt_write n d h w =
     (if sw_rtt w \<and> n < length (sw_down w)
      then (case rb_write (sw_down w ! n) d of (b, cnt) \<Rightarrow> (Inr cnt, h, w\<lparr>sw_down := (sw_down w)[n := b]\<rparr>))
      else (Inl (JLinkException ''RTT write failed''), h, w))"

definition sim_api :: "(bool, sim_world) jlink_api" where
  "sim_api =
     \<lparr>jl_new = (\<lambda>w. (Inr False, w)),
      jl_finalize = (\<lambda>h w. if h then sim_close_world w else w),
      jl_disable_dialog_boxes = sim_ok (),
      jl_open = (\<lambda>h w. (Inr (), True, w\<lparr>sw_open := True\<rparr>)),
      jl_rtt_stop = sim_opened (\<lambda>h w. (Inr (), h, w\<lparr>sw_rtt := False\<rparr>)),
      jl_set_tif = (\<lambda>i. sim_opened (sim_ok ())),
      jl_connect = (\<lambda>c sp v. sim_opened (\<lambda>h w. (Inr (), h, w\<lparr>sw_connected := True\<rparr>))),
      jl_rtt_start = sim_target (\<lambda>h w. (Inr (), h, w\<lparr>sw_rtt := True\<rparr>)),
      jl_endian_mode = sim_target (sim_ok [0]),
      jl_speed = sim_opened (sim_ok 4000),
      jl_core_name = sim_target (sim_ok ''Cortex-M4''),
      jl_cpu_speed = sim_target (sim_ok 168000000),
      jl_rtt_read = (\<lambda>n k. sim_opened (sim_rtt_read n k)),
      jl_rtt_write = (\<lambda>n d. sim_opened (sim_rtt_write n d)),
      jl_close = (\<lambda>h w. (Inr (), False, sim_close_world w)),
      jl_MAX_BUF_SIZE = 336\<rparr>"

definition target_write :: "nat \<Rightarrow> byte list \<Rightarrow> sim_world \<Rightarrow> sim_world" where
  "target_write n d w =
     (if n < length (sw_up w) then w\<lparr>sw_up := (sw_up w)[n := fst (rb_write (sw_up w ! n) d)]\<rparr> else w)"

definition target_read :: "nat \<Rightarrow> nat \<Rightarrow> sim_world \<Rightarrow> byte list \<times> sim_world" where
  "target_read n k w =
     (if n < length (sw_down w)
      then (case rb_read (sw_down w ! n) k of (data, b) \<Rightarrow> (data, w\<lparr>sw_down := (sw_down w)[n := b]\<rparr>))
      else ([], w))"

definition target_echo :: "nat \<Rightarrow> nat \<Rightarrow> sim_world \<Rightarrow> sim_world" where
  "target_echo n k w = (case target_read n k w of (data, w') \<Rightarrow> target_write n data w')"

definition sim_inv :: "sim_world \<Rightarrow> bool" where
  "sim_inv w \<longleftrightarrow> list_all rb_inv (sw_up w) \<and> list_all rb_inv (sw_down w)"

definition sim_ready :: "(bool, sim_world) pstate \<Rightarrow> bool" where
  "sim_ready s \<longleftrightarrow> jlink s = Some True \<and> sw_open (world s) \<and> sw_connected (world s) \<and> sw_rtt (world s)"

text \<open>
  The same probe when the firmware runs during a read: the J-Link DLL reads
  \<open>RdOff\<close> and \<open>WrOff\<close>, copies, and stores the new \<open>RdOff\<close> while the target keeps
  executing. In \<open>sim_race_api d\<close> the firmware writes \<open>d\<close> to the channel being read
  between the host's offset snapshot and its copy (\<open>rb_read_interleaved\<close>); every other
  method is \<open>sim_api\<close>'s.
\<close>

definition sim_rtt_read_race :: "byte list \<Rightarrow> nat \<Rightarrow> nat \<Rightarrow> (bool, sim_world, byte list) meth" where
  "sim_rtt_read_race d n k h w =
     (if sw_rtt w \<and> n < length (sw_up w)
      then (case rb_read_interleaved (sw_up w ! n) k d of (data, b) \<Rightarrow> (Inr data, h, w\<lparr>sw_up := (sw_up w)[n := b]\<rparr>))
      else (Inl (JLinkException ''RTT read failed''), h, w))"

definition sim_race_api :: "byte list \<Rightarrow> (bool, sim_world) jlink_api" where
  "sim_race_api d = sim_api\<lparr>jl_rtt_read := (\<lambda>n k. sim_opened (sim_rtt_read_race d n k))\<rparr>"

text \<open>
  The same probe unplugged: \<open>open()\<close> raises, as pylink does when the DLL finds no
  emulator; every other method is \<open>sim_api\<close>'s.
\<close>

definition sim_absent_api :: "(bool, sim_world) jlink_api" where
  "sim_absent_api = sim_api\<lparr>jl_open := (\<lambda>h w. (Inl (JLinkException ''Cannot connect to J-Link.''), h, w))\<rparr>"

text \<open>
  The same probe attached to a target that does not answer (unpowered, held in reset,
  wrong chip): \<open>connect()\<close> raises a \<open>JLinkException\<close> with the text \<open>e\<close> once the
  emulator is open, as pylink does when the DLL's connect fails; every other method is
  \<open>sim_api\<close>'s.
\<close>

definition sim_silent_api :: "string \<Rightarrow> (bool, sim_world) jlink_api" where
  "sim_silent_api e = sim_api\<lparr>jl_connect := (\<lambda>c sp v. sim_opened (\<lambda>h w. (Inl (JLinkException e), h, w)))\<rparr>"

subsection \<open>The simulated library keeps the buffer invariant\<close>

lemma sim_api_fields [simp]:
  "jl_new sim_api w = (Inr False, w)"
  "jl_finalize sim_api h w = (if h then sim_close_world w else w)"
  "jl_disable_dialog_boxes sim_api = sim_ok ()"
  "jl_open sim_api = (\<lambda>h w. (Inr (), True, w\<lparr>sw_open := True\<rparr>))"
  "jl_rtt_stop sim_api = sim_opened (\<lambda>h w. (Inr (), h, w\<lparr>sw_rtt := False\<rparr>))"
  "jl_set_tif sim_api i = sim_opened (sim_ok ())"
  "jl_connect sim_api c sp v = sim_opened (\<lambda>h w. (Inr (), h, w\<lparr>sw_connected := True\<rparr>))"
  "jl_rtt_start sim_api = sim_target (\<lambda>h w. (Inr (), h, w\<lparr>sw_rtt := True\<rparr>))"
  "jl_endian_mode sim_api = sim_target (sim_ok [0])"
  "jl_speed sim_api = sim_opened (sim_ok 4000)"
  "jl_core_name sim_api = sim_target (sim_ok ''Cortex-M4'')"
  "jl_cpu_speed sim_api = sim_target (sim_ok 168000000)"
  "jl_rtt_read sim_api n k = sim_opened (sim_rtt_read n k)"
  "jl_rtt_write sim_api n d = sim_opened (sim_rtt_write n d)"
  "jl_close sim_api = (\<lambda>h w. (Inr (), False, sim_close_world w))"
  "jl_MAX_BUF_SIZE sim_api = 336"
  by (simp_all add: sim_api_def)

lemma sim_buffers_frame [simp]:
  "sw_up (sim_close_world w) = sw_up w" "sw_down (sim_close_world w) = sw_down w"
  by (simp_all add: sim_close_world_def)

lemma sim_inv_close [simp]: "sim_inv (sim_close_world w) = sim_inv w"
  by (simp add: sim_inv_def)

lemma list_all_update: "list_all P xs \<Longrightarrow> P x \<Longrightarrow> list_all P (xs[n := x])"
  by (auto simp: list_all_iff dest: set_update_subset_insert [THEN subsetD])

lemma list_all_nth: "list_all P xs \<Longrightarrow> n < length xs \<Longrightarrow> P (xs ! n)"
  by (simp add: list_all_length)

lemma list_all_rb_update [simp]:
  "list_all rb_inv xs \<Longrightarrow> n < length xs \<Longrightarrow> list_all rb_inv (xs[n := snd (rb_read (xs ! n) k)])"
  "list_all rb_inv xs \<Longrightarrow> n < length xs \<Longrightarrow> list_all rb_inv (xs[n := fst (rb_write (xs ! n) d)])"
  by (simp_all add: list_all_update rb_inv_ops list_all_nth)

lemma sim_inv_rtt:
  "sim_inv w \<Longrightarrow> sim_inv (snd (snd (sim_rtt_read n k h w)))"
  "sim_inv w \<Longrightarrow> sim_inv (snd (snd (sim_rtt_write n d h w)))"
  by (simp_all add: sim_rtt_read_def sim_rtt_write_def sim_inv_def case_prod_unfold)

lemma sim_inv_target:
  "sim_inv w \<Longrightarrow> sim_inv (target_write n d w)"
  "sim_inv w \<Longrightarrow> sim_inv (snd (target_read n k w))"
  "sim_inv w \<Longrightarrow> sim_inv (target_echo n k w)"
  by (simp_all add: target_write_def target_read_def target_echo_def sim_inv_def case_prod_unfold)

lemma sim_api_keeps: "api_keeps sim_inv sim_api"
  by (simp add: api_keeps_def meth_keeps_def sim_ok_def sim_opened_def sim_target_def sim_inv_rtt)
     (simp add: sim_inv_def)


subsection \<open>The dongle's methods on the simulated library\<close>

lemma connect_sim:
  "fst (connect sim_api s) = Inr () \<and> sim_ready (snd (connect sim_api s)) \<and>
   sw_up (world (snd (connect sim_api s))) = sw_up (world s) \<and>
   sw_down (world (snd (connect sim_api s))) = sw_down (world s)"
  by (simp add: connect_def check_exception_run connect_open_def connect_target_def connect_report_def
      thenE_def bindE_def new_jlink_def jcall_def print_line_def modifyE_def getsE_def ret_def
      sim_opened_def sim_target_def sim_ok_def Let_def sim_ready_def sim_close_world_def split: option.splits)

lemma reconnect_sim:
  assumes "jlink s \<noteq> None"
  shows "fst (reconnect sim_api s) = Inr () \<and> sim_ready (snd (reconnect sim_api s)) \<and>
   sw_up (world (snd (reconnect sim_api s))) = sw_up (world s) \<and>
   sw_down (world (snd (reconnect sim_api s))) = sw_down (world s)"
proof -
  obtain h where h: "jlink s = Some h" using assms by blast
  let ?s1 = "s\<lparr>jlink := Some False, world := sim_close_world (world s)\<rparr>"
  have c: "jcall (jl_close sim_api) s = (Inr (), ?s1)" using h by (simp add: jcall_def)
  have t: "thenE (jcall (jl_close sim_api)) (connect sim_api) s = connect sim_api ?s1"
    using thenE_Inr [where m = "jcall (jl_close sim_api)" and s = s, OF c] .
  obtain s2 where s2: "connect sim_api ?s1 = (Inr (), s2)"
    using connect_sim [of ?s1] by (metis prod.collapse)
  have "reconnect sim_api s = (Inr (), s2)"
    unfolding reconnect_def by (rule check_exception_Inr) (simp only: t s2)
  then show ?thesis using connect_sim [of ?s1] s2 by simp
qed

lemma read_rtt_sim:
  assumes "sim_ready s" "n < length (sw_up (world s))"
  shows "read_rtt sim_api n s =
           (Inr (fst (rb_read (sw_up (world s) ! n) 336)),
            s\<lparr>jlink := Some True,
              world := (world s)\<lparr>sw_up := (sw_up (world s))[n := snd (rb_read (sw_up (world s) ! n) 336)]\<rparr>\<rparr>)"
  using assms
  by (simp add: read_rtt_def check_exception_run jcall_def sim_ready_def sim_opened_def sim_rtt_read_def
                case_prod_unfold)

lemma connect_absent:
  "connect sim_absent_api s =
     (Inl (JLinkDongleException (dongle_error_message ''connect'' ''Cannot connect to J-Link.'')),
      s\<lparr>jlink := Some False, world := (if jlink s = Some True then sim_close_world (world s) else world s)\<rparr>)"
  by (simp add: connect_def check_exception_run connect_open_def thenE_def bindE_def new_jlink_def jcall_def
                sim_absent_api_def sim_api_def sim_ok_def split: option.splits)

lemma connect_silent:
  "connect (sim_silent_api e) s =
     (Inl (JLinkDongleException (dongle_error_message ''connect'' e)),
      s\<lparr>jlink := Some True,
        world := (if jlink s = Some True then sim_close_world (world s) else world s)\<lparr>sw_open := True, sw_rtt := False\<rparr>\<rparr>)"
  by (simp add: connect_def check_exception_run connect_open_def connect_target_def thenE_def bindE_def getsE_def
                new_jlink_def jcall_def sim_silent_api_def sim_api_def sim_ok_def sim_opened_def split: option.splits)

lemma read_rtt_race:
  assumes "sim_ready s" "n < length (sw_up (world s))"
  shows "read_rtt (sim_race_api d) n s =
           (Inr (fst (rb_read_interleaved (sw_up (world s) ! n) 336 d)),
            s\<lparr>world := (world s)\<lparr>sw_up := (sw_up (world s))[n := snd (rb_read_interleaved (sw_up (world s) ! n) 336 d)]\<rparr>\<rparr>)"
  using assms
  by (simp add: read_rtt_def check_exception_run jcall_def sim_ready_def sim_opened_def sim_rtt_read_race_def
                sim_race_api_def sim_api_def case_prod_unfold)

lemma write_rtt_sim:
  assumes "sim_ready s" "n < length (sw_down (world s))"
  shows "write_rtt sim_api d n s =
           (Inr (),
            s\<lparr>jlink := Some True,
              world := (world s)\<lparr>sw_down := (sw_down (world s))[n := fst (rb_write (sw_down (world s) ! n) d)]\<rparr>\<rparr>)"
  using assms
  by (simp add: write_rtt_def check_exception_run jcall_def sim_ready_def sim_opened_def sim_rtt_write_def
                case_prod_unfold thenE_def bindE_def ret_def)

lemma sim_ready_world [simp]:
  "sim_ready (s\<lparr>world := (world s)\<lparr>sw_up := u\<rparr>\<rparr>) = sim_ready s"
  "sim_ready (s\<lparr>world := (world s)\<lparr>sw_down := u\<rparr>\<rparr>) = sim_ready s"
  by (simp_all add: sim_ready_def)

lemma sim_ready_handle [simp]: "jlink s = Some h \<Longrightarrow> s\<lparr>jlink := Some h, world := w\<rparr> = s\<lparr>world := w\<rparr>"
  by simp

lemma sim_up_inv: "sim_inv w \<Longrightarrow> n < length (sw_up w) \<Longrightarrow> rb_inv (sw_up w ! n)"
  and sim_down_inv: "sim_inv w \<Longrightarrow> n < length (sw_down w) \<Longrightarrow> rb_inv (sw_down w ! n)"
  by (simp_all add: sim_inv_def list_all_nth)

lemma read_rtt_sim_step:
  assumes "sim_ready s" "sim_inv (world s)" "n < length (sw_up (world s))"
  shows "\<exists>s1. read_rtt sim_api n s = (Inr (take 336 (rb_content (sw_up (world s) ! n))), s1) \<and>
           sim_ready s1 \<and> sim_inv (world s1) \<and> length (sw_up (world s1)) = length (sw_up (world s)) \<and>
           rb_content (sw_up (world s1) ! n) = drop 336 (rb_content (sw_up (world s) ! n))"
proof -
  let ?b = "sw_up (world s) ! n"
  have b: "rb_inv ?b" using assms(2,3) by (rule sim_up_inv)
  note d = rb_read_take_drop(1) [OF b, of 336] and c = rb_read_take_drop(2) [OF b, of 336]
  have "sim_inv (world (snd (read_rtt sim_api n s)))"
    using dongle_ops_keep(1) [OF sim_api_keeps] assms(2) by (simp add: preserves_def)
  then show ?thesis using assms d c by (simp add: read_rtt_sim sim_ready_def)
qed

lemma sim_report_values:
  "show_nat 4000 = ''4000''" "fmt_mhz 168000000 = ''168.000''" "endian_name (int_from_bytes_big [0]) = ''Little''"
proof -
  show "show_nat 4000 = ''4000''" by (simp add: show_nat.simps digit_char_def)
  have "show_nat 168 = ''168''" "show_nat 0 = ''0''" by (simp_all add: show_nat.simps digit_char_def)
  moreover have "replicate 2 (CHR ''0'') = ''00''" by (simp add: eval_nat_numeral)
  ultimately show "fmt_mhz 168000000 = ''168.000''" by (simp add: fmt_mhz_def pad3_def)
  show "endian_name (int_from_bytes_big [0]) = ''Little''" by (simp add: endian_name_def int_from_bytes_big_def)
qed

subsection \<open>End-to-end properties\<close>

text \<open>
  C12. On a simulated probe that is open, connected and running RTT, with well-formed
  channel buffers, \<open>read_rtt(n)\<close> returns the oldest \<open>MAX_BUF_SIZE\<close> (336) pending
  bytes of up-channel \<open>n\<close> and removes exactly those: the other up-channels and all
  down-channels are unchanged, and the object stays connected with well-formed buffers.
\<close>

theorem read_rtt_sim_fifo:
  assumes "sim_ready s" "sim_inv (world s)" "n < length (sw_up (world s))"
  shows "fst (read_rtt sim_api n s) = Inr (take 336 (rb_content (sw_up (world s) ! n))) \<and>
         map rb_content (sw_up (world (snd (read_rtt sim_api n s)))) =
           (map rb_content (sw_up (world s)))[n := drop 336 (rb_content (sw_up (world s) ! n))] \<and>
         sw_down (world (snd (read_rtt sim_api n s))) = sw_down (world s) \<and>
         sim_ready (snd (read_rtt sim_api n s)) \<and> sim_inv (world (snd (read_rtt sim_api n s)))"
proof -
  let ?b = "sw_up (world s) ! n"
  have b: "rb_inv ?b" using assms(2,3) by (rule sim_up_inv)
  note r = rb_read_take_drop [OF b, of 336]
  show ?thesis
    using assms r b by (simp add: read_rtt_sim map_update sim_inv_def sim_ready_def)
qed

text \<open>
  C13. On the simulated probe, \<open>write_rtt(data, n)\<close> into a blocking down-channel
  returns normally and appends only the first \<open>free\<close> bytes of \<open>data\<close>: the rest is
  lost, and the caller cannot tell, because line 58 discards the count \<open>rtt_write\<close>
  returns.
\<close>

theorem write_rtt_sim_drops:
  assumes "sim_ready s" "sim_inv (world s)" "n < length (sw_down (world s))"
    "rb_mode (sw_down (world s) ! n) = Blocking"
  shows "fst (write_rtt sim_api d n s) = Inr () \<and>
         map rb_content (sw_down (world (snd (write_rtt sim_api d n s)))) =
           (map rb_content (sw_down (world s)))
             [n := rb_content (sw_down (world s) ! n) @ take (rb_free (sw_down (world s) ! n)) d] \<and>
         sw_up (world (snd (write_rtt sim_api d n s))) = sw_up (world s) \<and>
         sim_ready (snd (write_rtt sim_api d n s))"
proof -
  let ?b = "sw_down (world s) ! n"
  have b: "rb_inv ?b" using assms(2,3) by (rule sim_down_inv)
  have "rb_content (fst (rb_write ?b d)) = rb_content ?b @ take (rb_free ?b) d"
    using b assms(4) by (rule rb_write_blocking_content)
  then show ?thesis
    using assms by (simp add: write_rtt_sim map_update sim_ready_def)
qed

text \<open>
  C14. On the simulated probe \<open>connect\<close> succeeds from every state, leaves the object
  open, connected and running RTT, and keeps the target's channel buffers; so does
  \<open>reconnect\<close> once \<open>jlink\<close> is assigned. Data pending in the target survives a
  reconnect.
\<close>

theorem connect_sim_keeps_target:
  "fst (connect sim_api s) = Inr () \<and> sim_ready (snd (connect sim_api s)) \<and>
   sw_up (world (snd (connect sim_api s))) = sw_up (world s) \<and>
   sw_down (world (snd (connect sim_api s))) = sw_down (world s) \<and>
   (jlink s \<noteq> None \<longrightarrow>
      fst (reconnect sim_api s) = Inr () \<and> sim_ready (snd (reconnect sim_api s)) \<and>
      sw_up (world (snd (reconnect sim_api s))) = sw_up (world s) \<and>
      sw_down (world (snd (reconnect sim_api s))) = sw_down (world s))"
  using connect_sim [of s] reconnect_sim [of s] by blast

lemma rtt_loopback_run:
  assumes "sim_ready s" "sim_inv (world s)"
    and "n < length (sw_up (world s))" "n < length (sw_down (world s))"
    and "rb_mode (sw_up (world s) ! n) = Blocking" "rb_mode (sw_down (world s) ! n) = Blocking"
    and "rb_content (sw_up (world s) ! n) = []" "rb_content (sw_down (world s) ! n) = []"
    and "length d < rb_size (sw_up (world s) ! n)" "length d < rb_size (sw_down (world s) ! n)"
    and "length d \<le> k" "length d \<le> 336"
  shows "fst (read_rtt sim_api n
           ((snd (write_rtt sim_api d n s))\<lparr>world := target_echo n k (world (snd (write_rtt sim_api d n s)))\<rparr>)) =
         Inr d"
proof -
  let ?bu = "sw_up (world s) ! n" and ?bd = "sw_down (world s) ! n"
  let ?bd1 = "fst (rb_write ?bd d)"
  let ?bu1 = "fst (rb_write ?bu d)"
  have bu: "rb_inv ?bu" and bd: "rb_inv ?bd" using assms(2-4) by (simp_all add: sim_inv_def list_all_nth)
  have bd1: "rb_content ?bd1 = d" "rb_inv ?bd1"
    using rb_write_fits [OF bd assms(6), of d] assms(8,10) by simp_all
  have rd: "fst (rb_read ?bd1 k) = d" using rb_read_all [OF bd1(2), of k] bd1(1) assms(11) by simp
  have bu1: "rb_content ?bu1 = d" "rb_inv ?bu1"
    using rb_write_fits [OF bu assms(5), of d] assms(7,9) by simp_all
  have rd2: "fst (rb_read ?bu1 336) = d" using rb_read_all [OF bu1(2), of 336] bu1(1) assms(12) by simp
  let ?s1 = "snd (write_rtt sim_api d n s)"
  have s1: "?s1 = s\<lparr>world := (world s)\<lparr>sw_down := (sw_down (world s))[n := ?bd1]\<rparr>\<rparr>"
    using assms(1,4) by (simp add: write_rtt_sim sim_ready_def)
  have echo: "target_echo n k ((world s)\<lparr>sw_down := (sw_down (world s))[n := ?bd1]\<rparr>) =
                (world s)\<lparr>sw_up := (sw_up (world s))[n := ?bu1],
                          sw_down := (sw_down (world s))[n := snd (rb_read ?bd1 k)]\<rparr>"
    using assms(3,4) rd
    by (simp add: target_echo_def target_read_def target_write_def case_prod_unfold)
  let ?s2 = "?s1\<lparr>world := target_echo n k (world ?s1)\<rparr>"
  have s2: "sim_ready ?s2" "n < length (sw_up (world ?s2))" "sw_up (world ?s2) ! n = ?bu1"
    using assms(1,3) by (simp_all add: echo s1 sim_ready_def)
  show ?thesis using read_rtt_sim [OF s2(1,2)] s2(3) rd2 by simp
qed

text \<open>
  C15. Loopback round trip (spec section 6): with empty blocking channels \<open>n\<close> large
  enough for \<open>data\<close>, writing \<open>data\<close> with \<open>write_rtt\<close>, letting the target firmware
  echo channel \<open>n\<close> (read the down-buffer, write what it read to the up-buffer), and
  reading with \<open>read_rtt\<close> returns \<open>data\<close>, in order.
\<close>

theorem rtt_loopback:
  assumes "sim_ready s" "sim_inv (world s)"
    and "n < length (sw_up (world s))" "n < length (sw_down (world s))"
    and "rb_mode (sw_up (world s) ! n) = Blocking" "rb_mode (sw_down (world s) ! n) = Blocking"
    and "rb_content (sw_up (world s) ! n) = []" "rb_content (sw_down (world s) ! n) = []"
    and "length d < rb_size (sw_up (world s) ! n)" "length d < rb_size (sw_down (world s) ! n)"
    and "length d \<le> k" "length d \<le> 336"
  shows "fst (read_rtt sim_api n
           ((snd (write_rtt sim_api d n s))\<lparr>world := target_echo n k (world (snd (write_rtt sim_api d n s)))\<rparr>)) =
         Inr d"
  by (rule rtt_loopback_run [OF assms])

text \<open>
  C22. On the simulated probe \<open>connect\<close> prints exactly the five report lines of lines
  46--50, in order: an empty line, the chip name, the probe speed (4000 kHz, under the
  label ``RTT RX buffers''), the endianness and core, and the CPU clock in MHz with
  three decimals.
\<close>

theorem connect_sim_report:
  "stdout (snd (connect sim_api s)) =
     stdout s @ ['''', ''Connected to: '' @ chip_name s, ''RTT RX buffers at 4000 kHz'',
                 ''connected to Little-Endian Cortex-M4'', ''running at 168.000 MHz'']"
  using sim_report_values
  by (simp add: connect_def check_exception_run connect_open_def connect_target_def connect_report_def
      thenE_def bindE_def new_jlink_def jcall_def print_line_def modifyE_def getsE_def ret_def
      sim_opened_def sim_target_def sim_ok_def Let_def sim_close_world_def split: option.splits)

end
