(* ===== verification/RTT_Strings.thy ===== *)
theory RTT_Strings
  imports JLink_Sim
begin

text \<open>
  The string methods \<open>read_rtt_string\<close> and \<open>write_rtt_sring\<close> (lines 60--67) over
  any library and over the simulated probe: what a decoded string can contain, how long
  it can be, and what happens to the bytes of a read that does not decode.
\<close>

subsection \<open>Facts of the codec\<close>

lemma utf8_encode_from_scalar: "utf8_encode_from i s = Inr bs \<Longrightarrow> list_all is_scalar s"
  by (induction s arbitrary: i bs) (auto split: if_splits sum.splits)

lemma enc_cp_ne [simp]: "enc_cp c \<noteq> []"
  by (simp add: enc_cp_def)

lemma utf8_encode_from_length: "utf8_encode_from i s = Inr bs \<Longrightarrow> length s \<le> length bs"
proof (induction s arbitrary: i bs)
  case Nil
  then show ?case by simp
next
  case (Cons c s)
  then obtain bs' where "utf8_encode_from (Suc i) s = Inr bs'" "bs = map of_nat (enc_cp c) @ bs'"
    by (auto split: if_splits sum.splits)
  with Cons.IH [of "Suc i" bs'] show ?case by (cases "enc_cp c") auto
qed

lemma utf8_decode_facts:
  assumes "utf8_decode bs = Inr s"
  shows "list_all is_scalar s" "length s \<le> length bs"
  using utf8_canonical_from [OF assms [unfolded utf8_decode_def], of 0]
  by (simp_all add: utf8_encode_from_scalar utf8_encode_from_length)

lemma utf8_decode_from_ascii:
  "list_all (\<lambda>b. unat b < 0x80) as \<Longrightarrow>
   utf8_decode_from i (as @ rest) =
     (case utf8_decode_from (i + length as) rest of Inl j \<Rightarrow> Inl j | Inr s \<Rightarrow> Inr (map unat as @ s))"
proof (induction as arbitrary: i)
  case Nil
  then show ?case by (simp split: sum.split)
next
  case (Cons a as)
  then show ?case by (simp add: seq_defs Let_def split: sum.split)
qed

subsection \<open>Reads on the simulated probe\<close>

lemma rb_copy_out_length: "length (rb_copy_out mem rd m) \<le> m"
proof -
  let ?c = "min m (length mem - rd)"
  have a: "length (take ?c (drop rd mem)) \<le> ?c" "length (take (m - ?c) mem) \<le> m - ?c" "?c \<le> m"
    by simp_all
  have "length (rb_copy_out mem rd m) = length (take ?c (drop rd mem)) + length (take (m - ?c) mem)"
    by (simp add: rb_copy_out_def Let_def del: length_take)
  with a show ?thesis by linarith
qed

lemma rb_read_length: "length (fst (rb_read b k)) \<le> k"
  using rb_copy_out_length [of "rb_mem b" "rb_rd b" "min k (rb_used b)"] by (simp add: rb_read_def Let_def)

lemma read_rtt_sim_length: "fst (read_rtt sim_api n s) = Inr d \<Longrightarrow> length d \<le> 336"
  by (auto simp: read_rtt_def check_exception_run jcall_def sim_opened_def sim_rtt_read_def case_prod_unfold
                 rb_read_length split: option.splits if_splits pyexc.splits sum.splits prod.splits)

lemma read_rtt_string_run:
  "read_rtt_string api n s =
     (case read_rtt api n s of
        (Inl e, s') \<Rightarrow> (Inl e, s')
      | (Inr d, s') \<Rightarrow>
          if d \<noteq> [] then (case utf8_decode d of Inl i \<Rightarrow> (Inl (UnicodeDecodeError i), s') | Inr str \<Rightarrow> (Inr str, s'))
          else (Inr [], s'))"
  by (simp add: read_rtt_string_def bindE_def ret_def throw_def split: prod.split sum.split)

lemma utf8_decoded_encodes: "utf8_decode bs = Inr str \<Longrightarrow> utf8_encode str = Inr bs"
  unfolding utf8_encode_def utf8_decode_def by (rule utf8_canonical_from)

lemma read_rtt_string_bytes:
  assumes "fst (read_rtt api n s) = Inr d" "fst (read_rtt_string api n s) = Inr str"
  shows "utf8_encode str = Inr d"
proof (cases "d = []")
  case True
  then show ?thesis using assms by (simp add: read_rtt_string_run utf8_encode_def split: prod.splits)
next
  case False
  then show ?thesis using assms
    by (auto simp: read_rtt_string_run utf8_decoded_encodes split: prod.splits sum.splits)
qed

subsection \<open>Properties of the string methods\<close>

text \<open>
  C18. On the simulated probe a single \<open>read_rtt\<close> returns at most \<open>MAX_BUF_SIZE\<close>
  (336) bytes and a single \<open>read_rtt_string\<close> at most 336 characters, in every state.
\<close>

theorem read_rtt_sim_bounds:
  "(fst (read_rtt sim_api n s) = Inr d \<longrightarrow> length d \<le> 336) \<and>
   (fst (read_rtt_string sim_api n s) = Inr str \<longrightarrow> length str \<le> 336)"
proof (intro conjI impI)
  show "fst (read_rtt sim_api n s) = Inr d \<Longrightarrow> length d \<le> 336" by (rule read_rtt_sim_length)
  assume r: "fst (read_rtt_string sim_api n s) = Inr str"
  show "length str \<le> 336"
  proof (cases "read_rtt sim_api n s")
    case (Pair x s')
    then show ?thesis using r read_rtt_sim_length [of n s] utf8_decode_facts(2) [of _ str]
      by (fastforce simp: read_rtt_string_run split: sum.splits if_splits)
  qed
qed

text \<open>
  C19. On the simulated probe, when the bytes \<open>read_rtt\<close> fetches (the first 336
  pending) do not decode, \<open>read_rtt_string\<close> raises \<open>UnicodeDecodeError\<close> and those
  bytes are gone from the target's buffer: the valid text among them is lost with the
  bad byte. The read at line 61 consumes before line 63 decodes.
\<close>

theorem read_rtt_string_sim_loses_chunk:
  assumes "sim_ready s" "sim_inv (world s)" "n < length (sw_up (world s))"
    and "rb_content (sw_up (world s) ! n) \<noteq> []"
    and "utf8_decode (take 336 (rb_content (sw_up (world s) ! n))) = Inl i"
  shows "fst (read_rtt_string sim_api n s) = Inl (UnicodeDecodeError i) \<and>
         rb_content (sw_up (world (snd (read_rtt_string sim_api n s))) ! n) =
           drop 336 (rb_content (sw_up (world s) ! n)) \<and>
         sim_ready (snd (read_rtt_string sim_api n s))"
proof -
  obtain s1 where "read_rtt sim_api n s = (Inr (take 336 (rb_content (sw_up (world s) ! n))), s1)"
    "sim_ready s1" "rb_content (sw_up (world s1) ! n) = drop 336 (rb_content (sw_up (world s) ! n))"
    using read_rtt_sim_step [OF assms(1-3)] by blast
  then show ?thesis using assms(4,5) by (simp add: read_rtt_string_run)
qed

text \<open>
  C6. Round trip through the string methods (spec section 6): with empty blocking
  channels \<open>n\<close> large enough for its UTF-8 encoding, writing a string with
  \<open>write_rtt_sring\<close>, letting the target firmware echo channel \<open>n\<close>, and reading with
  \<open>read_rtt_string\<close> returns the same string. \<open>write_rtt_sring\<close> encodes with
  \<open>str.encode(data, 'utf-8')\<close> and \<open>read_rtt_string\<close> decodes with
  \<open>bytes(data).decode('utf-8')\<close>; a different codec on either side, or a decoder that
  drops or replaces bytes, returns another string for some input.
\<close>

theorem rtt_string_loopback:
  assumes "sim_ready s" "sim_inv (world s)"
    and "n < length (sw_up (world s))" "n < length (sw_down (world s))"
    and "rb_mode (sw_up (world s) ! n) = Blocking" "rb_mode (sw_down (world s) ! n) = Blocking"
    and "rb_content (sw_up (world s) ! n) = []" "rb_content (sw_down (world s) ! n) = []"
    and enc: "utf8_encode str = Inr d"
    and "length d < rb_size (sw_up (world s) ! n)" "length d < rb_size (sw_down (world s) ! n)"
    and "length d \<le> k" "length d \<le> 336"
  shows "fst (read_rtt_string sim_api n
           ((snd (write_rtt_sring sim_api str n s))\<lparr>world := target_echo n k (world (snd (write_rtt_sring sim_api str n s)))\<rparr>)) =
         Inr str"
proof -
  have w: "write_rtt_sring sim_api str n s = write_rtt sim_api d n s" using enc by (simp add: write_rtt_sring_def)
  let ?s2 = "(snd (write_rtt sim_api d n s))\<lparr>world := target_echo n k (world (snd (write_rtt sim_api d n s)))\<rparr>"
  have r: "fst (read_rtt sim_api n ?s2) = Inr d" using assms(1-8,10-13) by (rule rtt_loopback_run)
  have dec: "utf8_decode d = Inr str" using enc by (rule utf8_decode_encode)
  have "d = [] \<Longrightarrow> str = []" using dec by (simp add: utf8_decode_def)
  then show ?thesis using r dec w by (auto simp: read_rtt_string_run split: prod.splits)
qed

end
