(* ===== verification/RTT_Session.thy ===== *)
theory RTT_Session
  imports RTT_Strings
begin

text \<open>
  A session: what a terminal loop built on \<open>JLinkDongle\<close> does (spec section 5), as an
  inductive relation over the object's state. From a fresh object on a probe with empty
  channels, any sequence of the dongle's calls (\<open>host_exec\<close>: \<open>connect\<close>,
  \<open>reconnect\<close>, \<open>read_rtt\<close>, \<open>read_rtt_string\<close>, \<open>write_rtt\<close>, \<open>write_rtt_sring\<close>,
  successful or not) interleaved with firmware writes to up-channels and reads from
  down-channels is a session. \<open>host_exec\<close> returns the state and what the call returns
  to the caller: the exception it raises or its value. A session is \<open>racing\<close> when a
  \<open>read_rtt\<close> may also run while the firmware writes the channel being read (rule
  \<open>race\<close>, against \<open>sim_race_api\<close>); it has \<open>faults\<close> when the probe may lose the
  connection at any moment (rule \<open>lose\<close>: the DLL connection closes, the target is
  disconnected and RTT stops, target memory and the object's handle stay), which is
  what \<open>reconnect\<close> exists for. With \<open>faults\<close>, \<open>connect\<close> may also run while the
  probe is unplugged (rule \<open>absent\<close>) or while the target does not answer (rule
  \<open>silent\<close>).

  Ghost histories (\<open>rtt_hist\<close>) ride along. Up direction: \<open>h_sent n\<close>, the bytes
  \<open>SEGGER_RTT_Write\<close> reported it accepted into up-channel \<open>n\<close>; \<open>h_got n\<close>, the bytes
  \<open>read_rtt(n)\<close> returned, to the caller or inside \<open>read_rtt_string\<close>; \<open>h_dlv n\<close>, one
  \<open>delivery\<close> per such read: the bytes returned (\<open>DBytes\<close>), the text
  \<open>read_rtt_string\<close> returned (\<open>DText\<close>), or the chunk it consumed and then raised on
  (\<open>DLost\<close>). Down direction: \<open>h_wrote n\<close>, the data of each \<open>write_rtt\<close> call (directly
  or from \<open>write_rtt_sring\<close>) that returned normally; \<open>h_taken n\<close>, the bytes of those
  calls that down-channel \<open>n\<close> accepted; \<open>h_recv n\<close>, the bytes the firmware has read.

  This theory holds the relation, the runs of the dongle's calls on the simulated probe
  that every invariant uses, and the connection invariant \<open>conn_inv\<close> (C16, C26). \<open>Session_Up\<close> and
  \<open>Session_Down\<close> hold the invariants of the two directions.
\<close>

subsection \<open>Sessions\<close>

datatype host_op =
  HConnect | HReconnect | HRead nat | HReadStr nat | HWrite "byte list" nat | HWriteStr pystr nat

datatype host_val = VNone | VBytes "byte list" | VText pystr

definition host_call ::
  "(bool, sim_world, 'a) prog \<Rightarrow> ('a \<Rightarrow> host_val) \<Rightarrow> (bool, sim_world) pstate \<Rightarrow>
     (bool, sim_world) pstate \<times> (pyexc + host_val)" where
  "host_call m f s = (case m s of (r, s') \<Rightarrow> (s', map_sum id f r))"

definition host_exec :: "host_op \<Rightarrow> (bool, sim_world) pstate \<Rightarrow> (bool, sim_world) pstate \<times> (pyexc + host_val)" where
  "host_exec op s =
     (case op of
        HConnect \<Rightarrow> host_call (connect sim_api) (\<lambda>_. VNone) s
      | HReconnect \<Rightarrow> host_call (reconnect sim_api) (\<lambda>_. VNone) s
      | HRead n \<Rightarrow> host_call (read_rtt sim_api n) VBytes s
      | HReadStr n \<Rightarrow> host_call (read_rtt_string sim_api n) VText s
      | HWrite d n \<Rightarrow> host_call (write_rtt sim_api d n) (\<lambda>_. VNone) s
      | HWriteStr t n \<Rightarrow> host_call (write_rtt_sring sim_api t n) (\<lambda>_. VNone) s)"

datatype delivery = DBytes "byte list" | DText pystr | DLost "byte list"

primrec dlv_bytes :: "delivery \<Rightarrow> byte list" where
  "dlv_bytes (DBytes b) = b"
| "dlv_bytes (DText t) = (case utf8_encode t of Inr b \<Rightarrow> b | Inl _ \<Rightarrow> [])"
| "dlv_bytes (DLost b) = b"

record rtt_hist =
  h_sent :: "nat \<Rightarrow> byte list"
  h_got :: "nat \<Rightarrow> byte list"
  h_dlv :: "nat \<Rightarrow> delivery list"
  h_wrote :: "nat \<Rightarrow> byte list list"
  h_taken :: "nat \<Rightarrow> byte list"
  h_recv :: "nat \<Rightarrow> byte list"

definition hist0 :: rtt_hist where
  "hist0 = \<lparr>h_sent = (\<lambda>_. []), h_got = (\<lambda>_. []), h_dlv = (\<lambda>_. []), h_wrote = (\<lambda>_. []),
            h_taken = (\<lambda>_. []), h_recv = (\<lambda>_. [])\<rparr>"

definition host_read_hist :: "nat \<Rightarrow> byte list \<Rightarrow> delivery \<Rightarrow> rtt_hist \<Rightarrow> rtt_hist" where
  "host_read_hist n b dl h = h\<lparr>h_got := (h_got h)(n := h_got h n @ b), h_dlv := (h_dlv h)(n := h_dlv h n @ [dl])\<rparr>"

definition host_write_hist :: "byte list \<Rightarrow> nat \<Rightarrow> (bool, sim_world) pstate \<Rightarrow> rtt_hist \<Rightarrow> rtt_hist" where
  "host_write_hist d n s h =
     (if fst (write_rtt sim_api d n s) = Inr ()
      then h\<lparr>h_wrote := (h_wrote h)(n := h_wrote h n @ [d]),
             h_taken := (h_taken h)(n := h_taken h n @ take (snd (rb_write (sw_down (world s) ! n) d)) d)\<rparr>
      else h)"

definition host_hist :: "host_op \<Rightarrow> (bool, sim_world) pstate \<Rightarrow> rtt_hist \<Rightarrow> rtt_hist" where
  "host_hist op s h =
     (case op of
        HRead n \<Rightarrow> (case fst (read_rtt sim_api n s) of Inr b \<Rightarrow> host_read_hist n b (DBytes b) h | Inl _ \<Rightarrow> h)
      | HReadStr n \<Rightarrow>
          (case fst (read_rtt sim_api n s) of
             Inr b \<Rightarrow> host_read_hist n b (case fst (read_rtt_string sim_api n s) of Inr t \<Rightarrow> DText t | Inl _ \<Rightarrow> DLost b) h
           | Inl _ \<Rightarrow> h)
      | HWrite d n \<Rightarrow> host_write_hist d n s h
      | HWriteStr t n \<Rightarrow> (case utf8_encode t of Inr d \<Rightarrow> host_write_hist d n s h | Inl _ \<Rightarrow> h)
      | _ \<Rightarrow> h)"

definition chan_ready :: "sim_world \<Rightarrow> bool" where
  "chan_ready w \<longleftrightarrow> list_all (\<lambda>b. rb_content b = []) (sw_up w) \<and>
                    list_all (\<lambda>b. rb_content b = [] \<and> rb_mode b = Blocking) (sw_down w)"

inductive session :: "bool \<Rightarrow> bool \<Rightarrow> (bool, sim_world) pstate \<Rightarrow> rtt_hist \<Rightarrow> bool"
  for racing :: bool and faults :: bool where
  start: "sim_inv w \<Longrightarrow> chan_ready w \<Longrightarrow> session racing faults (JLinkDongle_init i sp chip w) hist0"
| host: "session racing faults s h \<Longrightarrow> session racing faults (fst (host_exec op s)) (host_hist op s h)"
| fw_write: "session racing faults s h \<Longrightarrow> n < length (sw_up (world s)) \<Longrightarrow>
      session racing faults (s\<lparr>world := target_write n d (world s)\<rparr>)
              (h\<lparr>h_sent := (h_sent h)(n := h_sent h n @ take (snd (rb_write (sw_up (world s) ! n) d)) d)\<rparr>)"
| fw_read: "session racing faults s h \<Longrightarrow>
      session racing faults (s\<lparr>world := snd (target_read n k (world s))\<rparr>)
              (h\<lparr>h_recv := (h_recv h)(n := h_recv h n @ fst (target_read n k (world s)))\<rparr>)"
| race: "racing \<Longrightarrow> session racing faults s h \<Longrightarrow> sim_ready s \<Longrightarrow> n < length (sw_up (world s)) \<Longrightarrow>
      read_rtt (sim_race_api d) n s = (Inr r, s') \<Longrightarrow>
      session racing faults s' (host_read_hist n r (DBytes r)
        (h\<lparr>h_sent := (h_sent h)(n := h_sent h n @ take (snd (rb_write (sw_up (world s) ! n) d)) d)\<rparr>))"
| lose: "faults \<Longrightarrow> session racing faults s h \<Longrightarrow> session racing faults (s\<lparr>world := sim_close_world (world s)\<rparr>) h"
| absent: "faults \<Longrightarrow> session racing faults s h \<Longrightarrow> session racing faults (snd (connect sim_absent_api s)) h"
| silent: "faults \<Longrightarrow> session racing faults s h \<Longrightarrow> session racing faults (snd (connect (sim_silent_api e) s)) h"

definition sim_lost :: "(bool, sim_world) pstate \<Rightarrow> bool" where
  "sim_lost s \<longleftrightarrow> jlink s = Some False \<or> jlink s = Some True \<and> \<not> sw_rtt (world s)"

definition conn_inv :: "bool \<Rightarrow> (bool, sim_world) pstate \<Rightarrow> bool" where
  "conn_inv faults s \<longleftrightarrow> sim_inv (world s) \<and> (jlink s = None \<or> sim_ready s \<or> faults \<and> sim_lost s)"

subsection \<open>The dongle's calls in a session\<close>

abbreviation rtt_exc :: pyexc where
  "rtt_exc \<equiv> JLinkDongleException ''Do not read/write from RTT Terminal''"

lemma read_rtt_sim_error:
  assumes "sim_ready s" "\<not> n < length (sw_up (world s))"
  shows "read_rtt sim_api n s = (Inl rtt_exc, s)"
  using assms
  by (simp add: read_rtt_def check_exception_run jcall_def sim_ready_def sim_opened_def sim_rtt_read_def
                dongle_error_message_def rtt_names_def)

lemma write_rtt_sim_error:
  assumes "sim_ready s" "\<not> n < length (sw_down (world s))"
  shows "write_rtt sim_api d n s = (Inl rtt_exc, s)"
  using assms
  by (simp add: write_rtt_def check_exception_run jcall_def sim_ready_def sim_opened_def sim_rtt_write_def
                dongle_error_message_def rtt_names_def thenE_def bindE_def)

lemma unset_ops:
  assumes "jlink s = None"
  shows "read_rtt api n s = (Inl jlink_unset, s)" "write_rtt api d n s = (Inl jlink_unset, s)"
    "reconnect api s = (Inl jlink_unset, s)"
  using assms
  by (simp_all add: read_rtt_def write_rtt_def reconnect_def jcall_unset check_exception_other thenE_Inl)

lemma read_rtt_sim_lost: "sim_lost s \<Longrightarrow> read_rtt sim_api n s = (Inl rtt_exc, s)"
  unfolding sim_lost_def
  by (elim disjE conjE)
     (simp_all add: read_rtt_def check_exception_run jcall_def sim_opened_def sim_rtt_read_def
                    dongle_error_message_def rtt_names_def)

lemma write_rtt_sim_lost: "sim_lost s \<Longrightarrow> write_rtt sim_api d n s = (Inl rtt_exc, s)"
  unfolding sim_lost_def
  by (elim disjE conjE)
     (simp_all add: write_rtt_def check_exception_run jcall_def sim_opened_def sim_rtt_write_def
                    dongle_error_message_def rtt_names_def thenE_def bindE_def)

lemma read_rtt_sim_run:
  assumes "jlink s = None \<or> sim_ready s \<or> sim_lost s"
  shows "read_rtt sim_api n s =
           (if jlink s = None then (Inl jlink_unset, s)
            else if sim_ready s \<and> n < length (sw_up (world s))
            then (Inr (fst (rb_read (sw_up (world s) ! n) 336)),
                  s\<lparr>world := (world s)\<lparr>sw_up := (sw_up (world s))[n := snd (rb_read (sw_up (world s) ! n) 336)]\<rparr>\<rparr>)
            else (Inl rtt_exc, s))"
  using assms by (elim disjE) (auto simp: unset_ops read_rtt_sim read_rtt_sim_error read_rtt_sim_lost
                                        sim_ready_def sim_lost_def)

lemma write_rtt_sim_run:
  assumes "jlink s = None \<or> sim_ready s \<or> sim_lost s"
  shows "write_rtt sim_api d n s =
           (if jlink s = None then (Inl jlink_unset, s)
            else if sim_ready s \<and> n < length (sw_down (world s))
            then (Inr (),
                  s\<lparr>world := (world s)\<lparr>sw_down := (sw_down (world s))[n := fst (rb_write (sw_down (world s) ! n) d)]\<rparr>\<rparr>)
            else (Inl rtt_exc, s))"
  using assms by (elim disjE) (auto simp: unset_ops write_rtt_sim write_rtt_sim_error write_rtt_sim_lost
                                        sim_ready_def sim_lost_def)

lemma host_exec_state:
  "fst (host_exec op s) =
     (case op of
        HConnect \<Rightarrow> snd (connect sim_api s)
      | HReconnect \<Rightarrow> snd (reconnect sim_api s)
      | HRead n \<Rightarrow> snd (read_rtt sim_api n s)
      | HReadStr n \<Rightarrow> snd (read_rtt sim_api n s)
      | HWrite d n \<Rightarrow> snd (write_rtt sim_api d n s)
      | HWriteStr t n \<Rightarrow> (case utf8_encode t of Inl _ \<Rightarrow> s | Inr d \<Rightarrow> snd (write_rtt sim_api d n s)))"
  by (simp add: host_exec_def host_call_def read_rtt_string_run write_rtt_sring_def throw_def case_prod_unfold
           split: host_op.split sum.split)

lemma conn_inv_calls:
  assumes "conn_inv faults s"
  shows "conn_inv faults (snd (read_rtt sim_api n s))" "conn_inv faults (snd (write_rtt sim_api d n s))"
    "conn_inv faults (snd (connect sim_api s))" "conn_inv faults (snd (reconnect sim_api s))"
proof -
  have si: "sim_inv (world s)" and st: "jlink s = None \<or> sim_ready s \<or> sim_lost s"
    using assms by (auto simp: conn_inv_def)
  show "conn_inv faults (snd (read_rtt sim_api n s))" "conn_inv faults (snd (write_rtt sim_api d n s))"
    using assms si st by (auto simp: conn_inv_def read_rtt_sim_run write_rtt_sim_run sim_inv_def sim_ready_def)
  show "conn_inv faults (snd (connect sim_api s))"
    using connect_sim [of s] connect_keeps [OF sim_api_keeps] si by (simp add: conn_inv_def preserves_def)
  show "conn_inv faults (snd (reconnect sim_api s))"
  proof (cases "jlink s = None")
    case True
    then show ?thesis using assms by (simp add: unset_ops)
  next
    case False
    then show ?thesis using reconnect_sim [of s] dongle_ops_keep(3) [OF sim_api_keeps] si
      by (simp add: conn_inv_def preserves_def)
  qed
qed

lemma call_frames:
  assumes "conn_inv faults s"
  shows "sw_down (world (snd (read_rtt sim_api n s))) = sw_down (world s)"
    "sw_up (world (snd (write_rtt sim_api d n s))) = sw_up (world s)"
    "sw_up (world (snd (connect sim_api s))) = sw_up (world s)"
    "sw_down (world (snd (connect sim_api s))) = sw_down (world s)"
    "sw_up (world (snd (reconnect sim_api s))) = sw_up (world s)"
    "sw_down (world (snd (reconnect sim_api s))) = sw_down (world s)"
proof -
  have st: "jlink s = None \<or> sim_ready s \<or> sim_lost s" using assms by (auto simp: conn_inv_def)
  then show "sw_down (world (snd (read_rtt sim_api n s))) = sw_down (world s)"
    "sw_up (world (snd (write_rtt sim_api d n s))) = sw_up (world s)"
    by (simp_all add: read_rtt_sim_run write_rtt_sim_run)
  show "sw_up (world (snd (connect sim_api s))) = sw_up (world s)"
    "sw_down (world (snd (connect sim_api s))) = sw_down (world s)"
    using connect_sim [of s] by simp_all
  have "sw_up (world (snd (reconnect sim_api s))) = sw_up (world s) \<and>
        sw_down (world (snd (reconnect sim_api s))) = sw_down (world s)"
    using reconnect_sim [of s] by (cases "jlink s = None") (simp_all add: unset_ops)
  then show "sw_up (world (snd (reconnect sim_api s))) = sw_up (world s)"
    "sw_down (world (snd (reconnect sim_api s))) = sw_down (world s)" by simp_all
qed

lemma conn_inv_run:
  assumes "conn_inv faults s"
  shows "jlink s = None \<or> sim_ready s \<or> sim_lost s" "sim_inv (world s)"
  using assms by (auto simp: conn_inv_def)

lemma conn_inv_host: "conn_inv faults s \<Longrightarrow> conn_inv faults (fst (host_exec op s))"
  by (cases op) (simp_all add: host_exec_state conn_inv_calls split: sum.split)

lemma session_conn: "session racing faults s h \<Longrightarrow> conn_inv faults s"
proof (induction rule: session.induct)
  case (start w i sp chip)
  then show ?case by (simp add: conn_inv_def JLinkDongle_init_def)
next
  case (host s h op)
  from host.IH show ?case by (rule conn_inv_host)
next
  case (fw_write s h n d)
  then show ?case using sim_inv_target(1) [of "world s" n d]
    by (simp add: conn_inv_def sim_ready_def sim_lost_def target_write_def)
next
  case (fw_read s h n k)
  then show ?case using sim_inv_target(2) [of "world s" n k]
    by (simp add: conn_inv_def sim_ready_def sim_lost_def target_read_def case_prod_unfold)
next
  case (race s h n d r s')
  have "rb_inv (sw_up (world s) ! n)" using race.IH race.hyps(4) by (simp add: conn_inv_def sim_up_inv)
  then have "rb_inv (snd (rb_read_interleaved (sw_up (world s) ! n) 336 d))" by (rule rb_read_interleaved_inv)
  then show ?case using race.IH race.hyps(3-5) read_rtt_race [OF race.hyps(3,4), of d]
    by (auto simp: conn_inv_def sim_inv_def sim_ready_def intro: list_all_update)
next
  case (lose s h)
  then show ?case by (auto simp: conn_inv_def sim_ready_def sim_lost_def sim_close_world_def sim_inv_def)
next
  case (absent s h)
  then show ?case by (simp add: connect_absent conn_inv_def sim_lost_def sim_ready_def sim_inv_def)
next
  case (silent s h e)
  then show ?case by (simp add: connect_silent conn_inv_def sim_lost_def sim_ready_def sim_inv_def sim_close_world_def)
qed

subsection \<open>Properties of sessions\<close>

text \<open>
  C16. In every session without connection losses (any interleaving of \<open>connect\<close>,
  \<open>reconnect\<close>, \<open>read_rtt\<close>, \<open>read_rtt_string\<close>, \<open>write_rtt\<close> and \<open>write_rtt_sring\<close>
  calls with firmware reads and writes, starting from a fresh object, racing or not), the
  channel buffers are well formed and the object is either still unconnected
  (\<open>jlink\<close> unassigned) or open, connected and running RTT: no sequence of calls leaves
  it in between.
\<close>

theorem session_connection_state:
  assumes "session racing False s h"
  shows "sim_inv (world s) \<and> (jlink s = None \<or> sim_ready s)"
  using session_conn [OF assms] by (simp add: conn_inv_def)

text \<open>
  C26. After the probe loses the connection (USB unplugged, probe reset) the object keeps
  its handle and is neither unconnected nor ready; only a session with faults gets
  there. Then \<open>read_rtt\<close>, \<open>read_rtt_string\<close> and \<open>write_rtt\<close> raise
  \<open>JLinkDongleException('Do not read/write from RTT Terminal')\<close>, pylink's
  \<open>J-Link DLL is not open\<close> being relabelled and its text dropped (C9), and change
  nothing: the target's pending data stays where it is.
\<close>

theorem session_lost_connection:
  assumes "session racing faults s h" "jlink s \<noteq> None" "\<not> sim_ready s"
  shows "faults \<and> read_rtt sim_api n s = (Inl rtt_exc, s) \<and> read_rtt_string sim_api n s = (Inl rtt_exc, s) \<and>
         write_rtt sim_api d n s = (Inl rtt_exc, s)"
proof -
  have "faults \<and> sim_lost s" using session_conn [OF assms(1)] assms(2,3) by (simp add: conn_inv_def)
  then show ?thesis by (simp add: read_rtt_sim_lost write_rtt_sim_lost read_rtt_string_run)
qed

text \<open>
  C27. \<open>connect\<close> while the probe is unplugged, in a session: it raises
  \<open>JLinkDongleException\<close> with the decorator's coloured message naming \<open>connect\<close> and
  pylink's text, and leaves the object holding the fresh, unopened handle of line 37
  (C8): the object is neither unconnected nor ready, so \<open>read_rtt\<close> now raises
  \<open>'Do not read/write from RTT Terminal'\<close> instead of the \<open>AttributeError\<close> of an
  object that never connected (C4). The target's buffers are untouched and the session
  goes on; a later \<open>connect\<close> or \<open>reconnect\<close> recovers it (C14).
\<close>

theorem session_connect_absent:
  assumes "session racing faults s h" faults
  shows "fst (connect sim_absent_api s) =
           Inl (JLinkDongleException (dongle_error_message ''connect'' ''Cannot connect to J-Link.'')) \<and>
         session racing faults (snd (connect sim_absent_api s)) h \<and>
         jlink (snd (connect sim_absent_api s)) = Some False \<and>
         read_rtt sim_api n (snd (connect sim_absent_api s)) = (Inl rtt_exc, snd (connect sim_absent_api s)) \<and>
         sw_up (world (snd (connect sim_absent_api s))) = sw_up (world s) \<and>
         sw_down (world (snd (connect sim_absent_api s))) = sw_down (world s)"
proof -
  have "session racing faults (snd (connect sim_absent_api s)) h" using assms(2,1) by (rule session.absent)
  moreover have "sim_lost (snd (connect sim_absent_api s))" by (simp add: connect_absent sim_lost_def)
  ultimately show ?thesis by (simp add: read_rtt_sim_lost) (simp add: connect_absent)
qed

text \<open>
  C30. \<open>connect\<close> on a target that does not answer (pylink's \<open>connect()\<close> raises after
  the emulator was opened). In a session where the probe may fail, the call raises
  \<open>JLinkDongleException\<close> with the decorator's message naming \<open>connect\<close> and pylink's
  text. The object is left holding an opened emulator with RTT stopped, not ready:
  \<open>read_rtt\<close> and \<open>write_rtt\<close> then raise \<open>'Do not read/write from RTT Terminal'\<close>
  and change nothing. The target's buffers are kept, the state is again a session state,
  and one \<open>reconnect\<close> (once the target answers) leaves the probe ready.
\<close>

theorem session_connect_silent:
  assumes "session racing faults s h" faults
  shows "fst (connect (sim_silent_api e) s) = Inl (JLinkDongleException (dongle_error_message ''connect'' e)) \<and>
         session racing faults (snd (connect (sim_silent_api e) s)) h \<and>
         jlink (snd (connect (sim_silent_api e) s)) = Some True \<and> sw_open (world (snd (connect (sim_silent_api e) s))) \<and>
         \<not> sim_ready (snd (connect (sim_silent_api e) s)) \<and>
         read_rtt sim_api n (snd (connect (sim_silent_api e) s)) = (Inl rtt_exc, snd (connect (sim_silent_api e) s)) \<and>
         write_rtt sim_api d n (snd (connect (sim_silent_api e) s)) = (Inl rtt_exc, snd (connect (sim_silent_api e) s)) \<and>
         sw_up (world (snd (connect (sim_silent_api e) s))) = sw_up (world s) \<and>
         sw_down (world (snd (connect (sim_silent_api e) s))) = sw_down (world s) \<and>
         fst (reconnect sim_api (snd (connect (sim_silent_api e) s))) = Inr () \<and>
         sim_ready (snd (reconnect sim_api (snd (connect (sim_silent_api e) s))))"
proof -
  let ?s = "snd (connect (sim_silent_api e) s)"
  have "session racing faults ?s h" using assms(2,1) by (rule session.silent)
  moreover have l: "sim_lost ?s" "jlink ?s \<noteq> None" by (simp_all add: connect_silent sim_lost_def)
  moreover note reconnect_sim [OF l(2)]
  ultimately show ?thesis
    by (simp add: read_rtt_sim_lost write_rtt_sim_lost) (simp add: connect_silent sim_ready_def sim_close_world_def)
qed

end
