(* ===== verification/Session_Up.thy ===== *)
theory Session_Up
  imports RTT_Session
begin

text \<open>
  The up direction of a session (target to host). \<open>chan_ok racing b sent got\<close> relates an
  up-channel buffer to what the firmware has put into it and what \<open>read_rtt\<close> has taken
  out: in blocking mode the two histories and the pending bytes are one FIFO stream; in
  the spec's overwrite mode (the writer discards the oldest unread bytes; see \<open>rtt_mode\<close>)
  the host's bytes and the pending bytes are a subsequence of what was sent, and the
  pending bytes are its most recent ones, as long as reads do not race the firmware
  (\<open>racing\<close> unset). \<open>up_inv\<close> adds that the bytes taken out are
  exactly the bytes of the deliveries, in order; it holds in every session (rule
  induction, \<open>session_up\<close>).
\<close>

definition chan_ok :: "bool \<Rightarrow> rtt_buffer \<Rightarrow> byte list \<Rightarrow> byte list \<Rightarrow> bool" where
  "chan_ok racing b sent got \<longleftrightarrow>
     (case rb_mode b of
        Blocking \<Rightarrow> sent = got @ rb_content b
      | Overwrite \<Rightarrow> \<not> racing \<longrightarrow> subseq (got @ rb_content b) sent \<and> suffix (rb_content b) sent)"

definition dlv_ok :: "delivery \<Rightarrow> bool" where
  "dlv_ok dl = (case dl of DText t \<Rightarrow> utf8_encode t = Inr (dlv_bytes dl) | _ \<Rightarrow> True)"

definition up_inv :: "bool \<Rightarrow> (bool, sim_world) pstate \<Rightarrow> rtt_hist \<Rightarrow> bool" where
  "up_inv racing s h \<longleftrightarrow>
     (\<forall>n < length (sw_up (world s)). chan_ok racing (sw_up (world s) ! n) (h_sent h n) (h_got h n)) \<and>
     (\<forall>n. concat (map dlv_bytes (h_dlv h n)) = h_got h n \<and> list_all dlv_ok (h_dlv h n))"

subsection \<open>One channel\<close>

lemma suffix_append_same: "suffix xs ys \<Longrightarrow> suffix (xs @ zs) (ys @ zs)"
  by (auto simp: suffix_def)

lemma chan_ok_read:
  assumes b: "rb_inv b" and ok: "chan_ok racing b sent got"
  shows "chan_ok racing (snd (rb_read b k)) sent (got @ fst (rb_read b k))"
proof -
  note r = rb_read_take_drop [OF b, of k]
  have "got @ fst (rb_read b k) @ rb_content (snd (rb_read b k)) = got @ rb_content b" using r by simp
  moreover have "suffix (rb_content (snd (rb_read b k))) (rb_content b)" using r(2) by (simp add: suffix_drop)
  ultimately show ?thesis using ok
    by (cases "rb_mode b") (auto simp: chan_ok_def intro: suffix_order.trans)
qed

lemma chan_ok_write:
  assumes b: "rb_inv b" and ok: "chan_ok racing b sent got"
  shows "chan_ok racing (fst (rb_write b d)) (sent @ take (snd (rb_write b d)) d) got"
proof (cases "rb_mode b")
  case Blocking
  then show ?thesis using ok rb_write_accepted(1) [OF b Blocking] by (simp add: chan_ok_def)
next
  case Overwrite
  define c where "c = rb_content b"
  define j where "j = length (c @ d) - (rb_size b - 1)"
  have w: "snd (rb_write b d) = length d" "rb_content (fst (rb_write b d)) = drop j (c @ d)"
    using rb_write_accepted(2) [OF b Overwrite] by (simp_all add: c_def j_def)
  show ?thesis
  proof (cases racing)
    case True
    then show ?thesis using Overwrite by (simp add: chan_ok_def)
  next
    case False
    have o: "subseq (got @ c) sent" "suffix c sent" using ok Overwrite False by (simp_all add: chan_ok_def c_def)
    have "subseq (got @ drop j (c @ d)) (got @ c @ d)"
      by (simp only: subseq_append') (rule suffix_imp_subseq [OF suffix_drop])
    moreover have "subseq (got @ c @ d) (sent @ d)"
      using list_emb_append_mono [OF o(1) subseq_order.refl [of d]] by simp
    ultimately have "subseq (got @ drop j (c @ d)) (sent @ d)" by (rule subseq_order.trans)
    moreover have "suffix (drop j (c @ d)) (sent @ d)"
      using suffix_drop suffix_append_same [OF o(2)] by (rule suffix_order.trans)
    ultimately show ?thesis using Overwrite w False by (simp add: chan_ok_def)
  qed
qed

lemma chan_ok_race:
  assumes b: "rb_inv b" and ok: "chan_ok racing b sent got" and r: racing
  shows "chan_ok racing (snd (rb_read_interleaved b k d)) (sent @ take (snd (rb_write b d)) d)
           (got @ fst (rb_read_interleaved b k d))"
proof (cases "rb_mode b")
  case Blocking
  have "snd (rb_write b d) = min (length d) (rb_free b)" using Blocking by (simp add: rb_write_def Let_def)
  then show ?thesis using ok rb_read_interleaved_fifo [OF b Blocking, of k d] Blocking by (simp add: chan_ok_def)
next
  case Overwrite
  then show ?thesis using r by (simp add: chan_ok_def)
qed

subsection \<open>The invariant holds in every session\<close>

lemma host_write_hist_up [simp]:
  "h_sent (host_write_hist d n s h) = h_sent h" "h_got (host_write_hist d n s h) = h_got h"
  "h_dlv (host_write_hist d n s h) = h_dlv h"
  by (simp_all add: host_write_hist_def)

lemma up_inv_write_hist [simp]: "up_inv racing s (host_write_hist d n s' h) = up_inv racing s h"
  by (simp add: up_inv_def)

lemma up_inv_frame: "up_inv racing s h \<Longrightarrow> sw_up (world s') = sw_up (world s) \<Longrightarrow> up_inv racing s' h"
  by (simp add: up_inv_def)

lemma up_inv_read:
  assumes c: "conn_inv faults s" and u: "up_inv racing s h"
    and dl: "\<And>b. fst (read_rtt sim_api n s) = Inr b \<Longrightarrow> dlv_bytes (dl b) = b \<and> dlv_ok (dl b)"
  shows "up_inv racing (snd (read_rtt sim_api n s))
           (case fst (read_rtt sim_api n s) of Inr b \<Rightarrow> host_read_hist n b (dl b) h | Inl _ \<Rightarrow> h)"
proof (cases "sim_ready s \<and> n < length (sw_up (world s))")
  case True
  let ?b = "sw_up (world s) ! n" and ?r = "fst (rb_read (sw_up (world s) ! n) 336)"
  note st = conn_inv_run(1) [OF c] and si = conn_inv_run(2) [OF c]
  have run: "read_rtt sim_api n s =
     (Inr ?r, s\<lparr>world := (world s)\<lparr>sw_up := (sw_up (world s))[n := snd (rb_read ?b 336)]\<rparr>\<rparr>)"
    using read_rtt_sim_run [OF st, of n] True by (auto simp: sim_ready_def)
  have ok: "chan_ok racing (snd (rb_read ?b 336)) (h_sent h n) (h_got h n @ ?r)"
    using chan_ok_read [OF sim_up_inv [OF si] ] u True by (simp add: up_inv_def)
  have "dlv_bytes (dl ?r) = ?r" "dlv_ok (dl ?r)" using dl run by simp_all
  then show ?thesis using u ok True
    by (auto simp: run up_inv_def host_read_hist_def nth_list_update)
next
  case False
  note st = conn_inv_run(1) [OF c]
  then have "\<exists>e. read_rtt sim_api n s = (Inl e, s)" using False by (auto simp: read_rtt_sim_run)
  then show ?thesis using u by auto
qed

lemma up_inv_host:
  assumes c: "conn_inv faults s" and u: "up_inv racing s h"
  shows "up_inv racing (fst (host_exec op s)) (host_hist op s h)"
proof (cases op)
  case HConnect
  then show ?thesis using up_inv_frame [OF u] call_frames [OF c] by (simp add: host_exec_state host_hist_def)
next
  case HReconnect
  then show ?thesis using up_inv_frame [OF u] call_frames [OF c] by (simp add: host_exec_state host_hist_def)
next
  case (HRead n)
  have "up_inv racing (snd (read_rtt sim_api n s))
          (case fst (read_rtt sim_api n s) of Inr b \<Rightarrow> host_read_hist n b (DBytes b) h | Inl _ \<Rightarrow> h)"
    by (rule up_inv_read [OF c u]) (simp add: dlv_ok_def)
  then show ?thesis using HRead by (simp add: host_exec_state host_hist_def)
next
  case (HReadStr n)
  have "up_inv racing (snd (read_rtt sim_api n s))
          (case fst (read_rtt sim_api n s) of
             Inr b \<Rightarrow> host_read_hist n b (case fst (read_rtt_string sim_api n s) of Inr t \<Rightarrow> DText t | Inl _ \<Rightarrow> DLost b) h
           | Inl _ \<Rightarrow> h)"
    by (rule up_inv_read [OF c u]) (auto simp: dlv_ok_def dest: read_rtt_string_bytes split: sum.split)
  then show ?thesis using HReadStr by (simp add: host_exec_state host_hist_def)
next
  case (HWrite d n)
  then show ?thesis using up_inv_frame [OF u] call_frames [OF c] by (simp add: host_exec_state host_hist_def)
next
  case (HWriteStr t n)
  then show ?thesis using up_inv_frame [OF u] call_frames [OF c] u
    by (simp add: host_exec_state host_hist_def split: sum.split)
qed

lemma up_inv_fw_write:
  assumes c: "conn_inv faults s" and u: "up_inv racing s h" and n: "n < length (sw_up (world s))"
  shows "up_inv racing (s\<lparr>world := target_write n d (world s)\<rparr>)
           (h\<lparr>h_sent := (h_sent h)(n := h_sent h n @ take (snd (rb_write (sw_up (world s) ! n) d)) d)\<rparr>)"
proof -
  note si = conn_inv_run(2) [OF c]
  have "chan_ok racing (fst (rb_write (sw_up (world s) ! n) d))
          (h_sent h n @ take (snd (rb_write (sw_up (world s) ! n) d)) d) (h_got h n)"
    using chan_ok_write [OF sim_up_inv [OF si n]] u n by (simp add: up_inv_def)
  then show ?thesis using u n by (auto simp: up_inv_def target_write_def nth_list_update)
qed

lemma up_inv_fw_read: "up_inv racing s h \<Longrightarrow> up_inv racing (s\<lparr>world := snd (target_read n k (world s))\<rparr>) (h\<lparr>h_recv := r\<rparr>)"
  by (simp add: up_inv_def target_read_def case_prod_unfold)

lemma up_inv_race:
  assumes c: "conn_inv faults s" and u: "up_inv racing s h" and r: racing and n: "n < length (sw_up (world s))"
  shows "up_inv racing
           (s\<lparr>world := (world s)\<lparr>sw_up := (sw_up (world s))[n := snd (rb_read_interleaved (sw_up (world s) ! n) 336 d)]\<rparr>\<rparr>)
           (host_read_hist n (fst (rb_read_interleaved (sw_up (world s) ! n) 336 d))
              (DBytes (fst (rb_read_interleaved (sw_up (world s) ! n) 336 d)))
              (h\<lparr>h_sent := (h_sent h)(n := h_sent h n @ take (snd (rb_write (sw_up (world s) ! n) d)) d)\<rparr>))"
proof -
  note si = conn_inv_run(2) [OF c]
  have "chan_ok racing (snd (rb_read_interleaved (sw_up (world s) ! n) 336 d))
          (h_sent h n @ take (snd (rb_write (sw_up (world s) ! n) d)) d)
          (h_got h n @ fst (rb_read_interleaved (sw_up (world s) ! n) 336 d))"
    using chan_ok_race [OF sim_up_inv [OF si n] _ r] u n by (simp add: up_inv_def)
  then show ?thesis using u n by (auto simp: up_inv_def host_read_hist_def nth_list_update dlv_ok_def)
qed

lemma session_up: "session racing faults s h \<Longrightarrow> up_inv racing s h"
proof (induction rule: session.induct)
  case (start w i sp chip)
  then show ?case
    by (auto simp: up_inv_def chan_ok_def JLinkDongle_init_def chan_ready_def hist0_def list_all_length
             split: rtt_mode.split)
next
  case (host s h op)
  then show ?case using up_inv_host session_conn by blast
next
  case (fw_write s h n d)
  then show ?case using up_inv_fw_write session_conn by blast
next
  case (fw_read s h n k)
  from fw_read.IH show ?case by (rule up_inv_fw_read)
next
  case (race s h n d r s')
  then show ?case using up_inv_race [OF session_conn [OF race.hyps(2)] race.IH race.hyps(1,4), of d]
    read_rtt_race [OF race.hyps(3,4), of d] by simp
next
  case (lose s h)
  from lose.IH show ?case by (rule up_inv_frame) simp
next
  case (absent s h)
  from absent.IH show ?case by (rule up_inv_frame) (simp add: connect_absent)
next
  case (silent s h e)
  from silent.IH show ?case by (rule up_inv_frame) (simp add: connect_silent sim_close_world_def)
qed

lemma session_up_chan:
  assumes "session racing faults s h" "n < length (sw_up (world s))"
  shows "chan_ok racing (sw_up (world s) ! n) (h_sent h n) (h_got h n)"
    "concat (map dlv_bytes (h_dlv h n)) = h_got h n" "list_all dlv_ok (h_dlv h n)"
  using session_up [OF assms(1)] assms(2) unfolding up_inv_def by blast+

subsection \<open>Properties of the up direction\<close>

text \<open>
  C17. No byte of a blocking up-channel is lost, duplicated or reordered between the
  firmware and \<open>read_rtt\<close>, across reconnects and failed calls: in every session,
  everything the firmware has put into blocking up-channel \<open>n\<close> is what \<open>read_rtt(n)\<close>
  has returned (to the caller or inside \<open>read_rtt_string\<close>), followed by what is still
  pending in the buffer, also when reads race the firmware's writes. In particular the
  host's data is a prefix of the firmware's.
\<close>

theorem session_up_fifo:
  assumes "session racing faults s h" "n < length (sw_up (world s))" "rb_mode (sw_up (world s) ! n) = Blocking"
  shows "h_sent h n = h_got h n @ rb_content (sw_up (world s) ! n) \<and> prefix (h_got h n) (h_sent h n)"
  using session_up_chan [OF assms(1,2)] assms(3) by (simp add: chan_ok_def)

text \<open>
  C24. Where every byte of a blocking up-channel goes, when the caller mixes
  \<open>read_rtt\<close> and \<open>read_rtt_string\<close>: in every session, what the firmware has put into
  channel \<open>n\<close> is the bytes of the reads, in order, followed by what is pending. A read
  is bytes returned by \<open>read_rtt\<close>, or text returned by \<open>read_rtt_string\<close> whose UTF-8
  encoding is exactly the chunk it consumed, or a chunk \<open>read_rtt_string\<close> consumed and
  then raised \<open>UnicodeDecodeError\<close> on (\<open>DLost\<close>, C19): those bytes reach nobody.
\<close>

theorem session_up_deliveries:
  assumes "session racing faults s h" "n < length (sw_up (world s))" "rb_mode (sw_up (world s) ! n) = Blocking"
  shows "h_sent h n = concat (map dlv_bytes (h_dlv h n)) @ rb_content (sw_up (world s) ! n) \<and>
         list_all dlv_ok (h_dlv h n)"
  using session_up_chan [OF assms(1,2)] assms(3) by (simp add: chan_ok_def)

text \<open>
  C25. An overwrite up-channel loses data but never invents, duplicates or reorders it:
  in every session, what \<open>read_rtt(n)\<close> has returned followed by what is pending is a
  subsequence of what the firmware has written, and the pending bytes are the most
  recent bytes written.
\<close>

theorem session_up_overwrite:
  assumes "session False False s h" "n < length (sw_up (world s))" "rb_mode (sw_up (world s) ! n) = Overwrite"
  shows "subseq (h_got h n @ rb_content (sw_up (world s) ! n)) (h_sent h n) \<and>
         suffix (rb_content (sw_up (world s) ! n)) (h_sent h n)"
  using session_up_chan [OF assms(1,2)] assms(3) by (simp add: chan_ok_def)

end
