(* ===== verification/Session_Race.thy ===== *)
theory Session_Race
  imports Session_Up
begin

text \<open>
  Reads that race the firmware. In a session with \<open>racing\<close> set, a \<open>read_rtt\<close> may run
  against \<open>sim_race_api d\<close>, where the firmware writes \<open>d\<close> between the DLL's offset
  snapshot and its copy. On blocking up-channels this changes nothing (C17 and C24 hold
  for every session, racing or not). On an overwrite up-channel it tears the read: this
  theory builds one racing session in which the bytes \<open>read_rtt\<close> returned are not
  even a subsequence of what the firmware wrote.
\<close>

abbreviation race_world :: sim_world where
  "race_world \<equiv> \<lparr>sw_open = False, sw_connected = False, sw_rtt = False,
                 sw_up = [rb_new 4 Overwrite], sw_down = [rb_new 4 Blocking]\<rparr>"

abbreviation ow_buf :: "nat \<Rightarrow> nat \<Rightarrow> byte list \<Rightarrow> rtt_buffer" where
  "ow_buf rd wr mem \<equiv> \<lparr>rb_size = 4, rb_rd = rd, rb_wr = wr, rb_mem = mem, rb_mode = Overwrite\<rparr>"

abbreviation race_s1 :: "(bool, sim_world) pstate" where
  "race_s1 \<equiv> fst (host_exec HConnect (JLinkDongle_init SWD Auto CHIP_NAME_DEFAULT race_world))"

abbreviation race_s2 :: "(bool, sim_world) pstate" where
  "race_s2 \<equiv> race_s1\<lparr>world := target_write 0 [1, 2, 3] (world race_s1)\<rparr>"

abbreviation race_s3 :: "(bool, sim_world) pstate" where
  "race_s3 \<equiv> fst (host_exec (HRead 0) race_s2)"

abbreviation race_s4 :: "(bool, sim_world) pstate" where
  "race_s4 \<equiv> race_s3\<lparr>world := target_write 0 [4, 1] (world race_s3)\<rparr>"

lemma race_buffers:
  "rb_write (rb_new 4 Overwrite) [1, 2, 3] = (ow_buf 0 3 [1, 2, 3, 0], 3)"
  "rb_read (ow_buf 0 3 [1, 2, 3, 0]) 336 = ([1, 2, 3], ow_buf 3 3 [1, 2, 3, 0])"
  "rb_write (ow_buf 3 3 [1, 2, 3, 0]) [4, 1] = (ow_buf 3 1 [1, 2, 3, 4], 2)"
  "snd (rb_write (ow_buf 3 1 [1, 2, 3, 4]) [7, 8, 9]) = 3"
  "fst (rb_read_interleaved (ow_buf 3 1 [1, 2, 3, 4]) 336 [7, 8, 9]) = [9, 1]"
  by (simp_all add: rb_write_def rb_new_def rb_put_def rb_skip_def rb_copy_in_def write_at_def rb_free_def
                    rb_used_def rb_read_def rb_copy_out_def rb_read_interleaved_def Let_def)

lemma race_states:
  "sim_ready race_s1" "sw_up (world race_s1) = [rb_new 4 Overwrite]"
  "read_rtt sim_api 0 race_s2 = (Inr [1, 2, 3], race_s3)"
  "sim_ready race_s3" "sw_up (world race_s3) = [ow_buf 3 3 [1, 2, 3, 0]]"
  "sim_ready race_s4" "sw_up (world race_s4) = [ow_buf 3 1 [1, 2, 3, 4]]"
proof -
  show r1: "sim_ready race_s1" "sw_up (world race_s1) = [rb_new 4 Overwrite]"
    using connect_sim [of "JLinkDongle_init SWD Auto CHIP_NAME_DEFAULT race_world"]
    by (simp_all add: host_exec_state JLinkDongle_init_def)
  have r2: "sim_ready race_s2" "sw_up (world race_s2) = [ow_buf 0 3 [1, 2, 3, 0]]"
    using r1 race_buffers(1) by (simp_all add: sim_ready_def target_write_def)
  show r3: "read_rtt sim_api 0 race_s2 = (Inr [1, 2, 3], race_s3)"
    using read_rtt_sim_run [of race_s2 0] r2 race_buffers(2)
    by (simp add: host_exec_state sim_ready_def)
  show "sim_ready race_s3" "sw_up (world race_s3) = [ow_buf 3 3 [1, 2, 3, 0]]"
    using read_rtt_sim_run [of race_s2 0] r2 race_buffers(2)
    by (simp_all add: host_exec_state sim_ready_def)
  then show "sim_ready race_s4" "sw_up (world race_s4) = [ow_buf 3 1 [1, 2, 3, 4]]"
    using race_buffers(3) by (simp_all add: sim_ready_def target_write_def)
qed

lemma race_session_prefix:
  "session True False race_s4
     (host_read_hist 0 [1, 2, 3] (DBytes [1, 2, 3]) (hist0\<lparr>h_sent := (\<lambda>_. [])(0 := [1, 2, 3, 4, 1])\<rparr>))"
proof -
  let ?s0 = "JLinkDongle_init SWD Auto CHIP_NAME_DEFAULT race_world :: (bool, sim_world) pstate"
  let ?h2 = "hist0\<lparr>h_sent := (\<lambda>_. [])(0 := [1, 2, 3])\<rparr>"
  have "session True False ?s0 hist0"
    by (rule session.start) (simp_all add: sim_inv_def chan_ready_def rb_inv_def rb_new_def rb_content_def rb_used_def)
  then have "session True False race_s1 (host_hist HConnect ?s0 hist0)" by (rule session.host)
  then have "session True False race_s1 hist0" by (simp add: host_hist_def)
  then have "session True False race_s2
      (hist0\<lparr>h_sent := (h_sent hist0)(0 := h_sent hist0 0 @ take (snd (rb_write (sw_up (world race_s1) ! 0) [1, 2, 3])) [1, 2, 3])\<rparr>)"
    by (rule session.fw_write) (simp add: race_states)
  then have "session True False race_s2 ?h2" by (simp add: race_states race_buffers hist0_def)
  then have "session True False race_s3 (host_hist (HRead 0) race_s2 ?h2)" by (rule session.host)
  then have "session True False race_s3 (host_read_hist 0 [1, 2, 3] (DBytes [1, 2, 3]) ?h2)"
    by (simp add: host_hist_def race_states(3))
  then have "session True False race_s4
      ((host_read_hist 0 [1, 2, 3] (DBytes [1, 2, 3]) ?h2)\<lparr>h_sent := (h_sent (host_read_hist 0 [1, 2, 3] (DBytes [1, 2, 3]) ?h2))
         (0 := h_sent (host_read_hist 0 [1, 2, 3] (DBytes [1, 2, 3]) ?h2) 0 @
               take (snd (rb_write (sw_up (world race_s3) ! 0) [4, 1])) [4, 1])\<rparr>)"
    by (rule session.fw_write) (simp add: race_states)
  then show ?thesis by (simp add: race_states race_buffers host_read_hist_def hist0_def)
qed

text \<open>
  On the spec's overwrite up-channel, a read that races a firmware write returns bytes in an
  order the firmware never wrote. In this racing session the firmware writes
  \<open>[1, 2, 3]\<close>, the host reads them, the firmware writes \<open>[4, 1]\<close>, and the host
  reads again while the firmware writes \<open>[7, 8, 9]\<close> between the DLL's offset snapshot
  and its copy: the firmware moves \<open>RdOff\<close> past the bytes it overwrites, the DLL copies
  from the stale \<open>RdOff\<close> and gets \<open>[9, 1]\<close>, the newest byte before an old one. The
  host's bytes \<open>[1, 2, 3, 9, 1]\<close> are not a subsequence of \<open>[1, 2, 3, 4, 1, 7, 8, 9]\<close>:
  C25 fails once reads race, and the spec's read pattern is not safe for overwrite
  channels. This is a fact of the modelled DLL read and the spec's overwrite policy, not
  of \<open>read_rtt\<close>, which passes the read through; it documents the finding on spec
  section 5.
\<close>

lemma session_overwrite_race_reorders:
  "\<exists>s h. session True False s h \<and> 0 < length (sw_up (world s)) \<and> rb_mode (sw_up (world s) ! 0) = Overwrite \<and>
         h_got h 0 = [1, 2, 3, 9, 1] \<and> h_sent h 0 = [1, 2, 3, 4, 1, 7, 8, 9] \<and>
         \<not> subseq (h_got h 0) (h_sent h 0)"
proof -
  let ?h4 = "host_read_hist 0 [1, 2, 3] (DBytes [1, 2, 3]) (hist0\<lparr>h_sent := (\<lambda>_. [])(0 := [1, 2, 3, 4, 1])\<rparr>)"
  let ?h5 = "host_read_hist 0 [9, 1] (DBytes [9, 1])
               (?h4\<lparr>h_sent := (h_sent ?h4)(0 := h_sent ?h4 0 @ take (snd (rb_write (sw_up (world race_s4) ! 0) [7, 8, 9])) [7, 8, 9])\<rparr>)"
  let ?s5 = "race_s4\<lparr>world := (world race_s4)\<lparr>sw_up := (sw_up (world race_s4))[0 :=
               snd (rb_read_interleaved (sw_up (world race_s4) ! 0) 336 [7, 8, 9])]\<rparr>\<rparr>"
  have run: "read_rtt (sim_race_api [7, 8, 9]) 0 race_s4 = (Inr [9, 1], ?s5)"
    using read_rtt_race [of race_s4 0 "[7, 8, 9]"] race_states(6,7) race_buffers(5) by simp
  have "session True False ?s5 ?h5"
    using session.race [OF _ race_session_prefix race_states(6) _ run] race_states(7) by simp
  moreover have "h_got ?h5 0 = [1, 2, 3, 9, 1]" "h_sent ?h5 0 = [1, 2, 3, 4, 1, 7, 8, 9]"
    using race_states(7) race_buffers(4) by (simp_all add: host_read_hist_def hist0_def)
  moreover have "0 < length (sw_up (world ?s5))" "rb_mode (sw_up (world ?s5) ! 0) = Overwrite"
    using race_states(7) by simp_all
  moreover have "\<not> subseq [1, 2, 3, 9, 1] [1, 2, 3, 4, 1, 7, 8, 9 :: byte]" by simp
  ultimately show ?thesis by metis
qed

end
