(* ===== verification/Session_Down.thy ===== *)
theory Session_Down
  imports RTT_Session
begin

text \<open>
  The down direction of a session (host to target). \<open>down_inv\<close>: every down-channel is
  blocking; what it accepted (\<open>h_taken\<close>) is what the firmware read (\<open>h_recv\<close>)
  followed by what is pending; and what it accepted is one prefix of the data of each
  \<open>write_rtt\<close> call that returned normally, in call order. It holds in every session
  (rule induction, \<open>session_down\<close>).
\<close>

definition down_inv :: "(bool, sim_world) pstate \<Rightarrow> rtt_hist \<Rightarrow> bool" where
  "down_inv s h \<longleftrightarrow>
     list_all (\<lambda>b. rb_mode b = Blocking) (sw_down (world s)) \<and>
     (\<forall>n < length (sw_down (world s)). h_taken h n = h_recv h n @ rb_content (sw_down (world s) ! n)) \<and>
     (\<forall>n. \<exists>ks. length ks = length (h_wrote h n) \<and> h_taken h n = concat (map2 take ks (h_wrote h n)))"

subsection \<open>The invariant holds in every session\<close>

lemma down_inv_hist [simp]:
  "down_inv s (host_read_hist n b dl h) = down_inv s h"
  "down_inv s (h\<lparr>h_sent := x\<rparr>) = down_inv s h"
  by (simp_all add: down_inv_def host_read_hist_def)

lemma down_inv_frame: "down_inv s h \<Longrightarrow> sw_down (world s') = sw_down (world s) \<Longrightarrow> down_inv s' h"
  by (simp add: down_inv_def)

lemma down_inv_write:
  assumes inv: "down_inv s h" and si: "sim_inv (world s)" and n: "n < length (sw_down (world s))"
  shows "down_inv (s\<lparr>world := (world s)\<lparr>sw_down := (sw_down (world s))[n := fst (rb_write (sw_down (world s) ! n) d)]\<rparr>\<rparr>)
           (h\<lparr>h_wrote := (h_wrote h)(n := h_wrote h n @ [d]),
              h_taken := (h_taken h)(n := h_taken h n @ take (snd (rb_write (sw_down (world s) ! n) d)) d)\<rparr>)"
proof -
  let ?b = "sw_down (world s) ! n"
  have modes: "list_all (\<lambda>b. rb_mode b = Blocking) (sw_down (world s))"
    and fifo: "\<forall>m < length (sw_down (world s)). h_taken h m = h_recv h m @ rb_content (sw_down (world s) ! m)"
    and pre: "\<forall>m. \<exists>ks. length ks = length (h_wrote h m) \<and> h_taken h m = concat (map2 take ks (h_wrote h m))"
    using inv by (simp_all add: down_inv_def)
  have b: "rb_inv ?b" "rb_mode ?b = Blocking" using sim_down_inv [OF si n] modes n by (simp_all add: list_all_length)
  have c: "rb_content (fst (rb_write ?b d)) = rb_content ?b @ take (snd (rb_write ?b d)) d"
    using rb_write_accepted(1) [OF b].
  obtain ks where ks: "length ks = length (h_wrote h n)" "h_taken h n = concat (map2 take ks (h_wrote h n))"
    using pre by blast
  have "\<exists>ks'. length ks' = length (h_wrote h n @ [d]) \<and>
          h_taken h n @ take (snd (rb_write ?b d)) d = concat (map2 take ks' (h_wrote h n @ [d]))"
    using ks by (intro exI [of _ "ks @ [snd (rb_write ?b d)]"]) simp
  moreover have "list_all (\<lambda>b. rb_mode b = Blocking) ((sw_down (world s))[n := fst (rb_write ?b d)])"
    using b(2) by (intro list_all_update [OF modes]) simp
  ultimately show ?thesis
    using fifo pre c n by (auto simp: down_inv_def nth_list_update)
qed

lemma down_inv_write_call:
  assumes c: "conn_inv faults s" and inv: "down_inv s h"
  shows "down_inv (snd (write_rtt sim_api d n s)) (host_write_hist d n s h)"
proof -
  note st = conn_inv_run(1) [OF c] and si = conn_inv_run(2) [OF c]
  show ?thesis
  proof (cases "sim_ready s \<and> n < length (sw_down (world s))")
    case True
    then show ?thesis using down_inv_write [OF inv si, of n d]
      by (auto simp: write_rtt_sim_run [OF st] host_write_hist_def sim_ready_def)
  next
    case False
    then show ?thesis using inv by (auto simp: write_rtt_sim_run [OF st] host_write_hist_def)
  qed
qed

lemma down_inv_host:
  assumes c: "conn_inv faults s" and inv: "down_inv s h"
  shows "down_inv (fst (host_exec op s)) (host_hist op s h)"
proof (cases op)
  case (HWrite d n)
  then show ?thesis using down_inv_write_call [OF c inv] by (simp add: host_exec_state host_hist_def)
next
  case (HWriteStr t n)
  then show ?thesis using down_inv_write_call [OF c inv] inv
    by (simp add: host_exec_state host_hist_def split: sum.split)
qed (use down_inv_frame [OF inv] call_frames [OF c] in
       \<open>simp_all add: host_exec_state host_hist_def split: sum.split\<close>)

lemma down_inv_fw_read:
  assumes inv: "down_inv s h" and si: "sim_inv (world s)"
  shows "down_inv (s\<lparr>world := snd (target_read n k (world s))\<rparr>)
           (h\<lparr>h_recv := (h_recv h)(n := h_recv h n @ fst (target_read n k (world s)))\<rparr>)"
proof (cases "n < length (sw_down (world s))")
  case True
  let ?b = "sw_down (world s) ! n"
  have modes: "list_all (\<lambda>b. rb_mode b = Blocking) (sw_down (world s))"
    and fifo: "\<forall>m < length (sw_down (world s)). h_taken h m = h_recv h m @ rb_content (sw_down (world s) ! m)"
    using inv by (simp_all add: down_inv_def)
  have b: "rb_inv ?b" using si True by (rule sim_down_inv)
  note r = rb_read_take_drop [OF b, of k]
  have "list_all (\<lambda>b. rb_mode b = Blocking) ((sw_down (world s))[n := snd (rb_read ?b k)])"
    using modes True by (intro list_all_update [OF modes]) (simp add: list_all_length)
  then show ?thesis
    using inv fifo r True by (auto simp: down_inv_def target_read_def case_prod_unfold nth_list_update)
next
  case False
  then show ?thesis using inv by (simp add: down_inv_def target_read_def)
qed

lemma session_down: "session racing faults s h \<Longrightarrow> down_inv s h"
proof (induction rule: session.induct)
  case (start w i sp chip)
  then show ?case by (auto simp: down_inv_def JLinkDongle_init_def chan_ready_def list_all_length hist0_def)
next
  case (host s h op)
  then show ?case using down_inv_host session_conn by blast
next
  case (fw_write s h n d)
  then show ?case by (simp add: down_inv_def target_write_def)
next
  case (fw_read s h n k)
  then show ?case using down_inv_fw_read session_conn by (simp add: conn_inv_def)
next
  case (race s h n d r s')
  have "sw_down (world s') = sw_down (world s)"
    using read_rtt_race [OF race.hyps(3,4), of d] race.hyps(5) by auto
  then show ?case using down_inv_frame [OF race.IH] by simp
next
  case (lose s h)
  from lose.IH show ?case by (rule down_inv_frame) simp
next
  case (absent s h)
  from absent.IH show ?case by (rule down_inv_frame) (simp add: connect_absent)
next
  case (silent s h e)
  from silent.IH show ?case by (rule down_inv_frame) (simp add: connect_silent sim_close_world_def)
qed

subsection \<open>Properties of the down direction\<close>

text \<open>
  C23. What the firmware receives on a down-channel: in every session, the bytes
  down-channel \<open>n\<close> accepted are what the firmware has read from it followed by what is
  pending, and they are made of one prefix of the data of each \<open>write_rtt(data, n)\<close>
  call that returned normally (directly or from \<open>write_rtt_sring\<close>), in call order. A
  prefix may be shorter than the data although the call returned normally (C13): the
  firmware may miss the tail of any write, and nothing tells the caller which.
\<close>

theorem session_down_delivery:
  assumes "session racing faults s h" "n < length (sw_down (world s))"
  shows "h_taken h n = h_recv h n @ rb_content (sw_down (world s) ! n) \<and> prefix (h_recv h n) (h_taken h n) \<and>
         (\<exists>ks. length ks = length (h_wrote h n) \<and> h_taken h n = concat (map2 take ks (h_wrote h n)))"
proof -
  have i: "down_inv s h" using assms(1) by (rule session_down)
  then obtain ks where ks: "length ks = length (h_wrote h n)" "h_taken h n = concat (map2 take ks (h_wrote h n))"
    unfolding down_inv_def by blast
  have t: "h_taken h n = h_recv h n @ rb_content (sw_down (world s) ! n)"
    using i assms(2) unfolding down_inv_def by blast
  have "prefix (h_recv h n) (h_taken h n)" unfolding t by simp
  then show ?thesis using ks t by blast
qed

end
