(* ===== verification/RTT_Poll.thy ===== *)
theory RTT_Poll
  imports JLink_Sim
begin

text \<open>
  The terminal's poll loop (spec section 5): read channel \<open>n\<close> with \<open>read_rtt\<close> until a
  read comes back empty, concatenating what the reads return; a raised exception ends
  the loop with that exception. The loop has no bound of its own, so it is a
  \<open>partial_function (option)\<close>: \<open>None\<close> would mean it never returns, as it does not
  when the firmware keeps writing faster than the host reads.
\<close>

partial_function (option) rtt_drain ::
  "('h, 'w) jlink_api \<Rightarrow> nat \<Rightarrow> ('h, 'w) pstate \<Rightarrow> ((pyexc + byte list) \<times> ('h, 'w) pstate) option"
where
  "rtt_drain api n s =
     (case read_rtt api n s of
        (Inl e, s') \<Rightarrow> Some (Inl e, s')
      | (Inr d, s') \<Rightarrow>
          if d = [] then Some (Inr [], s')
          else Option.bind (rtt_drain api n s') (\<lambda>(r, s''). Some (map_sum id (\<lambda>rest. d @ rest) r, s'')))"

text \<open>
  C21. Against a quiet target the poll loop terminates: on a connected simulated probe
  with well-formed buffers it returns, with everything that was pending in up-channel
  \<open>n\<close>, in order, and leaves that buffer empty and the object connected. The measure
  is the number of pending bytes, which each non-empty read decreases.
\<close>

theorem rtt_drain_sim_terminates:
  assumes "sim_ready s" "sim_inv (world s)" "n < length (sw_up (world s))"
  shows "\<exists>s'. rtt_drain sim_api n s = Some (Inr (rb_content (sw_up (world s) ! n)), s') \<and>
              rb_content (sw_up (world s') ! n) = [] \<and> sim_ready s' \<and> sim_inv (world s')"
  using assms
proof (induction "length (rb_content (sw_up (world s) ! n))" arbitrary: s rule: less_induct)
  case less
  let ?c = "rb_content (sw_up (world s) ! n)"
  obtain s1 where r: "read_rtt sim_api n s = (Inr (take 336 ?c), s1)" and s1: "sim_ready s1" "sim_inv (world s1)"
    "length (sw_up (world s1)) = length (sw_up (world s))" "rb_content (sw_up (world s1) ! n) = drop 336 ?c"
    using read_rtt_sim_step [OF less.prems] by blast
  show ?case
  proof (cases "?c = []")
    case True
    then show ?thesis using r s1 by (simp add: rtt_drain.simps)
  next
    case False
    then have "length (rb_content (sw_up (world s1) ! n)) < length ?c" using s1(4) by simp
    then obtain s' where d: "rtt_drain sim_api n s1 = Some (Inr (drop 336 ?c), s')"
      and s': "rb_content (sw_up (world s') ! n) = []" "sim_ready s'" "sim_inv (world s')"
      using less.hyps [OF _ s1(1,2)] less.prems(3) s1(3,4) by fastforce
    show ?thesis using r d s' False by (simp add: rtt_drain.simps)
  qed
qed

end
