(* ===== verification/Dongle_Calls.thy ===== *)
theory Dongle_Calls
  imports Dongle
begin

text \<open>
  Which pylink calls the RTT methods make, read off the instrumented library
  \<open>traced\<close>: each makes at most its one RTT call, with the arguments the source passes,
  and none when the slot \<open>jlink\<close> is unassigned or the string does not encode.
\<close>

lemma jcall_traced_log:
  "call_log (snd (jcall (logged c m) s)) = call_log s @ (if jlink s = None then [] else [c])"
  by (auto simp: jcall_def logged_def split: option.splits prod.splits)

lemma snd_thenE_ret: "snd (thenE m (ret x) s) = snd (m s)"
  by (simp add: thenE_def bindE_def ret_def split: prod.split sum.split)

lemma rtt_methods_log:
  "call_log (snd (read_rtt (traced api) n s)) =
     call_log s @ (if jlink s = None then [] else [CRttRead n (jl_MAX_BUF_SIZE api)])"
  "call_log (snd (write_rtt (traced api) d n s)) =
     call_log s @ (if jlink s = None then [] else [CRttWrite n d])"
  by (simp_all add: read_rtt_def write_rtt_def check_exception_state traced_fields jcall_traced_log
                    snd_thenE_ret)

text \<open>
  C20. The RTT methods touch the probe only through their one RTT call: \<open>read_rtt\<close> and
  \<open>read_rtt_string\<close> log exactly \<open>rtt_read(n, MAX_BUF_SIZE)\<close>, \<open>write_rtt\<close> exactly
  \<open>rtt_write(n, data)\<close>, \<open>write_rtt_sring\<close> exactly \<open>rtt_write(n, encoded)\<close> when the
  string encodes and nothing when it does not; none of them calls anything before
  \<open>connect\<close> has assigned \<open>jlink\<close>. In particular none stops RTT, closes or
  reconnects, whatever pylink returns or raises.
\<close>

theorem rtt_methods_calls:
  "call_log (snd (read_rtt (traced api) n s)) =
     call_log s @ (if jlink s = None then [] else [CRttRead n (jl_MAX_BUF_SIZE api)]) \<and>
   call_log (snd (read_rtt_string (traced api) n s)) =
     call_log s @ (if jlink s = None then [] else [CRttRead n (jl_MAX_BUF_SIZE api)]) \<and>
   call_log (snd (write_rtt (traced api) d n s)) =
     call_log s @ (if jlink s = None then [] else [CRttWrite n d]) \<and>
   call_log (snd (write_rtt_sring (traced api) t n s)) =
     call_log s @ (case utf8_encode t of Inl i \<Rightarrow> [] | Inr bs \<Rightarrow> if jlink s = None then [] else [CRttWrite n bs])"
proof -
  have "call_log (snd (read_rtt_string (traced api) n s)) = call_log (snd (read_rtt (traced api) n s))"
    by (simp add: read_rtt_string_def bindE_def ret_def throw_def split: prod.split sum.split)
  moreover have "call_log (snd (write_rtt_sring (traced api) t n s)) =
     (case utf8_encode t of Inl i \<Rightarrow> call_log s | Inr bs \<Rightarrow> call_log (snd (write_rtt (traced api) bs n s)))"
    by (simp add: write_rtt_sring_def throw_def split: sum.split)
  ultimately show ?thesis by (simp add: rtt_methods_log split: sum.split)
qed

end
