(* ===== verification/Threads.thy ===== *)
theory Threads
  imports Session_Down
begin

text \<open>
  A second caller thread. \<open>JLinkDongle\<close> has no lock around its one pylink handle (spec
  sections 5 and 9): a terminal that polls \<open>read_rtt\<close> in one thread and calls
  \<open>reconnect\<close> in another interleaves the two between the steps of \<open>reconnect\<close>.
  \<open>reconnect_steps\<close> lists those steps as the source writes them: \<open>close()\<close> (line 71),
  then \<open>connect\<close>'s lines 37--41, 42--43 and 44--50; \<open>run_steps\<close> runs a list in order.
  \<open>call_during_reconnect k c\<close> runs the first \<open>k\<close> steps, then the other thread's call
  \<open>c\<close> (\<open>read_rtt(n)\<close> in \<open>read_during_reconnect\<close>, \<open>write_rtt(data, n)\<close> in
  \<open>write_during_reconnect\<close>), then the rest. It returns what the call returned, what the
  reconnecting thread's steps returned, and the final state. C28 and C29 say what such
  a call sees and does; C31 compares the read with the two serial orders of a lock.
\<close>

definition reconnect_steps :: "('h, 'w) jlink_api \<Rightarrow> ('h, 'w, unit) prog list" where
  "reconnect_steps api = [jcall (jl_close api), connect_open api, connect_target api, connect_report api]"

primrec run_steps :: "('h, 'w, unit) prog list \<Rightarrow> ('h, 'w, unit) prog" where
  "run_steps [] = ret ()"
| "run_steps (m # ms) = thenE m (run_steps ms)"
definition call_during_reconnect ::
  "nat \<Rightarrow> (bool, sim_world, 'a) prog \<Rightarrow> (bool, sim_world) pstate \<Rightarrow>
     (pyexc + 'a) \<times> (pyexc + unit) \<times> (bool, sim_world) pstate" where
  "call_during_reconnect k c s =
     (case run_steps (take k (reconnect_steps sim_api)) s of
        (r1, s1) \<Rightarrow>
          (case c s1 of
             (r, s2) \<Rightarrow>
               (case r1 of
                  Inl e \<Rightarrow> (r, Inl e, s2)
                | Inr _ \<Rightarrow> (case run_steps (drop k (reconnect_steps sim_api)) s2 of (r2, s3) \<Rightarrow> (r, r2, s3)))))"

definition read_during_reconnect ::
  "nat \<Rightarrow> nat \<Rightarrow> (bool, sim_world) pstate \<Rightarrow>
     (pyexc + byte list) \<times> (pyexc + unit) \<times> (bool, sim_world) pstate" where
  "read_during_reconnect k n s = call_during_reconnect k (read_rtt sim_api n) s"

definition write_during_reconnect ::
  "nat \<Rightarrow> byte list \<Rightarrow> nat \<Rightarrow> (bool, sim_world) pstate \<Rightarrow>
     (pyexc + unit) \<times> (pyexc + unit) \<times> (bool, sim_world) pstate" where
  "write_during_reconnect k d n s = call_during_reconnect k (write_rtt sim_api d n) s"

text \<open>
  The two executions a lock would allow (spec section 5: calls on one connection are
  serialized): the other thread's call entirely before \<open>reconnect\<close>, or entirely after.
\<close>

definition call_then_reconnect ::
  "(bool, sim_world, 'a) prog \<Rightarrow> (bool, sim_world) pstate \<Rightarrow>
     (pyexc + 'a) \<times> (pyexc + unit) \<times> (bool, sim_world) pstate" where
  "call_then_reconnect c s = (case c s of (r, s1) \<Rightarrow> (case reconnect sim_api s1 of (r2, s2) \<Rightarrow> (r, r2, s2)))"

definition reconnect_then_call ::
  "(bool, sim_world, 'a) prog \<Rightarrow> (bool, sim_world) pstate \<Rightarrow>
     (pyexc + 'a) \<times> (pyexc + unit) \<times> (bool, sim_world) pstate" where
  "reconnect_then_call c s = (case reconnect sim_api s of (r2, s1) \<Rightarrow> (case c s1 of (r, s2) \<Rightarrow> (r, r2, s2)))"

text \<open>
  \<open>buf_frame m\<close>: the computation \<open>m\<close> neither reads nor writes the channel buffers, so it
  commutes with replacing them.
\<close>

definition buf_frame :: "(bool, sim_world, 'a) prog \<Rightarrow> bool" where
  "buf_frame m \<longleftrightarrow> (\<forall>s u d. m (s\<lparr>world := (world s)\<lparr>sw_up := u, sw_down := d\<rparr>\<rparr>) =
                         (fst (m s), (snd (m s))\<lparr>world := (world (snd (m s)))\<lparr>sw_up := u, sw_down := d\<rparr>\<rparr>))"


subsection \<open>The steps are \<open>reconnect\<close>\<close>

lemma thenE_ret_unit: "thenE m (ret ()) = m"
  by (rule ext) (simp add: thenE_def ret_def split: prod.split sum.split)

lemma reconnect_steps_eq:
  "reconnect api =
     check_exception ''reconnect''
       (thenE (jcall (jl_close api)) (check_exception ''connect'' (run_steps (tl (reconnect_steps api)))))"
  by (simp add: reconnect_def connect_def reconnect_steps_def thenE_ret_unit)

lemma thenE_ret_left: "thenE (ret a) m = m"
  by (simp add: thenE_def)

lemma run_steps_append: "run_steps (xs @ ys) = thenE (run_steps xs) (run_steps ys)"
  by (induction xs) (simp_all add: thenE_assoc thenE_ret_left)

subsection \<open>The steps on the simulated probe\<close>

lemma close_sim: "jlink s \<noteq> None \<Longrightarrow>
    jcall (jl_close sim_api) s = (Inr (), s\<lparr>jlink := Some False, world := sim_close_world (world s)\<rparr>)"
  by (auto simp: jcall_def)

lemma connect_open_sim: "jlink s = Some False \<Longrightarrow>
    connect_open sim_api s = (Inr (), s\<lparr>jlink := Some True, world := (world s)\<lparr>sw_open := True, sw_rtt := False\<rparr>\<rparr>)"
  by (simp add: connect_open_def thenE_def bindE_def new_jlink_def jcall_def sim_opened_def sim_ok_def)

lemma connect_target_sim: "jlink s = Some True \<Longrightarrow> sw_open (world s) \<Longrightarrow>
    connect_target sim_api s = (Inr (), s\<lparr>world := (world s)\<lparr>sw_connected := True, sw_rtt := True\<rparr>\<rparr>)"
  by (simp add: connect_target_def thenE_def bindE_def getsE_def jcall_def sim_opened_def sim_target_def)

lemma connect_report_sim: "sim_ready s \<Longrightarrow> \<exists>out. connect_report sim_api s = (Inr (), s\<lparr>stdout := out\<rparr>)"
  by (simp add: connect_report_def thenE_def bindE_def getsE_def jcall_def print_line_def modifyE_def ret_def
                sim_opened_def sim_target_def sim_ok_def sim_ready_def Let_def) blast

text \<open>
  The states after each step of \<open>reconnect\<close> on a probe with a handle: closed; opened with
  RTT stopped; connected with RTT started; and the same with the connection report printed.
\<close>

lemma reconnect_stages:
  assumes "jlink s \<noteq> None"
  obtains out where
    "run_steps (take 1 (reconnect_steps sim_api)) s = (Inr (), s\<lparr>jlink := Some False, world := sim_close_world (world s)\<rparr>)"
    "run_steps (take 2 (reconnect_steps sim_api)) s =
       (Inr (), s\<lparr>jlink := Some True, world := (world s)\<lparr>sw_open := True, sw_connected := False, sw_rtt := False\<rparr>\<rparr>)"
    "run_steps (take 3 (reconnect_steps sim_api)) s =
       (Inr (), s\<lparr>jlink := Some True, world := (world s)\<lparr>sw_open := True, sw_connected := True, sw_rtt := True\<rparr>\<rparr>)"
    "run_steps (reconnect_steps sim_api) s =
       (Inr (), s\<lparr>jlink := Some True, world := (world s)\<lparr>sw_open := True, sw_connected := True, sw_rtt := True\<rparr>,
                  stdout := out\<rparr>)"
proof -
  let ?s1 = "s\<lparr>jlink := Some False, world := sim_close_world (world s)\<rparr>"
  let ?s2 = "?s1\<lparr>jlink := Some True, world := (world ?s1)\<lparr>sw_open := True, sw_rtt := False\<rparr>\<rparr>"
  let ?s3 = "?s2\<lparr>world := (world ?s2)\<lparr>sw_connected := True, sw_rtt := True\<rparr>\<rparr>"
  have c1: "jcall (jl_close sim_api) s = (Inr (), ?s1)" using assms by (rule close_sim)
  have c2: "connect_open sim_api ?s1 = (Inr (), ?s2)" by (rule connect_open_sim) simp
  have c3: "connect_target sim_api ?s2 = (Inr (), ?s3)" by (rule connect_target_sim) simp_all
  have "sim_ready ?s3" by (simp add: sim_ready_def)
  then obtain out where c4: "connect_report sim_api ?s3 = (Inr (), ?s3\<lparr>stdout := out\<rparr>)"
    using connect_report_sim by blast
  note runs = thenE_Inr [where m = "jcall (jl_close sim_api)" and s = s, OF c1]
              thenE_Inr [where m = "connect_open sim_api" and s = ?s1, OF c2]
              thenE_Inr [where m = "connect_target sim_api" and s = ?s2, OF c3]
              thenE_Inr [where m = "connect_report sim_api" and s = ?s3, OF c4]
  have r: "run_steps (take 1 (reconnect_steps sim_api)) s = (Inr (), ?s1)"
    "run_steps (take 2 (reconnect_steps sim_api)) s = (Inr (), ?s2)"
    "run_steps (take 3 (reconnect_steps sim_api)) s = (Inr (), ?s3)"
    "run_steps (reconnect_steps sim_api) s = (Inr (), ?s3\<lparr>stdout := out\<rparr>)"
    unfolding reconnect_steps_def
    by (simp_all only: eval_nat_numeral BitM.simps One_nat_def take_Suc_Cons take_0 run_steps.simps runs ret_run)
  show ?thesis by (rule that [of out]) (use r in \<open>simp_all add: sim_close_world_def\<close>)
qed

lemma reconnect_steps_sim:
  assumes "jlink s \<noteq> None"
  shows "fst (run_steps (reconnect_steps sim_api) s) = Inr () \<and> sim_ready (snd (run_steps (reconnect_steps sim_api) s)) \<and>
         world (snd (run_steps (reconnect_steps sim_api) s)) =
           (world s)\<lparr>sw_open := True, sw_connected := True, sw_rtt := True\<rparr>"
  using assms by (rule reconnect_stages) (simp add: sim_ready_def)

subsection \<open>None of the steps touches the buffers\<close>

lemma buf_frame_thenE: "buf_frame m \<Longrightarrow> buf_frame n \<Longrightarrow> buf_frame (thenE m n)"
  by (auto simp: buf_frame_def thenE_def bindE_def split: prod.split sum.split)

lemma buf_frame_run_steps: "list_all buf_frame ms \<Longrightarrow> buf_frame (run_steps ms)"
  by (induction ms) (simp_all add: buf_frame_thenE, simp add: buf_frame_def ret_def)

lemma buf_frame_reconnect_steps: "list_all buf_frame (reconnect_steps sim_api)"
  by (simp add: reconnect_steps_def buf_frame_def connect_open_def connect_target_def connect_report_def
                thenE_def bindE_def new_jlink_def jcall_def print_line_def modifyE_def getsE_def ret_def
                sim_opened_def sim_target_def sim_ok_def sim_close_world_def Let_def
           split: option.split prod.split sum.split)

lemma reconnect_prefix_sim:
  assumes "jlink s \<noteq> None" "k \<le> 4" "sim_ready s \<or> sim_lost s"
  shows "\<exists>t. run_steps (take k (reconnect_steps sim_api)) s = (Inr (), t) \<and> jlink t \<noteq> None \<and>
             sw_up (world t) = sw_up (world s) \<and> sw_down (world t) = sw_down (world s) \<and>
             (sim_ready t \<longleftrightarrow> (if k = 0 then sim_ready s else 3 \<le> k)) \<and> (sim_ready t \<or> sim_lost t)"
proof -
  obtain out where r:
    "run_steps (take 1 (reconnect_steps sim_api)) s = (Inr (), s\<lparr>jlink := Some False, world := sim_close_world (world s)\<rparr>)"
    "run_steps (take 2 (reconnect_steps sim_api)) s =
       (Inr (), s\<lparr>jlink := Some True, world := (world s)\<lparr>sw_open := True, sw_connected := False, sw_rtt := False\<rparr>\<rparr>)"
    "run_steps (take 3 (reconnect_steps sim_api)) s =
       (Inr (), s\<lparr>jlink := Some True, world := (world s)\<lparr>sw_open := True, sw_connected := True, sw_rtt := True\<rparr>\<rparr>)"
    "run_steps (reconnect_steps sim_api) s =
       (Inr (), s\<lparr>jlink := Some True, world := (world s)\<lparr>sw_open := True, sw_connected := True, sw_rtt := True\<rparr>,
                  stdout := out\<rparr>)"
    by (rule reconnect_stages [OF assms(1)])
  have t4: "take 4 (reconnect_steps sim_api) = reconnect_steps sim_api" by (simp add: reconnect_steps_def)
  consider "k = 0" | "k = 1" | "k = 2" | "k = 3" | "k = 4" using assms(2) by arith
  then show ?thesis
  proof cases
    case 1
    then show ?thesis using assms(1,3) by (simp add: ret_run)
  qed (use r in \<open>simp_all add: t4 sim_close_world_def sim_ready_def sim_lost_def ex_bool_eq\<close>)
qed

text \<open>On the simulated probe \<open>reconnect\<close> is its steps run in order: no decorator fires.\<close>

lemma reconnect_sim_steps:
  assumes "jlink s \<noteq> None"
  shows "reconnect sim_api s = run_steps (reconnect_steps sim_api) s"
proof -
  let ?s1 = "s\<lparr>jlink := Some False, world := sim_close_world (world s)\<rparr>"
  have c1: "jcall (jl_close sim_api) s = (Inr (), ?s1)" using assms by (rule close_sim)
  have split: "run_steps (reconnect_steps sim_api) s = run_steps (tl (reconnect_steps sim_api)) ?s1"
    unfolding reconnect_steps_def list.sel run_steps.simps
    by (rule thenE_Inr [where m = "jcall (jl_close sim_api)" and s = s, OF c1])
  obtain F where F: "run_steps (reconnect_steps sim_api) s = (Inr (), F)"
    using reconnect_steps_sim [OF assms] by (metis prod.collapse)
  have "thenE (jcall (jl_close sim_api)) (check_exception ''connect'' (run_steps (tl (reconnect_steps sim_api)))) s =
        check_exception ''connect'' (run_steps (tl (reconnect_steps sim_api))) ?s1"
    by (rule thenE_Inr [where m = "jcall (jl_close sim_api)" and s = s, OF c1])
  also have "\<dots> = (Inr (), F)"
    using F split by (intro check_exception_Inr) simp
  finally have "reconnect sim_api s = (Inr (), F)"
    unfolding reconnect_steps_eq by (rule check_exception_Inr)
  then show ?thesis using F by simp
qed

lemma buf_frame_reconnect: "buf_frame (run_steps (reconnect_steps sim_api))"
  using buf_frame_reconnect_steps by (rule buf_frame_run_steps)

text \<open>
  A call of the other thread after the first \<open>k\<close> steps: whatever it does to the
  buffers, the rest of \<open>reconnect\<close> keeps, and the flags and handle end as a whole
  \<open>reconnect\<close> leaves them.
\<close>

lemma call_during_reconnect_run:
  assumes "jlink s \<noteq> None" "k \<le> 4" "sim_ready s \<or> sim_lost s"
  obtains t F where "jlink t \<noteq> None" "sim_ready t \<or> sim_lost t" "k = 0 \<Longrightarrow> t = s"
    "sw_up (world t) = sw_up (world s)" "sw_down (world t) = sw_down (world s)"
    "sim_ready t \<longleftrightarrow> (if k = 0 then sim_ready s else 3 \<le> k)"
    "run_steps (reconnect_steps sim_api) s = (Inr (), F)" "sim_ready F"
    "world F = (world s)\<lparr>sw_open := True, sw_connected := True, sw_rtt := True\<rparr>"
    "\<And>c r u d. c t = (r, t\<lparr>world := (world t)\<lparr>sw_up := u, sw_down := d\<rparr>\<rparr>) \<Longrightarrow>
       call_during_reconnect k c s = (r, Inr (), F\<lparr>world := (world F)\<lparr>sw_up := u, sw_down := d\<rparr>\<rparr>)"
proof -
  let ?ss = "reconnect_steps sim_api"
  obtain t where t: "run_steps (take k ?ss) s = (Inr (), t)" "jlink t \<noteq> None"
      "sw_up (world t) = sw_up (world s)" "sw_down (world t) = sw_down (world s)"
      "sim_ready t \<longleftrightarrow> (if k = 0 then sim_ready s else 3 \<le> k)" "sim_ready t \<or> sim_lost t"
    using reconnect_prefix_sim [OF assms] by blast
  have t0: "k = 0 \<Longrightarrow> t = s" using t(1) by (simp add: ret_run)
  obtain F where F: "run_steps ?ss s = (Inr (), F)"
    using reconnect_steps_sim [OF assms(1)] by (metis prod.collapse)
  have Fw: "sim_ready F" "world F = (world s)\<lparr>sw_open := True, sw_connected := True, sw_rtt := True\<rparr>"
    using reconnect_steps_sim [OF assms(1)] F by simp_all
  have "run_steps ?ss s = run_steps (drop k ?ss) t"
    using thenE_Inr [where m = "run_steps (take k ?ss)" and s = s, OF t(1)] run_steps_append [of "take k ?ss" "drop k ?ss"]
    by simp
  then have rest: "run_steps (drop k ?ss) t = (Inr (), F)" using F by simp
  have fr: "buf_frame (run_steps (drop k ?ss))"
    using buf_frame_reconnect_steps by (intro buf_frame_run_steps) (auto simp: list_all_iff dest: in_set_dropD)
  have "call_during_reconnect k c s = (r, Inr (), F\<lparr>world := (world F)\<lparr>sw_up := u, sw_down := d\<rparr>\<rparr>)"
    if "c t = (r, t\<lparr>world := (world t)\<lparr>sw_up := u, sw_down := d\<rparr>\<rparr>)" for c :: "(bool, sim_world, 'a) prog" and r u d
    using that fr rest by (simp add: call_during_reconnect_def t(1) buf_frame_def)
  then show ?thesis using that t(2-6) t0 F Fw by blast
qed

subsection \<open>Reads and writes between the steps\<close>

lemma read_during_reconnect_run:
  assumes "jlink s \<noteq> None" "k \<le> 4" "sim_ready s \<or> sim_lost s" "n < length (sw_up (world s))"
  obtains F where "run_steps (reconnect_steps sim_api) s = (Inr (), F)" "sim_ready F"
    "world F = (world s)\<lparr>sw_open := True, sw_connected := True, sw_rtt := True\<rparr>"
    "read_during_reconnect k n s =
       (if (if k = 0 then sim_ready s else 3 \<le> k)
        then (Inr (fst (rb_read (sw_up (world s) ! n) 336)), Inr (),
              F\<lparr>world := (world F)\<lparr>sw_up := (sw_up (world s))[n := snd (rb_read (sw_up (world s) ! n) 336)]\<rparr>\<rparr>)
        else (Inl rtt_exc, Inr (), F))"
proof (rule call_during_reconnect_run [OF assms(1-3)])
    fix t F
    assume T: "jlink t \<noteq> None" "sim_ready t \<or> sim_lost t" "k = 0 \<Longrightarrow> t = s"
      "sw_up (world t) = sw_up (world s)" "sw_down (world t) = sw_down (world s)"
      "sim_ready t \<longleftrightarrow> (if k = 0 then sim_ready s else 3 \<le> k)"
      "run_steps (reconnect_steps sim_api) s = (Inr (), F)" "sim_ready F"
      "world F = (world s)\<lparr>sw_open := True, sw_connected := True, sw_rtt := True\<rparr>"
    assume C: "\<And>(c :: (bool, sim_world, byte list) prog) r u d. c t = (r, t\<lparr>world := (world t)\<lparr>sw_up := u, sw_down := d\<rparr>\<rparr>) \<Longrightarrow>
       call_during_reconnect k c s = (r, Inr (), F\<lparr>world := (world F)\<lparr>sw_up := u, sw_down := d\<rparr>\<rparr>)"
  let ?u = "(sw_up (world s))[n := snd (rb_read (sw_up (world s) ! n) 336)]"
  have "read_during_reconnect k n s =
       (if sim_ready t then (Inr (fst (rb_read (sw_up (world s) ! n) 336)), Inr (),
              F\<lparr>world := (world F)\<lparr>sw_up := ?u, sw_down := sw_down (world t)\<rparr>\<rparr>)
        else (Inl rtt_exc, Inr (), F\<lparr>world := (world F)\<lparr>sw_up := sw_up (world t), sw_down := sw_down (world t)\<rparr>\<rparr>))"
  proof (cases "sim_ready t")
    case True
    then have "read_rtt sim_api n t =
        (Inr (fst (rb_read (sw_up (world s) ! n) 336)), t\<lparr>world := (world t)\<lparr>sw_up := ?u, sw_down := sw_down (world t)\<rparr>\<rparr>)"
      using read_rtt_sim_run [of t n] T(1,2,4) assms(4) by simp
    from C [of "read_rtt sim_api n", OF this] True show ?thesis by (simp add: read_during_reconnect_def)
  next
    case False
    then have "read_rtt sim_api n t =
        (Inl rtt_exc, t\<lparr>world := (world t)\<lparr>sw_up := sw_up (world t), sw_down := sw_down (world t)\<rparr>\<rparr>)"
      using read_rtt_sim_run [of t n] T(1,2) by simp
    from C [of "read_rtt sim_api n", OF this] False show ?thesis by (simp add: read_during_reconnect_def)
  qed
  then have "read_during_reconnect k n s =
       (if (if k = 0 then sim_ready s else 3 \<le> k)
        then (Inr (fst (rb_read (sw_up (world s) ! n) 336)), Inr (), F\<lparr>world := (world F)\<lparr>sw_up := ?u\<rparr>\<rparr>)
        else (Inl rtt_exc, Inr (), F))"
    using T(4-6,9) by simp
  then show ?thesis by (rule that [OF T(7-9)])
qed

lemma write_during_reconnect_run:
  assumes "jlink s \<noteq> None" "k \<le> 4" "sim_ready s \<or> sim_lost s" "n < length (sw_down (world s))"
  obtains F where "run_steps (reconnect_steps sim_api) s = (Inr (), F)" "sim_ready F"
    "world F = (world s)\<lparr>sw_open := True, sw_connected := True, sw_rtt := True\<rparr>"
    "write_during_reconnect k d n s =
       (if (if k = 0 then sim_ready s else 3 \<le> k)
        then (Inr (), Inr (),
              F\<lparr>world := (world F)\<lparr>sw_down := (sw_down (world s))[n := fst (rb_write (sw_down (world s) ! n) d)]\<rparr>\<rparr>)
        else (Inl rtt_exc, Inr (), F))"
proof (rule call_during_reconnect_run [OF assms(1-3)])
    fix t F
    assume T: "jlink t \<noteq> None" "sim_ready t \<or> sim_lost t" "k = 0 \<Longrightarrow> t = s"
      "sw_up (world t) = sw_up (world s)" "sw_down (world t) = sw_down (world s)"
      "sim_ready t \<longleftrightarrow> (if k = 0 then sim_ready s else 3 \<le> k)"
      "run_steps (reconnect_steps sim_api) s = (Inr (), F)" "sim_ready F"
      "world F = (world s)\<lparr>sw_open := True, sw_connected := True, sw_rtt := True\<rparr>"
    assume C: "\<And>(c :: (bool, sim_world, unit) prog) r u d. c t = (r, t\<lparr>world := (world t)\<lparr>sw_up := u, sw_down := d\<rparr>\<rparr>) \<Longrightarrow>
       call_during_reconnect k c s = (r, Inr (), F\<lparr>world := (world F)\<lparr>sw_up := u, sw_down := d\<rparr>\<rparr>)"
  let ?v = "(sw_down (world s))[n := fst (rb_write (sw_down (world s) ! n) d)]"
  have "write_during_reconnect k d n s =
       (if sim_ready t then (Inr (), Inr (), F\<lparr>world := (world F)\<lparr>sw_up := sw_up (world t), sw_down := ?v\<rparr>\<rparr>)
        else (Inl rtt_exc, Inr (), F\<lparr>world := (world F)\<lparr>sw_up := sw_up (world t), sw_down := sw_down (world t)\<rparr>\<rparr>))"
  proof (cases "sim_ready t")
    case True
    then have "write_rtt sim_api d n t = (Inr (), t\<lparr>world := (world t)\<lparr>sw_up := sw_up (world t), sw_down := ?v\<rparr>\<rparr>)"
      using write_rtt_sim_run [of t d n] T(1,2,5) assms(4) by simp
    from C [of "write_rtt sim_api d n", OF this] True show ?thesis by (simp add: write_during_reconnect_def)
  next
    case False
    then have "write_rtt sim_api d n t =
        (Inl rtt_exc, t\<lparr>world := (world t)\<lparr>sw_up := sw_up (world t), sw_down := sw_down (world t)\<rparr>\<rparr>)"
      using write_rtt_sim_run [of t d n] T(1,2) by simp
    from C [of "write_rtt sim_api d n", OF this] False show ?thesis by (simp add: write_during_reconnect_def)
  qed
  then have "write_during_reconnect k d n s =
       (if (if k = 0 then sim_ready s else 3 \<le> k)
        then (Inr (), Inr (), F\<lparr>world := (world F)\<lparr>sw_down := ?v\<rparr>\<rparr>)
        else (Inl rtt_exc, Inr (), F))"
    using T(4-6,9) by simp
  then show ?thesis by (rule that [OF T(7-9)])
qed

subsection \<open>The two serial orders\<close>

lemma call_then_reconnect_read:
  assumes "jlink s \<noteq> None" "sim_ready s \<or> sim_lost s" "n < length (sw_up (world s))"
    and F: "run_steps (reconnect_steps sim_api) s = (Inr (), F)"
  shows "call_then_reconnect (read_rtt sim_api n) s =
           (if sim_ready s
            then (Inr (fst (rb_read (sw_up (world s) ! n) 336)), Inr (),
                  F\<lparr>world := (world F)\<lparr>sw_up := (sw_up (world s))[n := snd (rb_read (sw_up (world s) ! n) 336)]\<rparr>\<rparr>)
            else (Inl rtt_exc, Inr (), F))"
proof (cases "sim_ready s")
  case True
  let ?u = "(sw_up (world s))[n := snd (rb_read (sw_up (world s) ! n) 336)]"
  let ?s1 = "s\<lparr>world := (world s)\<lparr>sw_up := ?u, sw_down := sw_down (world s)\<rparr>\<rparr>"
  have r: "read_rtt sim_api n s = (Inr (fst (rb_read (sw_up (world s) ! n) 336)), ?s1)"
    using read_rtt_sim_run [of s n] assms(1-3) True by simp
  have "run_steps (reconnect_steps sim_api) ?s1 =
      (fst (run_steps (reconnect_steps sim_api) s),
       (snd (run_steps (reconnect_steps sim_api) s))\<lparr>world := (world (snd (run_steps (reconnect_steps sim_api) s)))\<lparr>sw_up := ?u, sw_down := sw_down (world s)\<rparr>\<rparr>)"
    using buf_frame_reconnect unfolding buf_frame_def by blast
  then have fr: "run_steps (reconnect_steps sim_api) ?s1 =
      (Inr (), F\<lparr>world := (world F)\<lparr>sw_up := ?u, sw_down := sw_down (world s)\<rparr>\<rparr>)"
    by (simp only: F fst_conv snd_conv)
  have "reconnect sim_api ?s1 = run_steps (reconnect_steps sim_api) ?s1"
    by (rule reconnect_sim_steps) (use assms(1) in simp)
  moreover have "sw_down (world F) = sw_down (world s)" using reconnect_steps_sim [OF assms(1)] F by simp
  ultimately show ?thesis using r True fr by (simp add: call_then_reconnect_def)
next
  case False
  then show ?thesis using read_rtt_sim_run [of s n] reconnect_sim_steps [OF assms(1)] F assms(1,2)
    by (simp add: call_then_reconnect_def)
qed

lemma reconnect_then_read:
  assumes "jlink s \<noteq> None" "n < length (sw_up (world s))"
    and F: "run_steps (reconnect_steps sim_api) s = (Inr (), F)"
  shows "reconnect_then_call (read_rtt sim_api n) s =
           (Inr (fst (rb_read (sw_up (world s) ! n) 336)), Inr (),
            F\<lparr>world := (world F)\<lparr>sw_up := (sw_up (world s))[n := snd (rb_read (sw_up (world s) ! n) 336)]\<rparr>\<rparr>)"
proof -
  have "sim_ready F" "sw_up (world F) = sw_up (world s)" using reconnect_steps_sim [OF assms(1)] F by simp_all
  then show ?thesis using read_rtt_sim_run [of F n] reconnect_sim_steps [OF assms(1)] F assms(2)
    by (simp add: reconnect_then_call_def sim_ready_def)
qed

subsection \<open>Properties of a second caller thread\<close>

text \<open>
  C28. \<open>read_rtt\<close> from a second thread during \<open>reconnect\<close> (no lock, spec sections 5
  and 9). Take any session state with a probe handle and a valid up-channel \<open>n\<close>. Run
  the other thread's \<open>read_rtt(n)\<close> after the first \<open>k \<le> 4\<close> steps of \<open>reconnect\<close>.
  Then \<open>reconnect\<close> still returns normally and leaves the probe ready. No byte is lost
  or duplicated: what the read returned, followed by what stays pending, is what was
  pending before. The down-channels are untouched. The read raises the generic
  \<open>rtt_exc\<close> exactly when it falls between \<open>close()\<close> and \<open>rtt_start()\<close> (after one
  or two steps), or before the first step on a lost connection. That error is spurious:
  the caller cannot tell it from a real loss of the probe.
\<close>

theorem read_during_reconnect_safe:
  assumes "session racing faults s h" "jlink s \<noteq> None" "k \<le> 4" "n < length (sw_up (world s))"
  shows "fst (snd (read_during_reconnect k n s)) = Inr () \<and> sim_ready (snd (snd (read_during_reconnect k n s))) \<and>
         sw_down (world (snd (snd (read_during_reconnect k n s)))) = sw_down (world s) \<and>
         (case fst (read_during_reconnect k n s) of
            Inr d \<Rightarrow> d @ rb_content (sw_up (world (snd (snd (read_during_reconnect k n s)))) ! n) =
                     rb_content (sw_up (world s) ! n)
          | Inl e \<Rightarrow> e = rtt_exc \<and> sw_up (world (snd (snd (read_during_reconnect k n s)))) = sw_up (world s)) \<and>
         (fst (read_during_reconnect k n s) = Inl rtt_exc \<longleftrightarrow> (if k = 0 then \<not> sim_ready s else k \<le> 2))"
proof -
  have c: "conn_inv faults s" using assms(1) by (rule session_conn)
  have rl: "sim_ready s \<or> sim_lost s" using conn_inv_run(1) [OF c] assms(2) by simp
  have b: "rb_inv (sw_up (world s) ! n)" using conn_inv_run(2) [OF c] assms(4) by (rule sim_up_inv)
  obtain F where "run_steps (reconnect_steps sim_api) s = (Inr (), F)" "sim_ready F"
    "world F = (world s)\<lparr>sw_open := True, sw_connected := True, sw_rtt := True\<rparr>"
    "read_during_reconnect k n s =
       (if (if k = 0 then sim_ready s else 3 \<le> k)
        then (Inr (fst (rb_read (sw_up (world s) ! n) 336)), Inr (),
              F\<lparr>world := (world F)\<lparr>sw_up := (sw_up (world s))[n := snd (rb_read (sw_up (world s) ! n) 336)]\<rparr>\<rparr>)
        else (Inl rtt_exc, Inr (), F))"
    by (rule read_during_reconnect_run [OF assms(2,3) rl assms(4)])
  then show ?thesis using rb_read_take_drop [OF b, of 336] assms(4) by (auto simp: sim_ready_def)
qed

text \<open>
  C29. \<open>write_rtt\<close> from a second thread during \<open>reconnect\<close>. Take any session state
  with a probe handle and a valid down-channel \<open>n\<close>. Run the other thread's
  \<open>write_rtt(data, n)\<close> after the first \<open>k \<le> 4\<close> steps of \<open>reconnect\<close>. Then
  \<open>reconnect\<close> still returns normally and leaves the probe ready, and the up-channels are
  untouched. A write that returns normally has appended to the channel what
  \<open>SEGGER_RTT\<close> accepted of \<open>data\<close>, after the bytes already pending. A write that
  raises raises \<open>rtt_exc\<close> and leaves every down-channel as it was. It raises exactly
  in the window between \<open>close()\<close> and \<open>rtt_start()\<close>, or before the first step on a
  lost connection. The caller sees the same error as for a lost probe and must send the
  data again.
\<close>

theorem write_during_reconnect_safe:
  assumes "session racing faults s h" "jlink s \<noteq> None" "k \<le> 4" "n < length (sw_down (world s))"
  shows "fst (snd (write_during_reconnect k d n s)) = Inr () \<and> sim_ready (snd (snd (write_during_reconnect k d n s))) \<and>
         sw_up (world (snd (snd (write_during_reconnect k d n s)))) = sw_up (world s) \<and>
         (case fst (write_during_reconnect k d n s) of
            Inr _ \<Rightarrow> rb_content (sw_down (world (snd (snd (write_during_reconnect k d n s)))) ! n) =
                     rb_content (sw_down (world s) ! n) @ take (snd (rb_write (sw_down (world s) ! n) d)) d
          | Inl e \<Rightarrow> e = rtt_exc \<and> sw_down (world (snd (snd (write_during_reconnect k d n s)))) = sw_down (world s)) \<and>
         (fst (write_during_reconnect k d n s) = Inl rtt_exc \<longleftrightarrow> (if k = 0 then \<not> sim_ready s else k \<le> 2))"
proof -
  have c: "conn_inv faults s" using assms(1) by (rule session_conn)
  have rl: "sim_ready s \<or> sim_lost s" using conn_inv_run(1) [OF c] assms(2) by simp
  have b: "rb_inv (sw_down (world s) ! n)" using conn_inv_run(2) [OF c] assms(4) by (rule sim_down_inv)
  have "rb_mode (sw_down (world s) ! n) = Blocking"
    using session_down [OF assms(1)] assms(4) by (simp add: down_inv_def list_all_length)
  note acc = rb_write_accepted(1) [OF b this, of d]
  obtain F where "run_steps (reconnect_steps sim_api) s = (Inr (), F)" "sim_ready F"
    "world F = (world s)\<lparr>sw_open := True, sw_connected := True, sw_rtt := True\<rparr>"
    "write_during_reconnect k d n s =
       (if (if k = 0 then sim_ready s else 3 \<le> k)
        then (Inr (), Inr (),
              F\<lparr>world := (world F)\<lparr>sw_down := (sw_down (world s))[n := fst (rb_write (sw_down (world s) ! n) d)]\<rparr>\<rparr>)
        else (Inl rtt_exc, Inr (), F))"
    by (rule write_during_reconnect_run [OF assms(2,3) rl assms(4)])
  then show ?thesis using acc assms(4) by (auto simp: sim_ready_def)
qed

text \<open>
  C31. Without a lock, a read during \<open>reconnect\<close> is not always one of the two serial
  executions a lock allows. Before the first step it is the read followed by the whole
  \<open>reconnect\<close>, and after \<open>rtt_start()\<close> it is the whole \<open>reconnect\<close> followed by the
  read: same values and same final state. After one or two steps on a ready probe it is
  neither. The read raises, while both serial orders return data.
\<close>

theorem read_during_reconnect_serial:
  assumes "session racing faults s h" "jlink s \<noteq> None" "k \<le> 4" "n < length (sw_up (world s))"
  shows "(k = 0 \<longrightarrow> read_during_reconnect k n s = call_then_reconnect (read_rtt sim_api n) s) \<and>
         (3 \<le> k \<longrightarrow> read_during_reconnect k n s = reconnect_then_call (read_rtt sim_api n) s) \<and>
         (sim_ready s \<and> 0 < k \<and> k \<le> 2 \<longrightarrow>
            fst (read_during_reconnect k n s) \<noteq> fst (call_then_reconnect (read_rtt sim_api n) s) \<and>
            fst (read_during_reconnect k n s) \<noteq> fst (reconnect_then_call (read_rtt sim_api n) s))"
proof -
  have c: "conn_inv faults s" using assms(1) by (rule session_conn)
  have rl: "sim_ready s \<or> sim_lost s" using conn_inv_run(1) [OF c] assms(2) by simp
  obtain F where F: "run_steps (reconnect_steps sim_api) s = (Inr (), F)"
    and r: "read_during_reconnect k n s =
       (if (if k = 0 then sim_ready s else 3 \<le> k)
        then (Inr (fst (rb_read (sw_up (world s) ! n) 336)), Inr (),
              F\<lparr>world := (world F)\<lparr>sw_up := (sw_up (world s))[n := snd (rb_read (sw_up (world s) ! n) 336)]\<rparr>\<rparr>)
        else (Inl rtt_exc, Inr (), F))"
    by (rule read_during_reconnect_run [OF assms(2,3) rl assms(4)])
  show ?thesis
    using r call_then_reconnect_read [OF assms(2) rl assms(4) F] reconnect_then_read [OF assms(2,4) F] by auto
qed

end
