(* ===== verification/Spec2Isabelle.thy ===== *)
theory Spec2Isabelle
  imports Mock_JLink Session_Race Session_Down RTT_Poll Dongle_Calls Threads
begin

text \<open>
  \<^bold>\<open>A verification library for rtt-console's \<open>JLinkDongle\<close>.\<close>

  \<^emph>\<open>The program.\<close> \<open>src/rtt_console/jlink_dongle.py\<close> is one class, \<open>JLinkDongle\<close>, a
  dataclass with the fields \<open>interface\<close>, \<open>speed\<close>, \<open>chip_name\<close> and the slot
  \<open>jlink\<close> (a \<open>pylink.JLink\<close> object, unassigned until \<open>connect\<close>). Its methods are
  thin sequences of pylink calls: \<open>connect\<close> (lines 35--50) creates and opens a probe
  handle, selects the target interface, connects to the chip, starts RTT and prints a
  report; \<open>read_rtt\<close> and \<open>write_rtt\<close> (52--58) pass through to \<open>rtt_read\<close> and
  \<open>rtt_write\<close>; \<open>read_rtt_string\<close> and \<open>write_rtt_sring\<close> (60--67) add UTF-8
  decoding and encoding; \<open>reconnect\<close> (69--73) closes the handle and connects again.
  The decorator \<open>check_exception\<close> (22--33) wraps \<open>connect\<close>, \<open>read_rtt\<close>,
  \<open>write_rtt\<close> and \<open>reconnect\<close> and turns a pylink exception into a
  \<open>JLinkDongleException\<close> (9--13). The components interact only by calls: the decorator
  wraps methods, the string methods call the byte methods, \<open>reconnect\<close> calls
  \<open>connect\<close>, and every method calls pylink through the one shared slot.

  \<^emph>\<open>The model.\<close> Python code that mutates the object and may raise is a state
  transformer with exceptions, \<open>('s, 'e, 'a) exn_st\<close> (theory \<open>Prelude\<close>: \<open>ret\<close>,
  \<open>throw\<close>, \<open>bindE\<close>, \<open>thenE\<close>, \<open>catchE\<close>); the state after a raise is kept, as
  Python keeps it. The theories, in import order:
  \<^item> \<open>Prelude\<close>: the monad, its execution rules (collection \<open>run_simps\<close>), the
    invariant combinator \<open>preserves\<close> and the call-log predicate \<open>emits\<close> with its
    composition rules.
  \<^item> \<open>Python\<close>: the exceptions the module raises or lets through (\<open>pyexc\<close>),
    \<open>str()\<close> of a non-negative integer (\<open>show_nat\<close>), \<open>int.from_bytes(_, 'big')\<close>
    and the \<open>:.3f\<close> rendering of a frequency in MHz.
  \<^item> \<open>Check_Exception\<close>: colorama's codes and the decorator (\<open>check_exception\<close>,
    \<open>dongle_error_message\<close>, \<open>relabel\<close>).
  \<^item> \<open>JLink_API\<close>: the interface to pylink, a record \<open>jlink_api\<close> with one field per
    method the module calls (plus the constructor \<open>JLink()\<close> and CPython's finalizer),
    and the instrumented library \<open>traced\<close> that logs every call, used to state call
    orders.
  \<^item> \<open>Utf8\<close>: Python's strict \<open>'utf-8'\<close> codec (\<open>utf8_encode\<close>, \<open>utf8_decode\<close>),
    with code points as natural numbers and bytes as \<open>8 word\<close>; its round trip in both
    directions and the index of an encoding error are library lemmas that the string
    methods' properties (C6, C11, C24) use.
  \<^item> \<open>Dongle\<close>: the class. \<open>pstate\<close> is the object's fields plus the world pylink acts
    on and the lines printed; \<open>jcall\<close> is \<open>self.jlink.m(...)\<close>, \<open>new_jlink\<close> is
    \<open>self.jlink = JLink()\<close>; \<open>connect\<close> is split as the source is written into
    \<open>connect_open\<close> (37--41), \<open>connect_target\<close> (42--43) and \<open>connect_report\<close>
    (44--50); \<open>read_rtt\<close>, \<open>write_rtt\<close>, \<open>read_rtt_string\<close>, \<open>write_rtt_sring\<close>
    and \<open>reconnect\<close> follow their methods line by line.
  \<^item> \<open>Mock_JLink\<close>: a concrete pylink double on which the witnesses below run.
  \<^item> \<open>World_Invariant\<close>: the interface contract \<open>api_keeps Q api\<close> (every pylink
    method keeps \<open>Q\<close> of the world) and the client lemma that every dongle method then
    keeps \<open>Q\<close> (\<open>connect_keeps\<close>, \<open>dongle_ops_keep\<close>).
  \<^item> \<open>RTT_Buffer\<close>: the other end of \<open>rtt_read\<close>/\<open>rtt_write\<close>, one RTT channel's
    circular buffer in target memory as SEGGER RTT keeps it (spec sections 3, 4.3, 5),
    with the spec's overwrite policy as a second mode, which SEGGER RTT does not have:
    size, \<open>RdOff\<close>, \<open>WrOff\<close>, memory, mode (\<open>rtt_buffer\<close>); the two-\<open>memcpy\<close>
    copies (\<open>rb_copy_in\<close>, \<open>rb_copy_out\<close>), the consumer's read (\<open>rb_read\<close>), the
    producer's blocking or overwriting write (\<open>rb_write\<close>), and a host read with a
    target write between its offset snapshot and its copy (\<open>rb_read_interleaved\<close>).
    Its lemmas: the two-\<open>memcpy\<close> copies equal the cell-by-cell reference
    (\<open>rb_copy_in_ring_put\<close>, \<open>rb_copy_out_rotate\<close>); read and write refine a FIFO
    queue of capacity \<open>size - 1\<close> and keep the invariant \<open>rb_inv\<close>
    (\<open>rb_refines_fifo\<close>); the capacity bound and the overwrite count
    (\<open>rb_capacity\<close>); a snapshot-first read is consistent against a concurrent blocking
    write (\<open>rb_read_interleaved_fifo\<close>) and torn by a concurrent overwrite
    (\<open>rb_overwrite_read_torn\<close>).
  \<^item> \<open>JLink_Sim\<close>: a simulated probe and target, the second instance of
    \<open>jlink_api\<close> (\<open>sim_api\<close>): connection flags and the target's up and down channel
    buffers, pylink's \<open>@open_required\<close> checks, and the firmware's steps
    (\<open>target_write\<close>, \<open>target_read\<close>, \<open>target_echo\<close>).
  \<^item> \<open>RTT_Session\<close>: sessions, an inductive relation: from a fresh object, any
    interleaving of the dongle's six calls (\<open>host_exec\<close>, which returns the state and
    the exception or value the caller sees) and firmware steps, with ghost histories
    (\<open>rtt_hist\<close>): bytes the firmware put into each up-channel, bytes \<open>read_rtt\<close>
    returned, one \<open>delivery\<close> per read (bytes, decoded text, or a chunk lost to a
    \<open>UnicodeDecodeError\<close>), the data of each \<open>write_rtt\<close> call that returned, the
    bytes each down-channel accepted and the bytes the firmware read from it. The runs of
    the calls on the simulated probe (\<open>read_rtt_sim_run\<close>, \<open>write_rtt_sim_run\<close>,
    \<open>host_exec_state\<close>) and the connection invariant \<open>conn_inv\<close>: the object is
    unconnected, ready, or (only with \<open>faults\<close>) holds a handle whose connection the
    probe lost or never opened, or whose RTT is stopped (\<open>sim_lost\<close>; the last is
    also the state between \<open>connect\<close>'s \<open>rtt_stop()\<close> and \<open>rtt_start()\<close>). A session has two flags: \<open>racing\<close>
    (reads may race the firmware, below) and \<open>faults\<close> (the probe may drop the
    connection at any step, rule \<open>lose\<close>; \<open>connect\<close> may run while it is unplugged,
    rule \<open>absent\<close> against \<open>sim_absent_api\<close>, or against a target that does not answer,
    rule \<open>silent\<close> against \<open>sim_silent_api e\<close>).
  \<^item> \<open>Session_Up\<close> and \<open>Session_Down\<close>: the invariants of the two directions by rule
    induction, \<open>up_inv\<close> (per channel \<open>chan_ok\<close>: a FIFO stream in blocking mode, a
    subsequence with the most recent bytes pending in overwrite mode; the deliveries
    account for every byte read) and \<open>down_inv\<close>.
  \<^item> \<open>Session_Race\<close>: a racing session on the spec's overwrite channel
    (\<open>session_overwrite_race_reorders\<close>), a demonstration of the modelled DLL read
    that backs a finding on spec section 5, not a property of \<open>read_rtt\<close>. A session has a
    flag \<open>racing\<close>; when it is set, a \<open>read_rtt\<close> may run against
    \<open>sim_race_api d\<close> (theory \<open>JLink_Sim\<close>), where the firmware writes \<open>d\<close> between
    the DLL's offset snapshot and its copy (\<open>rb_read_interleaved\<close>). A write before
    the snapshot or after the copy is an ordinary firmware step, and in blocking mode
    the firmware never touches the bytes being copied, so this one interleaving stands
    for all of them there.
  \<^item> \<open>Threads\<close>: a second caller thread on the same object, which has no lock.
    \<open>reconnect_steps\<close> is \<open>reconnect\<close> as its list of four steps (\<open>close()\<close>, then
    \<open>connect\<close>'s open, target and report parts), \<open>run_steps\<close> runs such a list
    (\<open>reconnect_steps_eq\<close> ties the two; on the simulated probe they run alike,
    \<open>reconnect_sim_steps\<close>), and \<open>call_during_reconnect k c\<close> runs the other thread's
    call \<open>c\<close> after the first \<open>k\<close> steps (\<open>read_during_reconnect\<close>,
    \<open>write_during_reconnect\<close>). \<open>call_then_reconnect\<close> and \<open>reconnect_then_call\<close>
    are the two serial orders a lock would allow. \<open>buf_frame\<close>: none of the steps
    touches a channel buffer, so the call commutes with the rest of \<open>reconnect\<close>
    (\<open>call_during_reconnect_run\<close>).
  \<^item> \<open>RTT_Strings\<close>: the string methods over any library and over the simulated
    probe (the codec's scalar and length facts, \<open>read_rtt_string_run\<close>).
  \<^item> \<open>RTT_Poll\<close>: the terminal's poll loop \<open>rtt_drain\<close> (read until a read is
    empty), a \<open>partial_function (option)\<close>.
  \<^item> \<open>Dongle_Calls\<close>: the pylink calls each RTT method makes, read off \<open>traced\<close>.
  Both \<open>RTT_Buffer\<close> and \<open>JLink_Sim\<close> are modelled from the spec and pylink's documented
  behaviour: they are not code of the repository, which reaches them only through
  pylink.
  Every operation of \<open>Dongle\<close> is defined for an arbitrary library \<open>api\<close>, so its
  lemmas hold whatever pylink does; the mock and the instrumented library are two
  instances.

  \<^emph>\<open>What is proved.\<close> The decorator's contract (C1). \<open>connect\<close>'s exact call
  sequence, a prefix of it when it raises (C2), and that it never reads \<open>interface\<close>
  (C3). The behaviour of every method before the first \<open>connect\<close> (C4) and of
  \<open>reconnect\<close> (C5). The string methods' round trip: \<open>write_rtt_sring\<close>, a firmware
  echo and \<open>read_rtt_string\<close> return the string written (C6). Then behaviour that
  differs from what the spec or the method names promise: a character split between two
  RTT reads raises (C7), a failed \<open>connect\<close> keeps the new handle (C8), \<open>read_rtt\<close>
  drops the cause of a pylink error (C9), \<open>write_rtt\<close> drops the count of a short
  write (C10), and \<open>write_rtt_sring\<close> fails before any probe access on a lone
  surrogate (C11). Against the simulated probe, end to end: \<open>read_rtt\<close> is a FIFO
  read of at most 336 bytes (C12); \<open>write_rtt\<close> returns normally while dropping what
  does not fit (C13); \<open>connect\<close> and \<open>reconnect\<close> succeed from every state and keep
  the target's buffers, pending data included (C14); a write, a firmware echo and a read
  return the data written (C15). In every session without faults the object is
  unconnected or fully connected (C16), and blocking up-channel data reaches the caller
  without loss, duplication or reordering, across reconnects (C17). A read returns at
  most 336 bytes or characters (C18); a read that does not decode loses its whole chunk
  (C19); each RTT method makes exactly its one pylink call, and none before
  \<open>connect\<close> (C20); the poll loop terminates on a quiet target with all pending data
  (C21). On the simulated probe \<open>connect\<close> prints exactly its five report lines (C22).
  In every session what the firmware reads from a down-channel is what the channel
  accepted, a concatenation of one prefix of each returned \<open>write_rtt\<close>, in call
  order, so a tail may be missing although the call reported success (C23). When the
  caller mixes \<open>read_rtt\<close> and \<open>read_rtt_string\<close> on a blocking up-channel, every
  byte the firmware sent is pending, or was returned as bytes, or is the exact UTF-8
  encoding of returned text, or was lost in a chunk that failed to decode (C24); the
  spec's overwrite up-channel loses bytes but never invents, duplicates or reorders
  them, and keeps the most recent ones (C25). C16, C17, C23 and C24 hold in racing
  sessions too (\<open>Session_Race\<close> shows why C25 cannot). When the probe drops the
  connection, the object keeps its handle; \<open>read_rtt\<close>, \<open>read_rtt_string\<close> and
  \<open>write_rtt\<close> then raise \<open>'Do not read/write from RTT Terminal'\<close> and change
  nothing (C26); C17, C23 and C24 hold across such losses. A \<open>connect\<close> while the probe
  is unplugged raises the decorated error and leaves the object with a fresh unopened
  handle, so reads then raise \<open>'Do not read/write from RTT Terminal'\<close> rather than
  \<open>AttributeError\<close> (C27). A \<open>read_rtt\<close> from another thread between any two steps
  of \<open>reconnect\<close> loses and duplicates nothing, and \<open>reconnect\<close> still leaves the
  probe ready; but after \<open>close()\<close> and before \<open>rtt_start()\<close> the read raises the
  same error as a lost probe (C28). A \<open>write_rtt\<close> in the same place either appends
  what the channel accepted or raises with the down-channels unchanged, in the same
  window (C29). A \<open>connect\<close> on a target that does not answer raises the decorated
  error and leaves an opened emulator with RTT stopped, from which RTT calls raise and
  one \<open>reconnect\<close> recovers (C30). Without a lock a read during \<open>reconnect\<close> equals a
  serial order before the first step and after \<open>rtt_start()\<close>, and matches neither in
  between (C31). No
  definition uses fuel: every recursion of the program is structural or has a measure
  (\<open>show_nat\<close>, \<open>utf8_decode_from\<close>), so every operation is total. The one loop
  without a bound of its own, the caller's \<open>rtt_drain\<close>, is a
  \<open>partial_function (option)\<close>, and C21 proves that it returns (\<open>Some\<close>) by induction
  on the number of pending bytes; the read size 336 is pylink's \<open>MAX_BUF_SIZE\<close>.

  \<^emph>\<open>Not modelled.\<close> pylink and the J-Link DLL are not code of this repository: they
  are the parameter \<open>api\<close>, of which nothing is assumed in \<open>Dongle\<close>; \<open>JLink_Sim\<close>
  is one instance of it, with fixed answers for the speed, core name and CPU clock, and
  with two assumptions about pylink that are not checked against its source here: \<open>close()\<close> does not raise, and \<open>disable_dialog_boxes()\<close> works before
  \<open>open()\<close>; C14 and C26--C31 rest on them. The
  spec's transport layer, handshake and RTT control-block discovery (spec section 4) are
  not modelled: the simulation starts RTT on a connected target in one step. The float formatting of
  \<open>cpu_speed() / 1e6\<close> is modelled with halves rounded up (see \<open>fmt_mhz\<close>).
  Console lines and messages are Isabelle strings (ASCII); the strings read from and
  written to RTT are lists of code points.

  \<^emph>\<open>Plan.\<close> Next: the error paths of \<open>rtt_start()\<close> and of \<open>connect_report\<close>'s
  queries in sessions; writes that race the
  firmware's reads on down-channels; a target reset that clears its buffers; two caller
  threads both reading or writing one channel, whose calls interleave inside pylink's
  \<open>rtt_read\<close>/\<open>rtt_write\<close> (the DLL's own locking is not documented, so that model
  would rest on a guess). Every line of \<open>jlink_dongle.py\<close> that is not blank or an
  import is translated by a definition of the map.
\<close>

abbreviation rb_demo :: rtt_buffer where
  "rb_demo \<equiv> \<lparr>rb_size = 4, rb_rd = 3, rb_wr = 1, rb_mem = [1, 2, 3, 4], rb_mode = Blocking\<rparr>"

abbreviation sim_demo :: "rtt_buffer \<Rightarrow> rtt_buffer \<Rightarrow> (bool, sim_world) pstate" where
  "sim_demo up down \<equiv>
     \<lparr>interface = SWD, speed = Auto, chip_name = CHIP_NAME_DEFAULT, jlink = Some True,
      world = \<lparr>sw_open = True, sw_connected = True, sw_rtt = True, sw_up = [up], sw_down = [down]\<rparr>,
      stdout = []\<rparr>"

abbreviation sim_fresh :: sim_world where
  "sim_fresh \<equiv> \<lparr>sw_open = False, sw_connected = False, sw_rtt = False,
                sw_up = [rb_new 4 Blocking], sw_down = [rb_new 4 Blocking]\<rparr>"

abbreviation sess1 :: "(bool, sim_world) pstate" where
  "sess1 \<equiv> fst (host_exec HConnect
     ((JLinkDongle_init SWD Auto CHIP_NAME_DEFAULT sim_fresh)\<lparr>world := target_write 0 [1, 2] sim_fresh\<rparr>))"

abbreviation hist1 :: rtt_hist where
  "hist1 \<equiv> hist0\<lparr>h_sent := (\<lambda>_. [])(0 := [1, 2])\<rparr>"

abbreviation sess2 :: "(bool, sim_world) pstate" where
  "sess2 \<equiv> fst (host_exec (HWrite [5, 6, 7, 8, 9] 0) sess1)"

abbreviation sess3 :: "(bool, sim_world) pstate" where
  "sess3 \<equiv> fst (host_exec (HReadStr 0) sess1)"

abbreviation sess_lost :: "(bool, sim_world) pstate" where
  "sess_lost \<equiv> sess1\<lparr>world := sim_close_world (world sess1)\<rparr>"

abbreviation rb_split_euro :: rtt_buffer where
  "rb_split_euro \<equiv>
     \<lparr>rb_size = 512, rb_rd = 0, rb_wr = 338, rb_mem = replicate 335 0x41 @ [0xE2, 0x82, 0xAC] @ replicate 174 0,
      rb_mode = Blocking\<rparr>"

section \<open>Witnesses\<close>

text \<open>Each claim with a hypothesis applied where its hypotheses hold.\<close>

theorem check_exception_relabels_witness:
  "fst (check_exception ''read_rtt'' (throw (JLinkException ''x'') :: (unit, pyexc, unit) exn_st) ()) =
     Inl (JLinkDongleException ''Do not read/write from RTT Terminal'')"
proof -
  have "fst ((throw (JLinkException ''x'') :: (unit, pyexc, unit) exn_st) ()) = Inl (JLinkException ''x'')"
    by (simp add: throw_def)
  then show ?thesis
    using check_exception_relabels [of "''read_rtt''" "throw (JLinkException ''x'')" "()" "''x''"] by auto
qed

theorem connect_call_sequence_witness:
  "fst (connect (traced (mock_api False False [] 0)) (mock_init ((), []))) = Inr () \<and>
   call_log (snd (connect (traced (mock_api False False [] 0)) (mock_init ((), [])))) =
     connect_calls False CHIP_NAME_DEFAULT Auto"
proof -
  have ok: "fst (connect (traced (mock_api False False [] 0)) (mock_init ((), []))) = Inr ()"
    by (simp add: connect_def check_exception_run connect_open_def connect_target_def connect_report_def
                  thenE_def bindE_def logged_def mock_run Let_def)
  have init: "connect_calls (jlink (mock_init ((), [])) \<noteq> None) (chip_name (mock_init ((), [])))
                (speed (mock_init ((), []))) = connect_calls False CHIP_NAME_DEFAULT Auto"
    "call_log (mock_init ((), [])) = []"
    by (simp_all add: mock_init_def JLinkDongle_init_def)
  from connect_call_sequence [of "mock_api False False [] 0" "mock_init ((), [])"]
  show ?thesis
  proof (elim exE conjE)
    fix calls
    assume a: "call_log (snd (connect (traced (mock_api False False [] 0)) (mock_init ((), [])))) =
                 call_log (mock_init ((), [])) @ calls"
      and b: "fst (connect (traced (mock_api False False [] 0)) (mock_init ((), []))) = Inr () \<longrightarrow>
                calls = connect_calls (jlink (mock_init ((), [])) \<noteq> None) (chip_name (mock_init ((), [])))
                          (speed (mock_init ((), [])))"
    from b ok have "calls = connect_calls False CHIP_NAME_DEFAULT Auto"
      unfolding init(1) by (rule mp)
    with a ok show ?thesis
      unfolding init(2) by (simp only: append_Nil simp_thms)
  qed
qed
theorem unassigned_raises_attribute_error_witness:
  "read_rtt (mock_api False False [] 0) 0 (mock_init ()) = (Inl jlink_unset, mock_init ())"
  using unassigned_raises_attribute_error [of "mock_init ()" "mock_api False False [] 0" 0 "[]"]
  by (simp add: mock_init_def JLinkDongle_init_def)

theorem reconnect_close_then_connect_witness:
  "reconnect (mock_api False False [] 0) ((mock_init ())\<lparr>jlink := Some 0\<rparr>) =
   connect (mock_api False False [] 0) ((mock_init ())\<lparr>jlink := Some 1\<rparr>)"
proof -
  have "jcall (jl_close (mock_api False False [] 0)) ((mock_init ())\<lparr>jlink := Some 0\<rparr>) =
        (Inr (), (mock_init ())\<lparr>jlink := Some 1\<rparr>)"
    by (simp add: jcall_def mock_ok_def)
  then show ?thesis
    using reconnect_close_then_connect [of "mock_api False False [] 0" "(mock_init ())\<lparr>jlink := Some 0\<rparr>"]
    by blast
qed

theorem read_rtt_string_split_char_witness:
  "utf8_decode [0xE2, 0x82, 0xAC] = Inr [0x20AC] \<and>
   read_rtt_string (mock_api False False [0xE2, 0x82] 0) 0 ((mock_init ())\<lparr>jlink := Some 0\<rparr>) =
     (Inl (UnicodeDecodeError 0), (mock_init ())\<lparr>jlink := Some 1\<rparr>)"
proof -
  have e: "utf8_encode [0x20AC] = Inr [0xE2, 0x82, 0xAC]"
    by (simp add: utf8_encode_def is_scalar_def enc_cp_def)
  have r: "read_rtt (mock_api False False [0xE2, 0x82] 0) 0 ((mock_init ())\<lparr>jlink := Some 0\<rparr>) =
           (Inr (take 2 [0xE2, 0x82, 0xAC]), (mock_init ())\<lparr>jlink := Some 1\<rparr>)"
    by (simp add: read_rtt_def check_exception_run jcall_def mock_ok_def)
  show ?thesis
    using read_rtt_string_split_char [OF e _ _ r] by simp
qed

theorem connect_failure_keeps_new_handle_witness:
  "fst (connect (mock_api True False [] 0) (mock_init ())) =
     Inl (JLinkDongleException (dongle_error_message ''connect'' ''Could not open J-Link.'')) \<and>
   jlink (snd (connect (mock_api True False [] 0) (mock_init ()))) \<noteq> None"
proof -
  have "fst (connect (mock_api True False [] 0) (mock_init ())) =
          Inl (JLinkDongleException (dongle_error_message ''connect'' ''Could not open J-Link.''))"
    by (simp add: connect_def check_exception_run connect_open_def thenE_def bindE_def mock_run)
  moreover have "jl_new (mock_api True False [] 0) (world (mock_init ())) = (Inr 0, ())"
    by simp
  ultimately show ?thesis
    using connect_failure_keeps_new_handle [of "mock_api True False [] 0" "mock_init ()" 0 "()"] by simp
qed

theorem read_rtt_error_drops_cause_witness:
  "read_rtt (mock_api False True [] 0) 0 ((mock_init ())\<lparr>jlink := Some 0\<rparr>) =
     (Inl (JLinkDongleException ''Do not read/write from RTT Terminal''), (mock_init ())\<lparr>jlink := Some 1\<rparr>)"
proof -
  have "jl_rtt_read (mock_api False True [] 0) 0 (jl_MAX_BUF_SIZE (mock_api False True [] 0)) 0
          (world ((mock_init ())\<lparr>jlink := Some 0\<rparr>)) = (Inl (JLinkException ''RTT read failed''), 1, ())"
    by (simp add: mock_fail_def)
  from read_rtt_error_drops_cause [OF _ this] show ?thesis by simp
qed

theorem write_rtt_ignores_count_witness:
  "jl_rtt_write (mock_api False False [] 1) 0 [1, 2, 3] 0 () = (Inr 1, 1, ()) \<and>
   write_rtt (mock_api False False [] 1) [1, 2, 3] 0 ((mock_init ())\<lparr>jlink := Some 0\<rparr>) =
     (Inr (), (mock_init ())\<lparr>jlink := Some 1\<rparr>)"
proof -
  have w: "jl_rtt_write (mock_api False False [] 1) 0 [1, 2, 3] 0 () = (Inr 1, 1, ())"
    by (simp add: mock_ok_def)
  then have "jl_rtt_write (mock_api False False [] 1) 0 [1, 2, 3] 0 (world ((mock_init ())\<lparr>jlink := Some 0\<rparr>)) =
             (Inr 1, 1, ())"
    by simp
  from w write_rtt_ignores_count [OF _ this] show ?thesis by simp
qed

theorem write_rtt_sring_encode_error_witness:
  "write_rtt_sring (mock_api False False [] 0) [0x41, 0xD800] 0 (mock_init ()) =
     (Inl (UnicodeEncodeError 1), mock_init ())"
proof -
  have "utf8_encode [0x41, 0xD800] = Inl 1"
    by (simp add: utf8_encode_def is_scalar_def)
  then show ?thesis by (rule write_rtt_sring_encode_error)
qed

lemma demo_facts:
  "rb_inv rb_demo" "rb_content rb_demo = [4, 1]" "rb_free rb_demo = 1"
  "rb_inv (rb_new 4 Blocking)" "rb_content (rb_new 4 Blocking) = []"
  by (simp_all add: rb_inv_def rb_content_def rb_used_def rotate_drop_take rb_free_def rb_new_def)

theorem read_rtt_sim_fifo_witness:
  "fst (read_rtt sim_api 0 (sim_demo rb_demo rb_demo)) = Inr [4, 1]"
  using JLink_Sim.read_rtt_sim_fifo [of "sim_demo rb_demo rb_demo" 0] demo_facts
  by (simp add: sim_ready_def sim_inv_def)

theorem write_rtt_sim_drops_witness:
  "fst (write_rtt sim_api [7, 8, 9] 0 (sim_demo rb_demo rb_demo)) = Inr () \<and>
   map rb_content (sw_down (world (snd (write_rtt sim_api [7, 8, 9] 0 (sim_demo rb_demo rb_demo))))) = [[4, 1, 7]]"
  using JLink_Sim.write_rtt_sim_drops [of "sim_demo rb_demo rb_demo" 0 "[7, 8, 9]"] demo_facts
  by (simp add: sim_ready_def sim_inv_def)

theorem connect_sim_keeps_target_witness:
  "fst (reconnect sim_api (sim_demo rb_demo rb_demo)) = Inr () \<and>
   sw_up (world (snd (reconnect sim_api (sim_demo rb_demo rb_demo)))) = [rb_demo]"
  using JLink_Sim.connect_sim_keeps_target [of "sim_demo rb_demo rb_demo"] by simp

theorem rtt_string_loopback_witness:
  "fst (read_rtt_string sim_api 0
     ((snd (write_rtt_sring sim_api [0x20AC] 0 (sim_demo (rb_new 4 Blocking) (rb_new 4 Blocking))))
       \<lparr>world := target_echo 0 3
          (world (snd (write_rtt_sring sim_api [0x20AC] 0 (sim_demo (rb_new 4 Blocking) (rb_new 4 Blocking)))))\<rparr>)) =
   Inr [0x20AC]"
proof -
  have "utf8_encode [0x20AC] = Inr [0xE2, 0x82, 0xAC]" by (simp add: utf8_encode_def is_scalar_def enc_cp_def)
  then show ?thesis
    using RTT_Strings.rtt_string_loopback [of "sim_demo (rb_new 4 Blocking) (rb_new 4 Blocking)" 0 "[0x20AC]" "[0xE2, 0x82, 0xAC]" 3]
      demo_facts
    by (simp add: sim_ready_def sim_inv_def rb_new_def)
qed

theorem rtt_loopback_witness:
  "fst (read_rtt sim_api 0
     ((snd (write_rtt sim_api [1, 2, 3] 0 (sim_demo (rb_new 4 Blocking) (rb_new 4 Blocking))))
       \<lparr>world := target_echo 0 3
          (world (snd (write_rtt sim_api [1, 2, 3] 0 (sim_demo (rb_new 4 Blocking) (rb_new 4 Blocking)))))\<rparr>)) =
   Inr [1, 2, 3]"
  using JLink_Sim.rtt_loopback [of "sim_demo (rb_new 4 Blocking) (rb_new 4 Blocking)" 0 "[1, 2, 3]" 3] demo_facts
  by (simp add: sim_ready_def sim_inv_def rb_new_def)

lemma split_euro_facts:
  "rb_inv rb_split_euro"
  "rb_content rb_split_euro = replicate 335 0x41 @ [0xE2, 0x82, 0xAC]"
  "utf8_decode (take 336 (replicate 335 0x41 @ [0xE2, 0x82, 0xAC])) = Inl 335"
proof -
  show "rb_inv rb_split_euro" by (simp add: rb_inv_def)
  show "rb_content rb_split_euro = replicate 335 0x41 @ [0xE2, 0x82, 0xAC]"
    by (simp add: rb_content_def rb_used_def)
  have "take 336 (replicate 335 (0x41 :: byte) @ [0xE2, 0x82, 0xAC]) = replicate 335 0x41 @ [0xE2]" by simp
  moreover have "list_all (\<lambda>b. unat b < 0x80) (replicate 335 (0x41 :: byte))" by (simp add: list_all_iff)
  ultimately show "utf8_decode (take 336 (replicate 335 0x41 @ [0xE2, 0x82, 0xAC])) = Inl 335"
    by (simp add: utf8_decode_def utf8_decode_from_ascii seq_defs Let_def)
qed

theorem read_rtt_sim_bounds_witness:
  "fst (read_rtt sim_api 0 (sim_demo rb_split_euro rb_demo)) = Inr (replicate 335 0x41 @ [0xE2]) \<and>
   length (replicate 335 (0x41 :: byte) @ [0xE2]) \<le> 336"
proof -
  have r: "fst (read_rtt sim_api 0 (sim_demo rb_split_euro rb_demo)) = Inr (replicate 335 0x41 @ [0xE2])"
    using read_rtt_sim [of "sim_demo rb_split_euro rb_demo" 0] rb_read_take_drop(1) [OF split_euro_facts(1), of 336]
      split_euro_facts(2)
    by (simp add: sim_ready_def)
  show ?thesis
    using RTT_Strings.read_rtt_sim_bounds [of 0 "sim_demo rb_split_euro rb_demo" "replicate 335 0x41 @ [0xE2]"] r
    by simp
qed

theorem read_rtt_string_sim_loses_chunk_witness:
  "fst (read_rtt_string sim_api 0 (sim_demo rb_split_euro rb_demo)) = Inl (UnicodeDecodeError 335) \<and>
   rb_content (sw_up (world (snd (read_rtt_string sim_api 0 (sim_demo rb_split_euro rb_demo)))) ! 0) = [0x82, 0xAC]"
  using RTT_Strings.read_rtt_string_sim_loses_chunk [of "sim_demo rb_split_euro rb_demo" 0 335] split_euro_facts
  by (simp add: sim_ready_def sim_inv_def rb_inv_def)

theorem rtt_drain_sim_terminates_witness:
  "\<exists>s'. rtt_drain sim_api 0 (sim_demo rb_demo rb_demo) = Some (Inr [4, 1], s')"
  using RTT_Poll.rtt_drain_sim_terminates [of "sim_demo rb_demo rb_demo" 0] demo_facts
  by (auto simp: sim_ready_def sim_inv_def)

subsection \<open>Sessions\<close>

lemma session_demo:
  "session r f sess1 hist1"
proof -
  let ?s0 = "JLinkDongle_init SWD Auto CHIP_NAME_DEFAULT sim_fresh :: (bool, sim_world) pstate"
  have "session r f ?s0 hist0"
    by (rule session.start) (simp_all add: sim_inv_def chan_ready_def rb_inv_def rb_new_def rb_content_def rb_used_def)
  then have "session r f (?s0\<lparr>world := target_write 0 [1, 2] (world ?s0)\<rparr>)
     (hist0\<lparr>h_sent := (h_sent hist0)(0 := h_sent hist0 0 @ take (snd (rb_write (sw_up (world ?s0) ! 0) [1, 2])) [1, 2])\<rparr>)"
    by (rule session.fw_write) (simp add: JLinkDongle_init_def)
  moreover have "snd (rb_write (rb_new 4 Blocking) [1, 2]) = 2"
    by (simp add: rb_write_def rb_free_def rb_used_def rb_new_def Let_def)
  ultimately have s1: "session r f (?s0\<lparr>world := target_write 0 [1, 2] sim_fresh\<rparr>) hist1"
    by (simp add: JLinkDongle_init_def hist0_def)
  have "session r f sess1 (host_hist HConnect (?s0\<lparr>world := target_write 0 [1, 2] sim_fresh\<rparr>) hist1)"
    by (rule session.host [OF s1])
  then show ?thesis by (simp add: host_hist_def)
qed

lemma sess1_facts:
  "sim_ready sess1" "sw_down (world sess1) = [rb_new 4 Blocking]"
  "sw_up (world sess1) = [fst (rb_write (rb_new 4 Blocking) [1, 2])]"
  "rb_inv (fst (rb_write (rb_new 4 Blocking) [1, 2]))"
  "rb_content (fst (rb_write (rb_new 4 Blocking) [1, 2])) = [1, 2]"
proof -
  show "sim_ready sess1" "sw_down (world sess1) = [rb_new 4 Blocking]"
    "sw_up (world sess1) = [fst (rb_write (rb_new 4 Blocking) [1, 2])]"
    using connect_sim [of "(JLinkDongle_init SWD Auto CHIP_NAME_DEFAULT sim_fresh)\<lparr>world := target_write 0 [1, 2] sim_fresh\<rparr>"]
    by (simp_all add: host_exec_state target_write_def)
  have "rb_inv (rb_new 4 Blocking)" "rb_content (rb_new 4 Blocking) = []"
    by (simp_all add: rb_inv_def rb_new_def rb_content_def rb_used_def)
  then show "rb_inv (fst (rb_write (rb_new 4 Blocking) [1, 2]))"
    "rb_content (fst (rb_write (rb_new 4 Blocking) [1, 2])) = [1, 2]"
    using rb_write_fits [of "rb_new 4 Blocking" "[1, 2]"] by (simp_all add: rb_new_def)
qed

lemma session_demo_write:
  "session r f sess2 (hist1\<lparr>h_wrote := (\<lambda>_. [])(0 := [[5, 6, 7, 8, 9]]), h_taken := (\<lambda>_. [])(0 := [5, 6, 7])\<rparr>)"
proof -
  have "session r f sess2 (host_hist (HWrite [5, 6, 7, 8, 9] 0) sess1 hist1)"
    by (rule session.host [OF session_demo])
  moreover have "fst (write_rtt sim_api [5, 6, 7, 8, 9] 0 sess1) = Inr ()"
    using write_rtt_sim [OF sess1_facts(1), of 0] sess1_facts(2) by simp
  moreover have "snd (rb_write (rb_new 4 Blocking) [5, 6, 7, 8, 9]) = 3"
    by (simp add: rb_write_def rb_free_def rb_used_def rb_new_def Let_def)
  ultimately show ?thesis by (simp add: host_hist_def host_write_hist_def sess1_facts(2) hist0_def)
qed

lemma sess1_read_str:
  "fst (read_rtt sim_api 0 sess1) = Inr [1, 2]" "fst (read_rtt_string sim_api 0 sess1) = Inr [1, 2]"
proof -
  obtain s' where r: "read_rtt sim_api 0 sess1 = (Inr [1, 2], s')"
    using read_rtt_sim_run [of sess1 0] sess1_facts rb_read_take_drop(1) [OF sess1_facts(4), of 336]
    by (simp add: sim_ready_def)
  then show "fst (read_rtt sim_api 0 sess1) = Inr [1, 2]" by simp
  have "list_all (\<lambda>b. unat b < 0x80) [1, 2 :: byte]" by simp
  then have "utf8_decode [1, 2] = Inr [1, 2]"
    by (simp add: utf8_decode_def utf8_decode_from_ascii seq_defs Let_def)
  then show "fst (read_rtt_string sim_api 0 sess1) = Inr [1, 2]"
    by (simp add: read_rtt_string_run r)
qed

lemma session_demo_read_str: "session r f sess3 (host_read_hist 0 [1, 2] (DText [1, 2]) hist1)"
proof -
  have "session r f sess3 (host_hist (HReadStr 0) sess1 hist1)" by (rule session.host [OF session_demo])
  then show ?thesis by (simp add: host_hist_def sess1_read_str)
qed

lemma session_demo_ow:
  "session r f ((JLinkDongle_init SWD Auto CHIP_NAME_DEFAULT race_world)\<lparr>world := target_write 0 [1, 2, 3, 4, 5] race_world\<rparr>)
           (hist0\<lparr>h_sent := (\<lambda>_. [])(0 := [1, 2, 3, 4, 5])\<rparr>)"
proof -
  let ?s0 = "JLinkDongle_init SWD Auto CHIP_NAME_DEFAULT race_world :: (bool, sim_world) pstate"
  have "session r f ?s0 hist0"
    by (rule session.start) (simp_all add: sim_inv_def chan_ready_def rb_inv_def rb_new_def rb_content_def rb_used_def)
  then have "session r f (?s0\<lparr>world := target_write 0 [1, 2, 3, 4, 5] (world ?s0)\<rparr>)
     (hist0\<lparr>h_sent := (h_sent hist0)(0 := h_sent hist0 0 @
        take (snd (rb_write (sw_up (world ?s0) ! 0) [1, 2, 3, 4, 5])) [1, 2, 3, 4, 5])\<rparr>)"
    by (rule session.fw_write) (simp add: JLinkDongle_init_def)
  moreover have "snd (rb_write (rb_new 4 Overwrite) [1, 2, 3, 4, 5]) = 5"
    by (simp add: rb_write_def rb_new_def Let_def)
  ultimately show ?thesis by (simp add: JLinkDongle_init_def hist0_def)
qed

theorem session_connection_state_witness:
  "sim_inv (world sess1) \<and> (jlink sess1 = None \<or> sim_ready sess1)"
  by (rule RTT_Session.session_connection_state [OF session_demo])

theorem session_up_fifo_witness:
  "rb_content (sw_up (world sess1) ! 0) = [1, 2]"
  using Session_Up.session_up_fifo [OF session_demo, of 0] sess1_facts(3)
  by (simp add: hist0_def rb_new_def)

theorem session_down_delivery_witness:
  "rb_content (sw_down (world sess2) ! 0) = [5, 6, 7] \<and>
   (\<exists>ks. length ks = 1 \<and> [5, 6, 7 :: byte] = concat (map2 take ks [[5, 6, 7, 8, 9]]))"
proof -
  let ?h = "hist1\<lparr>h_wrote := (\<lambda>_. [])(0 := [[5, 6, 7, 8, 9]]), h_taken := (\<lambda>_. [])(0 := [5, 6, 7])\<rparr>"
  have l: "0 < length (sw_down (world sess2))"
    using write_rtt_sim [OF sess1_facts(1), of 0] sess1_facts(2) by (simp add: host_exec_state)
  have e: "h_taken ?h 0 = [5, 6, 7]" "h_recv ?h 0 = []" "h_wrote ?h 0 = [[5, 6, 7, 8, 9]]"
    by (simp_all add: hist0_def)
  have "h_taken ?h 0 = h_recv ?h 0 @ rb_content (sw_down (world sess2) ! 0) \<and> prefix (h_recv ?h 0) (h_taken ?h 0) \<and>
        (\<exists>ks. length ks = length (h_wrote ?h 0) \<and> h_taken ?h 0 = concat (map2 take ks (h_wrote ?h 0)))"
    by (rule Session_Down.session_down_delivery [OF session_demo_write l])
  then show ?thesis unfolding e by (metis append_Nil length_Cons list.size(3) One_nat_def)
qed

theorem session_up_deliveries_witness:
  "rb_content (sw_up (world sess3) ! 0) = [] \<and> list_all dlv_ok [DText [1, 2]] \<and>
   dlv_bytes (DText [1, 2]) = [1, 2]"
proof -
  let ?h = "host_read_hist 0 [1, 2] (DText [1, 2]) hist1"
  have up: "sw_up (world sess3) = [snd (rb_read (fst (rb_write (rb_new 4 Blocking) [1, 2])) 336)]"
    using read_rtt_sim_run [of sess1 0] sess1_facts by (simp add: host_exec_state sim_ready_def)
  have m: "0 < length (sw_up (world sess3))" "rb_mode (sw_up (world sess3) ! 0) = Blocking"
    using up by (simp_all add: rb_new_def)
  have e: "h_sent ?h 0 = [1, 2]" "h_dlv ?h 0 = [DText [1, 2]]" by (simp_all add: host_read_hist_def hist0_def)
  have "h_sent ?h 0 = concat (map dlv_bytes (h_dlv ?h 0)) @ rb_content (sw_up (world sess3) ! 0) \<and>
        list_all dlv_ok (h_dlv ?h 0)"
    by (rule Session_Up.session_up_deliveries [OF session_demo_read_str m])
  moreover have "rb_content (sw_up (world sess3) ! 0) = []"
    using up rb_read_take_drop(2) [OF sess1_facts(4), of 336] sess1_facts(5) by simp
  moreover have "utf8_encode [1, 2] = Inr [1, 2]" by (simp add: utf8_encode_def enc_cp_def is_scalar_def)
  ultimately show ?thesis unfolding e by simp
qed

theorem session_up_overwrite_witness:
  "rb_content (sw_up (target_write 0 [1, 2, 3, 4, 5] race_world) ! 0) = [3, 4, 5] \<and>
   subseq [3, 4, 5] [1, 2, 3, 4, 5 :: byte] \<and> suffix [3, 4, 5] [1, 2, 3, 4, 5 :: byte]"
proof -
  have b: "rb_inv (rb_new 4 Overwrite)" "rb_content (rb_new 4 Overwrite) = []"
    by (simp_all add: rb_inv_def rb_new_def rb_content_def rb_used_def)
  have c: "rb_content (sw_up (target_write 0 [1, 2, 3, 4, 5] race_world) ! 0) = [3, 4, 5]"
    using rb_write_accepted(2) [OF b(1), of "[1, 2, 3, 4, 5]"] b(2)
    by (simp add: target_write_def rb_new_def)
  show ?thesis using Session_Up.session_up_overwrite [OF session_demo_ow, of 0] c
    by (simp add: JLinkDongle_init_def target_write_def rb_new_def hist0_def)
qed

lemma session_demo_lost: "session r True sess_lost hist1"
  by (rule session.lose [OF _ session_demo]) simp

theorem session_lost_connection_witness:
  "read_rtt sim_api 0 sess_lost = (Inl rtt_exc, sess_lost) \<and>
   read_rtt_string sim_api 0 sess_lost = (Inl rtt_exc, sess_lost) \<and>
   write_rtt sim_api [5] 0 sess_lost = (Inl rtt_exc, sess_lost)"
proof -
  have "jlink sess_lost \<noteq> None" "\<not> sim_ready sess_lost"
    using sess1_facts(1) by (simp_all add: sim_ready_def sim_close_world_def)
  then show ?thesis using RTT_Session.session_lost_connection [OF session_demo_lost [of False]] by blast
qed

theorem session_connect_absent_witness:
  "fst (connect sim_absent_api sess1) =
     Inl (JLinkDongleException (dongle_error_message ''connect'' ''Cannot connect to J-Link.'')) \<and>
   jlink (snd (connect sim_absent_api sess1)) = Some False \<and>
   read_rtt sim_api 0 (snd (connect sim_absent_api sess1)) = (Inl rtt_exc, snd (connect sim_absent_api sess1)) \<and>
   sw_up (world (snd (connect sim_absent_api sess1))) = [fst (rb_write (rb_new 4 Blocking) [1, 2])]"
  using RTT_Session.session_connect_absent [OF session_demo [of False True] TrueI, of 0] sess1_facts(3) by simp

theorem read_during_reconnect_safe_witness:
  "fst (snd (read_during_reconnect 2 0 sess1)) = Inr () \<and> sim_ready (snd (snd (read_during_reconnect 2 0 sess1))) \<and>
   fst (read_during_reconnect 2 0 sess1) = Inl rtt_exc \<and>
   sw_up (world (snd (snd (read_during_reconnect 2 0 sess1)))) = [fst (rb_write (rb_new 4 Blocking) [1, 2])]"
  using Threads.read_during_reconnect_safe [OF session_demo [of False False], of 2 0] sess1_facts(1,3)
  by (auto simp: sim_ready_def ex_bool_eq)

theorem write_during_reconnect_safe_witness:
  "fst (write_during_reconnect 3 [5] 0 sess1) = Inr () \<and> fst (write_during_reconnect 1 [5] 0 sess1) = Inl rtt_exc \<and>
   sim_ready (snd (snd (write_during_reconnect 1 [5] 0 sess1))) \<and>
   sw_down (world (snd (snd (write_during_reconnect 1 [5] 0 sess1)))) = [rb_new 4 Blocking]"
proof -
  have "jlink sess1 \<noteq> None" "0 < length (sw_down (world sess1))" using sess1_facts(1,2) by (simp_all add: sim_ready_def)
  note w3 = Threads.write_during_reconnect_safe [OF session_demo [of False False] this(1), of 3 0 "[5]"]
   and w1 = Threads.write_during_reconnect_safe [OF session_demo [of False False] this(1), of 1 0 "[5]"]
  have "fst (write_during_reconnect 3 [5] 0 sess1) \<noteq> Inl rtt_exc" using w3 sess1_facts(2) by simp
  moreover have "\<not> isl (fst (write_during_reconnect 3 [5] 0 sess1))"
    using w3 sess1_facts(2) by (auto split: sum.splits)
  ultimately have "fst (write_during_reconnect 3 [5] 0 sess1) = Inr ()" by (cases "fst (write_during_reconnect 3 [5] 0 sess1)") auto
  then show ?thesis using w1 sess1_facts(2) by auto
qed

theorem session_connect_silent_witness:
  "fst (connect (sim_silent_api ''Could not connect to target.'') sess1) =
     Inl (JLinkDongleException (dongle_error_message ''connect'' ''Could not connect to target.'')) \<and>
   read_rtt sim_api 0 (snd (connect (sim_silent_api ''Could not connect to target.'') sess1)) =
     (Inl rtt_exc, snd (connect (sim_silent_api ''Could not connect to target.'') sess1)) \<and>
   sim_ready (snd (reconnect sim_api (snd (connect (sim_silent_api ''Could not connect to target.'') sess1)))) \<and>
   sw_up (world (snd (connect (sim_silent_api ''Could not connect to target.'') sess1))) = [fst (rb_write (rb_new 4 Blocking) [1, 2])]"
  using RTT_Session.session_connect_silent [OF session_demo [of False True] TrueI, of "''Could not connect to target.''" 0 "[]"]
    sess1_facts(3) by simp

theorem read_during_reconnect_serial_witness:
  "read_during_reconnect 3 0 sess1 = reconnect_then_call (read_rtt sim_api 0) sess1 \<and>
   read_during_reconnect 0 0 sess1 = call_then_reconnect (read_rtt sim_api 0) sess1 \<and>
   fst (read_during_reconnect 1 0 sess1) \<noteq> fst (call_then_reconnect (read_rtt sim_api 0) sess1)"
proof -
  have "jlink sess1 \<noteq> None" "0 < length (sw_up (world sess1))" using sess1_facts(1,3) by (simp_all add: sim_ready_def)
  then show ?thesis
    using Threads.read_during_reconnect_serial [OF session_demo [of False False] \<open>jlink sess1 \<noteq> None\<close>, of 3 0]
          Threads.read_during_reconnect_serial [OF session_demo [of False False] \<open>jlink sess1 \<noteq> None\<close>, of 0 0]
          Threads.read_during_reconnect_serial [OF session_demo [of False False] \<open>jlink sess1 \<noteq> None\<close>, of 1 0]
          sess1_facts(1)
    by simp
qed

end
